(* ===== verification/Prelude.thy ===== *)
theory Prelude
  imports Main "HOL-Library.AList"
begin

text \<open>
  Shared material of the development.

  \<^item> 64-bit signed integers: a Go \<open>int64\<close> (and \<open>int\<close>, and \<open>time.Duration\<close>) is an
    \<open>int\<close> and every addition, subtraction and multiplication of the source is followed by
    \<open>wrap64\<close>, two's complement wrap-around.
  \<^item> Go maps: \<open>('k, 'v) gomap\<close> is an association list with distinct keys; the interface
    \<open>go_map\<close> states what reads, writes and deletes promise and is interpreted on it.
  \<^item> Sequences of operations: \<open>run_ops\<close> threads a state through a list of calls.
  \<^item> Transition systems: \<open>reachable\<close> and the locale \<open>inv_system\<close>.

  The collection \<open>i64_simps\<close> holds the rewrites that remove a \<open>wrap64\<close> whose argument is
  in range, \<open>gomap_simps\<close> the laws of maps.
\<close>

named_theorems i64_simps "rewrites for int64 arithmetic that does not overflow"
named_theorems gomap_simps "laws of Go maps"

section \<open>Definitions\<close>

subsection \<open>int64\<close>

type_synonym i64 = int

abbreviation max_i64 :: int where
  "max_i64 \<equiv> 9223372036854775807"

abbreviation min_i64 :: int where
  "min_i64 \<equiv> - 9223372036854775808"

definition in_i64 :: "int \<Rightarrow> bool" where
  "in_i64 x \<longleftrightarrow> min_i64 \<le> x \<and> x \<le> max_i64"

definition wrap64 :: "int \<Rightarrow> i64" where
  "wrap64 x = (x + 9223372036854775808) mod 18446744073709551616 - 9223372036854775808"

text \<open>\<open>time.Time.Sub\<close> returns a Duration and saturates instead of wrapping.\<close>

definition sat64 :: "int \<Rightarrow> i64" where
  "sat64 x = (if x < min_i64 then min_i64 else if max_i64 < x then max_i64 else x)"

subsection \<open>Time\<close>

text \<open>
  A \<open>time.Time\<close> is the number of nanoseconds since the Unix epoch. \<open>Unix()\<close> is the floor
  of the seconds; \<open>Sub\<close> saturates.
\<close>

type_synonym gotime = int

definition nanosecond :: int where "nanosecond = 1"
definition millisecond :: int where "millisecond = 1000000"
definition second :: int where "second = 1000000000"
definition hour :: int where "hour = 3600000000000"

definition time_unix :: "gotime \<Rightarrow> i64" where
  "time_unix t = t div 1000000000"

definition time_sub :: "gotime \<Rightarrow> gotime \<Rightarrow> i64" where
  "time_sub t u = sat64 (t - u)"

subsection \<open>Go maps\<close>

type_synonym ('k, 'v) gomap = "('k \<times> 'v) list"

definition gm_set :: "'k \<Rightarrow> 'v \<Rightarrow> ('k, 'v) gomap \<Rightarrow> ('k, 'v) gomap" where
  "gm_set k v m = AList.update k v m"

definition gm_del :: "'k \<Rightarrow> ('k, 'v) gomap \<Rightarrow> ('k, 'v) gomap" where
  "gm_del k m = AList.delete k m"

definition gm_wf :: "('k, 'v) gomap \<Rightarrow> bool" where
  "gm_wf m \<longleftrightarrow> distinct (map fst m)"

text \<open>Reading a missing key yields the element type's zero value.\<close>

definition gm_val :: "'v \<Rightarrow> ('k, 'v) gomap \<Rightarrow> 'k \<Rightarrow> 'v" where
  "gm_val z m k = (case map_of m k of None \<Rightarrow> z | Some v \<Rightarrow> v)"

text \<open>
  A loop \<open>for k, v := range m { if c k v { delete(m, k) } }\<close>: the range visits the entries
  the map had when the loop started, the deletes hit the current map.
\<close>

fun gm_range_delete :: "('k \<Rightarrow> 'v \<Rightarrow> bool) \<Rightarrow> ('k \<times> 'v) list \<Rightarrow> ('k, 'v) gomap \<Rightarrow> ('k, 'v) gomap" where
  "gm_range_delete c [] m = m"
| "gm_range_delete c ((k, v) # rest) m =
     gm_range_delete c rest (if c k v then gm_del k m else m)"

text \<open>A loop \<open>for k, v := range m { c[k] = v }\<close>: copies the entries into \<open>c\<close>.\<close>

fun gm_copy :: "('k \<times> 'v) list \<Rightarrow> ('k, 'v) gomap \<Rightarrow> ('k, 'v) gomap" where
  "gm_copy [] c = c"
| "gm_copy ((k, v) # rest) c = gm_copy rest (gm_set k v c)"

subsection \<open>Sequences of operations\<close>

fun run_ops :: "('s \<Rightarrow> 'c \<Rightarrow> 'r \<times> 's) \<Rightarrow> 's \<Rightarrow> 'c list \<Rightarrow> 'r list \<times> 's" where
  "run_ops f s [] = ([], s)"
| "run_ops f s (c # cs) =
     (case f s c of (r, s') \<Rightarrow> (case run_ops f s' cs of (rs, s'') \<Rightarrow> (r # rs, s'')))"

subsection \<open>Reachable states\<close>

inductive reachable :: "('s \<Rightarrow> bool) \<Rightarrow> ('s \<Rightarrow> 's \<Rightarrow> bool) \<Rightarrow> 's \<Rightarrow> bool"
  for init :: "'s \<Rightarrow> bool" and step :: "'s \<Rightarrow> 's \<Rightarrow> bool" where
  start: "init s \<Longrightarrow> reachable init step s"
| move: "reachable init step s \<Longrightarrow> step s t \<Longrightarrow> reachable init step t"

section \<open>int64 arithmetic\<close>

lemma wrap64_in [simp]: "in_i64 (wrap64 x)"
proof -
  define y where "y = (x + 9223372036854775808) mod 18446744073709551616"
  have "0 \<le> y" and "y < 18446744073709551616"
    unfolding y_def by (rule pos_mod_sign, simp) (rule pos_mod_bound, simp)
  then show ?thesis
    unfolding in_i64_def wrap64_def y_def [symmetric] by simp
qed

lemma wrap64_id [i64_simps]: "in_i64 x \<Longrightarrow> wrap64 x = x"
  by (simp add: in_i64_def wrap64_def mod_pos_pos_trivial)

lemma wrap64_wrap64 [simp]: "wrap64 (wrap64 x) = wrap64 x"
  by (rule wrap64_id) simp

lemma wrap64_mod: "wrap64 x mod 18446744073709551616 = x mod 18446744073709551616"
  by (simp add: wrap64_def mod_diff_left_eq)

lemma wrap64_eqI: "x mod 18446744073709551616 = y mod 18446744073709551616 \<Longrightarrow> wrap64 x = wrap64 y"
  unfolding wrap64_def using mod_add_cong [of x 18446744073709551616 y] by simp

lemma wrap64_add_left [simp]: "wrap64 (wrap64 x + y) = wrap64 (x + y)"
  by (rule wrap64_eqI) (rule mod_add_cong [OF wrap64_mod refl])

lemma sat64_in [simp]: "in_i64 (sat64 x)"
  by (simp add: in_i64_def sat64_def)

lemma sat64_id [i64_simps]: "in_i64 x \<Longrightarrow> sat64 x = x"
  by (simp add: in_i64_def sat64_def)

lemma sat64_mono: "x \<le> y \<Longrightarrow> sat64 x \<le> sat64 y"
  by (simp add: sat64_def)

lemma in_i64_between: "in_i64 a \<Longrightarrow> in_i64 b \<Longrightarrow> a \<le> x \<Longrightarrow> x \<le> b \<Longrightarrow> in_i64 x"
  by (simp add: in_i64_def)

lemma in_i64_0 [simp]: "in_i64 0" and in_i64_1 [simp]: "in_i64 1"
  by (simp_all add: in_i64_def)

text \<open>A difference of two non-negative int64 values cannot overflow.\<close>

lemma wrap64_diff_nonneg [i64_simps]:
  "in_i64 a \<Longrightarrow> in_i64 b \<Longrightarrow> 0 \<le> a \<Longrightarrow> 0 \<le> b \<Longrightarrow> wrap64 (a - b) = a - b"
  by (rule wrap64_id) (simp add: in_i64_def)

text \<open>Nor can a counter that is below an int64 bound when it is incremented.\<close>

lemma wrap64_incr [i64_simps]:
  "in_i64 b \<Longrightarrow> 0 \<le> a \<Longrightarrow> a < b \<Longrightarrow> wrap64 (a + 1) = a + 1"
  by (rule wrap64_id) (simp add: in_i64_def)

section \<open>The interface of Go maps\<close>

locale go_map =
  fixes empty :: 'm
    and get :: "'m \<Rightarrow> 'k \<Rightarrow> 'v option"
    and put :: "'k \<Rightarrow> 'v \<Rightarrow> 'm \<Rightarrow> 'm"
    and del :: "'k \<Rightarrow> 'm \<Rightarrow> 'm"
    and len :: "'m \<Rightarrow> nat"
    and wf :: "'m \<Rightarrow> bool"
  assumes get_empty: "get empty k = None"
    and get_put: "get (put k v m) k' = (if k' = k then Some v else get m k')"
    and get_del: "wf m \<Longrightarrow> get (del k m) k' = (if k' = k then None else get m k')"
    and wf_empty: "wf empty"
    and wf_put: "wf m \<Longrightarrow> wf (put k v m)"
    and wf_del: "wf m \<Longrightarrow> wf (del k m)"
    and finite_keys: "wf m \<Longrightarrow> finite (dom (get m))"
    and len_keys: "wf m \<Longrightarrow> len m = card (dom (get m))"
begin

lemma len_empty: "len empty = 0"
  by (simp add: len_keys wf_empty get_empty dom_def)

lemma len_put:
  assumes "wf m"
  shows "len (put k v m) = (if get m k = None then Suc (len m) else len m)"
proof -
  have keys: "dom (get (put k v m)) = insert k (dom (get m))"
    by (auto simp: get_put split: if_splits)
  show ?thesis
    using assms finite_keys [OF assms]
    by (simp add: len_keys wf_put keys card_insert_if domIff)
qed

lemma len_del:
  assumes "wf m"
  shows "len (del k m) = (if get m k = None then len m else len m - 1)"
proof -
  have keys: "dom (get (del k m)) = dom (get m) - {k}"
    by (auto simp: get_del assms split: if_splits)
  show ?thesis
    using assms finite_keys [OF assms]
    by (simp add: len_keys wf_del keys card_Diff_singleton_if domIff)
qed

lemma put_overwrites: "get (put k w (put k v m)) = get (put k w m)"
  by (auto simp: get_put)

end

lemma gm_get_set [simp]: "map_of (gm_set k v m) k' = (if k' = k then Some v else map_of m k')"
  by (simp add: gm_set_def update_conv')

lemma gm_get_del [simp]: "map_of (gm_del k m) k' = (if k' = k then None else map_of m k')"
  by (simp add: gm_del_def delete_conv')

lemma gm_wf_Nil [simp]: "gm_wf []"
  by (simp add: gm_wf_def)

lemma gm_wf_set [simp]: "gm_wf m \<Longrightarrow> gm_wf (gm_set k v m)"
  by (simp add: gm_wf_def gm_set_def distinct_update)

lemma gm_wf_del [simp]: "gm_wf m \<Longrightarrow> gm_wf (gm_del k m)"
  by (simp add: gm_wf_def gm_del_def distinct_delete)

lemma gm_len: "gm_wf m \<Longrightarrow> length m = card (dom (map_of m))"
  by (metis distinct_card dom_map_of_conv_image_fst gm_wf_def length_map set_map)

interpretation gm: go_map "[]" map_of gm_set gm_del length gm_wf
  by unfold_locales (simp_all add: gm_len finite_dom_map_of)

lemmas [gomap_simps] = gm.len_put gm.len_del gm.get_put gm.get_del

lemma gm_val_set [simp]: "gm_val z (gm_set k v m) k' = (if k' = k then v else gm_val z m k')"
  by (simp add: gm_val_def)

lemma gm_val_Nil [simp]: "gm_val z [] k = z"
  by (simp add: gm_val_def)

lemma gm_range_delete_get:
  "map_of (gm_range_delete c es m) k =
     (if \<exists>v. (k, v) \<in> set es \<and> c k v then None else map_of m k)"
  by (induction c es m rule: gm_range_delete.induct) auto

lemma gm_range_delete_wf [simp]: "gm_wf m \<Longrightarrow> gm_wf (gm_range_delete c es m)"
  by (induction c es m rule: gm_range_delete.induct) auto

text \<open>Over the map's own entries the loop keeps exactly the entries that fail the test.\<close>

lemma gm_range_delete_self:
  assumes "gm_wf m"
  shows "map_of (gm_range_delete c m m) k =
     (case map_of m k of None \<Rightarrow> None | Some v \<Rightarrow> if c k v then None else Some v)"
  using assms
  by (auto simp: gm_range_delete_get gm_wf_def map_of_eq_Some_iff map_of_eq_None_iff image_iff
      split: option.split dest: eq_key_imp_eq_value)

lemma gm_copy_get:
  "distinct (map fst es) \<Longrightarrow>
     map_of (gm_copy es c) k = (case map_of es k of None \<Rightarrow> map_of c k | Some v \<Rightarrow> Some v)"
proof (induction es c rule: gm_copy.induct)
  case (2 k' v rest c)
  then show ?case
    by (auto split: option.split dest: map_of_SomeD simp: map_of_eq_None_iff image_iff)
qed simp

lemma gm_copy_wf [simp]: "gm_wf c \<Longrightarrow> gm_wf (gm_copy es c)"
  by (induction es c rule: gm_copy.induct) auto

section \<open>Sequences of operations\<close>

lemma run_ops_Cons:
  "fst (run_ops f s (c # cs)) = fst (f s c) # fst (run_ops f (snd (f s c)) cs)"
  "snd (run_ops f s (c # cs)) = snd (run_ops f (snd (f s c)) cs)"
  by (simp_all split: prod.split)

lemma run_ops_append: "fst (run_ops f s (xs @ ys)) = fst (run_ops f s xs) @ fst (run_ops f (snd (run_ops f s xs)) ys)"
  by (induction xs arbitrary: s) (simp_all add: run_ops_Cons del: run_ops.simps(2))

lemma run_ops_length: "length (fst (run_ops f s cs)) = length cs"
  by (induction cs arbitrary: s) (simp_all add: run_ops_Cons del: run_ops.simps(2))

lemma run_ops_invariant:
  assumes "\<And>s c. I s \<Longrightarrow> I (snd (f s c))" and "I s"
  shows "I (snd (run_ops f s cs))"
  using assms(2)
proof (induction cs arbitrary: s)
  case (Cons c cs)
  from assms(1) [OF Cons.prems] have "I (snd (f s c))" .
  from Cons.IH [OF this] show ?case by (auto split: prod.split)
qed simp

section \<open>Invariants of transition systems\<close>

locale inv_system =
  fixes init :: "'s \<Rightarrow> bool" and step :: "'s \<Rightarrow> 's \<Rightarrow> bool" and invar :: "'s \<Rightarrow> bool"
  assumes init_inv: "init s \<Longrightarrow> invar s"
    and step_inv: "step s t \<Longrightarrow> invar s \<Longrightarrow> invar t"
begin

lemma reachable_inv: "reachable init step s \<Longrightarrow> invar s"
  by (induction rule: reachable.induct) (auto intro: init_inv step_inv)

end

end
