(* ===== verification/Go_Strings.thy ===== *)
theory Go_Strings
  imports Prelude
begin

text \<open>
  The parts of Go's standard library on strings that the program uses. A Go string (and a
  \<open>[]byte\<close>) is a sequence of bytes; \<open>string\<close> is a list of 8-bit characters, so the two
  conversions between them are the identity.

  \<^item> \<open>strings\<close>: prefixes, suffixes, \<open>Split\<close>, \<open>TrimSpace\<close>, \<open>Join\<close>;
  \<^item> \<open>strconv\<close>: decimal printing and \<open>ParseInt(s, 10, 64)\<close> with both error kinds;
  \<^item> \<open>encoding/hex\<close>;
  \<^item> \<open>net/http\<close>: headers with canonical keys.
  Shown here: printing then parsing an int64 returns it, hex encoding is injective and
  decodes, and how a header read sees a header write.
\<close>

type_synonym bytes = string

section \<open>Definitions\<close>

subsection \<open>strings\<close>

definition has_prefix :: "string \<Rightarrow> string \<Rightarrow> bool" where
  "has_prefix s p \<longleftrightarrow> take (length p) s = p"

definition has_suffix :: "string \<Rightarrow> string \<Rightarrow> bool" where
  "has_suffix s p \<longleftrightarrow> length p \<le> length s \<and> drop (length s - length p) s = p"

definition trim_prefix :: "string \<Rightarrow> string \<Rightarrow> string" where
  "trim_prefix s p = (if has_prefix s p then drop (length p) s else s)"

definition trim_suffix :: "string \<Rightarrow> string \<Rightarrow> string" where
  "trim_suffix s p = (if has_suffix s p then take (length s - length p) s else s)"

text \<open>\<open>strings.Split(s, sep)\<close> for a one-byte separator.\<close>

fun split_on :: "char \<Rightarrow> string \<Rightarrow> string list" where
  "split_on c [] = [[]]"
| "split_on c (x # xs) =
     (if x = c then [] # split_on c xs
      else (case split_on c xs of [] \<Rightarrow> [[x]] | y # ys \<Rightarrow> (x # y) # ys))"

fun join :: "string list \<Rightarrow> string \<Rightarrow> string" where
  "join [] sep = []"
| "join [x] sep = x"
| "join (x # y # ys) sep = x @ sep @ join (y # ys) sep"

text \<open>
  The UTF-8 encodings of the code points with Unicode's White\_Space property, which
  \<open>TrimSpace\<close> strips at both ends.
\<close>

definition space_runes :: "string list" where
  "space_runes =
     [[CHR 0x09], [CHR 0x0A], [CHR 0x0B], [CHR 0x0C], [CHR 0x0D], [CHR 0x20],
      [CHR 0xC2, CHR 0x85], [CHR 0xC2, CHR 0xA0], [CHR 0xE1, CHR 0x9A, CHR 0x80]] @
     map (\<lambda>c. [CHR 0xE2, CHR 0x80, c])
       [CHR 0x80, CHR 0x81, CHR 0x82, CHR 0x83, CHR 0x84, CHR 0x85, CHR 0x86, CHR 0x87,
        CHR 0x88, CHR 0x89, CHR 0x8A, CHR 0xA8, CHR 0xA9, CHR 0xAF] @
     [[CHR 0xE2, CHR 0x81, CHR 0x9F], [CHR 0xE3, CHR 0x80, CHR 0x80]]"

function strip_left :: "string list \<Rightarrow> string \<Rightarrow> string" where
  "strip_left rs s =
     (case find (\<lambda>r. r \<noteq> [] \<and> has_prefix s r) rs of
        None \<Rightarrow> s
      | Some r \<Rightarrow> strip_left rs (drop (length r) s))"
  by pat_completeness auto
termination
proof (relation "measure (\<lambda>(rs, s). length s)")
  fix rs s r
  assume "find (\<lambda>r. r \<noteq> [] \<and> has_prefix s r) rs = Some r"
  then have "r \<noteq> []" and "has_prefix s r"
    by (auto simp: find_Some_iff)
  then have "s \<noteq> []" by (cases s) (auto simp: has_prefix_def)
  with \<open>r \<noteq> []\<close> show "((rs, drop (length r) s), rs, s) \<in> measure (\<lambda>(rs, s). length s)"
    by simp
qed simp

declare strip_left.simps [simp del]

definition trim_space :: "string \<Rightarrow> string" where
  "trim_space s =
     rev (strip_left (map rev space_runes) (rev (strip_left space_runes s)))"

subsection \<open>strconv\<close>

definition digit_char :: "nat \<Rightarrow> char" where
  "digit_char d = char_of (48 + d)"

definition digit_val :: "char \<Rightarrow> nat option" where
  "digit_val c =
     (let n = (of_char c :: nat) in if 48 \<le> n \<and> n \<le> 57 then Some (n - 48) else None)"

fun show_nat :: "nat \<Rightarrow> string" where
  "show_nat n =
     (if n < 10 then [digit_char n] else show_nat (n div 10) @ [digit_char (n mod 10)])"

declare show_nat.simps [simp del]

text \<open>\<open>strconv.FormatInt(x, 10)\<close>, and what \<open>%d\<close> prints.\<close>

definition show_int :: "int \<Rightarrow> string" where
  "show_int x = (if x < 0 then CHR ''-'' # show_nat (nat (- x)) else show_nat (nat x))"

datatype num_error = ErrSyntax | ErrRange

fun parse_uint_loop :: "nat \<Rightarrow> string \<Rightarrow> num_error + nat" where
  "parse_uint_loop n [] = Inr n"
| "parse_uint_loop n (c # cs) =
     (case digit_val c of
        None \<Rightarrow> Inl ErrSyntax
      | Some d \<Rightarrow>
          if 1844674407370955162 \<le> n then Inl ErrRange
          else if 18446744073709551615 < n * 10 + d then Inl ErrRange
          else parse_uint_loop (n * 10 + d) cs)"

text \<open>\<open>ParseUint\<close> returns the largest uint64 together with a range error.\<close>

definition parse_uint64 :: "string \<Rightarrow> nat \<times> num_error option" where
  "parse_uint64 s =
     (if s = [] then (0, Some ErrSyntax)
      else (case parse_uint_loop 0 s of
              Inr n \<Rightarrow> (n, None)
            | Inl ErrSyntax \<Rightarrow> (0, Some ErrSyntax)
            | Inl ErrRange \<Rightarrow> (18446744073709551615, Some ErrRange)))"

definition parse_int64 :: "string \<Rightarrow> i64 \<times> num_error option" where
  "parse_int64 s =
     (if s = [] then (0, Some ErrSyntax)
      else
        (let neg = (hd s = CHR ''-'');
             body = (if hd s = CHR ''+'' \<or> neg then tl s else s);
             (un, err) = parse_uint64 body
         in if err = Some ErrSyntax then (0, Some ErrSyntax)
            else if \<not> neg \<and> 9223372036854775808 \<le> un then (max_i64, Some ErrRange)
            else if neg \<and> 9223372036854775808 < un then (min_i64, Some ErrRange)
            else ((if neg then - int un else int un), None)))"

subsection \<open>encoding/hex\<close>

definition hex_digit :: "nat \<Rightarrow> char" where
  "hex_digit n = (if n < 10 then char_of (48 + n) else char_of (87 + n))"

definition hex_val :: "char \<Rightarrow> nat option" where
  "hex_val c =
     (let n = (of_char c :: nat)
      in if 48 \<le> n \<and> n \<le> 57 then Some (n - 48)
         else if 97 \<le> n \<and> n \<le> 102 then Some (n - 87)
         else if 65 \<le> n \<and> n \<le> 70 then Some (n - 55)
         else None)"

definition hex_byte :: "char \<Rightarrow> string" where
  "hex_byte c = [hex_digit (of_char c div 16), hex_digit (of_char c mod 16)]"

definition hex_encode :: "bytes \<Rightarrow> string" where
  "hex_encode b = concat (map hex_byte b)"

fun hex_decode :: "string \<Rightarrow> bytes option" where
  "hex_decode [] = Some []"
| "hex_decode [x] = None"
| "hex_decode (x # y # s) =
     (case (hex_val x, hex_val y, hex_decode s) of
        (Some a, Some b, Some r) \<Rightarrow> Some (char_of (16 * a + b) # r)
      | _ \<Rightarrow> None)"

subsection \<open>ASCII letters\<close>

definition ascii_lower :: "char \<Rightarrow> char" where
  "ascii_lower c =
     (let n = (of_char c :: nat) in if 65 \<le> n \<and> n \<le> 90 then char_of (n + 32) else c)"

definition ascii_upper :: "char \<Rightarrow> char" where
  "ascii_upper c =
     (let n = (of_char c :: nat) in if 97 \<le> n \<and> n \<le> 122 then char_of (n - 32) else c)"

definition is_ascii :: "string \<Rightarrow> bool" where
  "is_ascii s \<longleftrightarrow> list_all (\<lambda>c. (of_char c :: nat) < 128) s"

text \<open>
  \<open>strings.ToLower\<close>: on an ASCII string byte by byte, otherwise rune by rune with Unicode's
  case tables. The tables are the argument \<open>ulow\<close>.
\<close>

definition to_lower :: "(string \<Rightarrow> string) \<Rightarrow> string \<Rightarrow> string" where
  "to_lower ulow s = (if is_ascii s then map ascii_lower s else ulow s)"

subsection \<open>net/http headers\<close>

definition valid_header_byte :: "char \<Rightarrow> bool" where
  "valid_header_byte c \<longleftrightarrow>
     (let n = (of_char c :: nat)
      in (48 \<le> n \<and> n \<le> 57) \<or> (65 \<le> n \<and> n \<le> 90) \<or> (97 \<le> n \<and> n \<le> 122) \<or>
         n \<in> {33, 35, 36, 37, 38, 39, 42, 43, 45, 46, 94, 95, 96, 124, 126})"

fun canon_loop :: "bool \<Rightarrow> string \<Rightarrow> string" where
  "canon_loop up [] = []"
| "canon_loop up (c # cs) =
     (let c' = (if up then ascii_upper c else ascii_lower c)
      in c' # canon_loop (c' = CHR ''-'') cs)"

definition canonical_key :: "string \<Rightarrow> string" where
  "canonical_key s = (if list_all valid_header_byte s then canon_loop True s else s)"

type_synonym http_header = "(string, string list) gomap"

definition hdr_set :: "string \<Rightarrow> string \<Rightarrow> http_header \<Rightarrow> http_header" where
  "hdr_set k v h = gm_set (canonical_key k) [v] h"

definition hdr_add :: "string \<Rightarrow> string \<Rightarrow> http_header \<Rightarrow> http_header" where
  "hdr_add k v h = gm_set (canonical_key k) (gm_val [] h (canonical_key k) @ [v]) h"

definition hdr_values :: "http_header \<Rightarrow> string \<Rightarrow> string list" where
  "hdr_values h k = gm_val [] h (canonical_key k)"

definition hdr_get :: "http_header \<Rightarrow> string \<Rightarrow> string" where
  "hdr_get h k = (case hdr_values h k of [] \<Rightarrow> [] | v # _ \<Rightarrow> v)"

section \<open>Strings\<close>

lemma has_prefix_append [simp]: "has_prefix (p @ s) p"
  by (simp add: has_prefix_def)

lemma trim_prefix_append [simp]: "trim_prefix (p @ s) p = s"
  by (simp add: trim_prefix_def)

lemma split_on_nonempty [simp]: "split_on c s \<noteq> []"
  by (induction s) (auto split: list.split)

lemma split_on_none: "c \<notin> set s \<Longrightarrow> split_on c s = [s]"
  by (induction s) auto

lemma split_on_append: "c \<notin> set a \<Longrightarrow> split_on c (a @ c # s) = a # split_on c s"
  by (induction a) auto

lemma strip_left_id: "(\<And>r. r \<in> set rs \<Longrightarrow> r \<noteq> [] \<Longrightarrow> \<not> has_prefix s r) \<Longrightarrow> strip_left rs s = s"
  by (subst strip_left.simps) (auto simp: find_Some_iff split: option.split)

text \<open>A string whose first and last bytes are printable ASCII keeps its form.\<close>

definition solid :: "char \<Rightarrow> bool" where
  "solid c \<longleftrightarrow> 33 \<le> (of_char c :: nat) \<and> (of_char c :: nat) < 127"

lemma space_runes_hd: "r \<in> set space_runes \<Longrightarrow> r \<noteq> [] \<and> \<not> solid (hd r) \<and> \<not> solid (last r)"
  by (auto simp: space_runes_def solid_def)

lemma strip_left_solid:
  assumes "\<And>r. r \<in> set rs \<Longrightarrow> r \<noteq> [] \<and> \<not> solid (hd r)" and "s \<noteq> []" and "solid (hd s)"
  shows "strip_left rs s = s"
proof (rule strip_left_id)
  fix r assume "r \<in> set rs" and "r \<noteq> []"
  with assms(1) have "\<not> solid (hd r)" by blast
  with \<open>r \<noteq> []\<close> assms(2,3) show "\<not> has_prefix s r"
    by (cases s; cases r) (auto simp: has_prefix_def)
qed

lemma trim_space_solid:
  assumes "s \<noteq> []" and "solid (hd s)" and "solid (last s)"
  shows "trim_space s = s"
proof -
  have "strip_left space_runes s = s"
    using assms space_runes_hd by (intro strip_left_solid) auto
  moreover have "strip_left (map rev space_runes) (rev s) = rev s"
    using assms space_runes_hd
    by (intro strip_left_solid) (auto simp: hd_rev)
  ultimately show ?thesis by (simp add: trim_space_def)
qed

section \<open>Decimal numbers\<close>

lemma of_char_char_of_small [simp]: "n < 256 \<Longrightarrow> (of_char (char_of n :: char) :: nat) = n"
  by simp

lemma digit_val_char [simp]: "d < 10 \<Longrightarrow> digit_val (digit_char d) = Some d"
  by (simp add: digit_val_def digit_char_def)

lemma solid_digit [simp]: "d < 10 \<Longrightarrow> solid (digit_char d)"
  by (simp add: solid_def digit_char_def)

lemma digit_char_neq [simp]:
  "d < 10 \<Longrightarrow> digit_char d \<noteq> CHR '',''" "d < 10 \<Longrightarrow> digit_char d \<noteq> CHR ''-''"
  "d < 10 \<Longrightarrow> digit_char d \<noteq> CHR ''+''"
  using digit_val_char by (force simp: digit_val_def)+

lemma show_nat_digits: "\<exists>d. d < 10 \<and> c = digit_char d" if "c \<in> set (show_nat n)"
  using that
proof (induction n rule: show_nat.induct)
  case (1 n)
  then show ?case
    by (subst (asm) (2) show_nat.simps) (auto split: if_splits intro: exI [of _ "n mod 10"])
qed

lemma show_nat_nonempty [simp]: "show_nat n \<noteq> []"
  by (subst show_nat.simps) simp

lemma parse_show_nat:
  "n \<le> 18446744073709551615 \<Longrightarrow> parse_uint_loop 0 (show_nat n @ s) = parse_uint_loop n s"
proof (induction n arbitrary: s rule: show_nat.induct)
  case (1 n)
  show ?case
  proof (cases "n < 10")
    case True
    then show ?thesis by (simp add: show_nat.simps [of n])
  next
    case False
    have "parse_uint_loop 0 (show_nat (n div 10) @ digit_char (n mod 10) # s)
          = parse_uint_loop (n div 10) (digit_char (n mod 10) # s)"
      using False "1.prems" by (intro "1.IH") auto
    moreover have "n div 10 < 1844674407370955162"
      using "1.prems" by (simp add: div_less_iff_less_mult)
    moreover have "n div 10 * 10 + n mod 10 = n" by simp
    ultimately show ?thesis
      using False "1.prems" by (simp add: show_nat.simps [of n])
  qed
qed

lemma parse_uint64_show: "n \<le> 18446744073709551615 \<Longrightarrow> parse_uint64 (show_nat n) = (n, None)"
  using parse_show_nat [of n "[]"] by (simp add: parse_uint64_def)

lemma hd_show_nat: "\<exists>d. d < 10 \<and> hd (show_nat n) = digit_char d"
  by (rule show_nat_digits [of _ n]) simp

theorem parse_show_int: "in_i64 x \<Longrightarrow> parse_int64 (show_int x) = (x, None)"
proof -
  assume x: "in_i64 x"
  obtain d where "d < 10" and hd: "hd (show_nat (nat x)) = digit_char d"
    using hd_show_nat by blast
  then have "hd (show_nat (nat x)) \<noteq> CHR ''-''" and "hd (show_nat (nat x)) \<noteq> CHR ''+''"
    by simp_all
  then show ?thesis
    using x parse_uint64_show [of "nat x"] parse_uint64_show [of "nat (- x)"]
    by (auto simp: parse_int64_def show_int_def in_i64_def Let_def)
qed

lemma show_int_nonempty [simp]: "show_int x \<noteq> []"
  by (simp add: show_int_def)

lemma show_int_chars: "c \<in> set (show_int x) \<Longrightarrow> solid c \<and> c \<noteq> CHR '',''"
  by (auto simp: show_int_def solid_def digit_char_def [symmetric]
      split: if_splits dest!: show_nat_digits)
    (auto simp: digit_char_def)

section \<open>Hexadecimal\<close>

lemma hex_val_digit [simp]: "n < 16 \<Longrightarrow> hex_val (hex_digit n) = Some n"
  by (auto simp: hex_val_def hex_digit_def Let_def)

lemma hex_digit_lower [simp]: "n < 16 \<Longrightarrow> ascii_lower (hex_digit n) = hex_digit n"
  by (auto simp: hex_digit_def ascii_lower_def Let_def)

lemma solid_hex [simp]: "n < 16 \<Longrightarrow> solid (hex_digit n)"
  by (auto simp: hex_digit_def solid_def)

lemma hex_digit_not_comma [simp]: "n < 16 \<Longrightarrow> hex_digit n \<noteq> CHR '',''"
  using hex_val_digit by (force simp: hex_val_def)

lemma hex_encode_Nil [simp]: "hex_encode [] = []"
  and hex_encode_Cons: "hex_encode (c # b) = hex_byte c @ hex_encode b"
  by (simp_all add: hex_encode_def)

lemma of_char_div_lt [simp]: "(of_char c :: nat) div 16 < 16"
  using nat_of_char_less_256 [of c] by (simp add: div_less_iff_less_mult)

lemma hex_encode_chars: "x \<in> set (hex_encode b) \<Longrightarrow> \<exists>n < 16. x = hex_digit n"
proof -
  have mod16: "(of_char c :: nat) mod 16 < 16" for c by simp
  assume "x \<in> set (hex_encode b)"
  then show ?thesis
    by (auto simp: hex_encode_def hex_byte_def intro: of_char_div_lt mod16)
qed

theorem hex_roundtrip: "hex_decode (hex_encode b) = Some b"
proof (induction b)
  case (Cons c b)
  have "16 * (of_char c div 16) + of_char c mod 16 = (of_char c :: nat)" by simp
  with Cons show ?case
    by (simp add: hex_encode_Cons hex_byte_def)
qed simp

lemma length_hex_encode: "length (hex_encode b) = 2 * length b"
  by (induction b) (simp_all add: hex_encode_Cons hex_byte_def)

lemma hex_encode_lower: "map ascii_lower (hex_encode b) = hex_encode b"
  using hex_encode_chars by (intro map_idI) fastforce

lemma hex_encode_ascii: "is_ascii (hex_encode b)"
  unfolding is_ascii_def list_all_iff using hex_encode_chars [of _ b]
  by (force simp: hex_digit_def)

lemma to_lower_hex: "to_lower ulow (hex_encode b) = hex_encode b"
  by (simp add: to_lower_def hex_encode_ascii hex_encode_lower)

section \<open>Headers\<close>

lemma hdr_values_set: "hdr_values (hdr_set k v h) k' =
    (if canonical_key k' = canonical_key k then [v] else hdr_values h k')"
  by (simp add: hdr_values_def hdr_set_def)

lemma hdr_values_add: "hdr_values (hdr_add k v h) k' =
    (if canonical_key k' = canonical_key k then hdr_values h k @ [v] else hdr_values h k')"
  by (simp add: hdr_values_def hdr_add_def)

lemma hdr_get_set: "hdr_get (hdr_set k v h) k' =
    (if canonical_key k' = canonical_key k then v else hdr_get h k')"
  by (simp add: hdr_get_def hdr_values_set)

lemma gm_wf_hdr_set [simp]: "gm_wf h \<Longrightarrow> gm_wf (hdr_set k v h)"
  and gm_wf_hdr_add [simp]: "gm_wf h \<Longrightarrow> gm_wf (hdr_add k v h)"
  by (simp_all add: hdr_set_def hdr_add_def)

end
