(* ===== verification/Go_Float.thy ===== *)
theory Go_Float
  imports Prelude "HOL-Library.Log_Nat"
begin

text \<open>
  Go's \<open>float64\<close>: IEEE 754 double precision with round to nearest, ties to even. A finite value
  is the rational number it denotes; the two zeros are identified, since no code here divides by
  a computed zero or prints one. \<open>fl\<close> rounds the exact result of an operation, \<open>Fin\<close>
  holds the finite values and an overflow is an infinity.

  The interface \<open>rounding\<close> states the two laws from which the arithmetic of the components
  follows: rounding is monotone, and it is exact on the values it produces and on the integers up
  to \<open>2^53\<close>. It is interpreted on \<open>fl\<close>.
\<close>

section \<open>Definitions\<close>

datatype float64 = NaN | PInf | NInf | Fin rat

text \<open>The greatest \<open>e\<close> with \<open>2^e \<le> x\<close>, for positive \<open>x\<close>.\<close>

definition ilog2 :: "rat \<Rightarrow> int" where
  "ilog2 x =
     (if 1 \<le> x then int (floorlog 2 (nat \<lfloor>x\<rfloor>)) - 1
      else - int (floorlog 2 (nat (\<lceil>1 / x\<rceil> - 1))))"

definition ulp_exp :: "rat \<Rightarrow> int" where
  "ulp_exp x = max (ilog2 \<bar>x\<bar> - 52) (- 1074)"

definition two_pow :: "int \<Rightarrow> rat" where
  "two_pow e = (if 0 \<le> e then 2 ^ nat e else 1 / 2 ^ nat (- e))"

definition round_even :: "rat \<Rightarrow> int" where
  "round_even x =
     (let f = \<lfloor>x\<rfloor>; d = x - of_int f
      in if d < 1 / 2 \<or> (d = 1 / 2 \<and> even f) then f else f + 1)"

definition round_rat :: "rat \<Rightarrow> rat" where
  "round_rat x =
     (if x = 0 then 0 else of_int (round_even (x / two_pow (ulp_exp x))) * two_pow (ulp_exp x))"

definition fl :: "rat \<Rightarrow> float64" where
  "fl x =
     (let v = round_rat x
      in if 2 ^ 1024 \<le> v then PInf else if v \<le> - (2 ^ 1024) then NInf else Fin v)"

fun f_add :: "float64 \<Rightarrow> float64 \<Rightarrow> float64" where
  "f_add (Fin x) (Fin y) = fl (x + y)"
| "f_add NaN _ = NaN"
| "f_add _ NaN = NaN"
| "f_add PInf NInf = NaN"
| "f_add NInf PInf = NaN"
| "f_add PInf _ = PInf"
| "f_add _ PInf = PInf"
| "f_add NInf _ = NInf"
| "f_add _ NInf = NInf"

fun f_neg :: "float64 \<Rightarrow> float64" where
  "f_neg (Fin x) = Fin (- x)"
| "f_neg NaN = NaN"
| "f_neg PInf = NInf"
| "f_neg NInf = PInf"

definition f_sub :: "float64 \<Rightarrow> float64 \<Rightarrow> float64" where
  "f_sub x y = f_add x (f_neg y)"

definition inf_sign :: "bool \<Rightarrow> float64" where
  "inf_sign pos = (if pos then PInf else NInf)"

fun f_mul :: "float64 \<Rightarrow> float64 \<Rightarrow> float64" where
  "f_mul (Fin x) (Fin y) = fl (x * y)"
| "f_mul NaN _ = NaN"
| "f_mul _ NaN = NaN"
| "f_mul (Fin x) PInf = (if x = 0 then NaN else inf_sign (0 < x))"
| "f_mul (Fin x) NInf = (if x = 0 then NaN else inf_sign (x < 0))"
| "f_mul PInf (Fin y) = (if y = 0 then NaN else inf_sign (0 < y))"
| "f_mul NInf (Fin y) = (if y = 0 then NaN else inf_sign (y < 0))"
| "f_mul PInf PInf = PInf"
| "f_mul NInf NInf = PInf"
| "f_mul PInf NInf = NInf"
| "f_mul NInf PInf = NInf"

text \<open>Division; a zero divisor counts as positive zero.\<close>

fun f_div :: "float64 \<Rightarrow> float64 \<Rightarrow> float64" where
  "f_div (Fin x) (Fin y) = (if y = 0 then (if x = 0 then NaN else inf_sign (0 < x)) else fl (x / y))"
| "f_div NaN _ = NaN"
| "f_div _ NaN = NaN"
| "f_div (Fin x) _ = Fin 0"
| "f_div PInf (Fin y) = inf_sign (0 \<le> y)"
| "f_div NInf (Fin y) = inf_sign (y < 0)"
| "f_div _ _ = NaN"

text \<open>Comparisons are false as soon as an operand is not a number.\<close>

fun f_le :: "float64 \<Rightarrow> float64 \<Rightarrow> bool" where
  "f_le (Fin x) (Fin y) \<longleftrightarrow> x \<le> y"
| "f_le NaN _ \<longleftrightarrow> False"
| "f_le _ NaN \<longleftrightarrow> False"
| "f_le NInf _ \<longleftrightarrow> True"
| "f_le _ PInf \<longleftrightarrow> True"
| "f_le _ _ \<longleftrightarrow> False"

definition f_lt :: "float64 \<Rightarrow> float64 \<Rightarrow> bool" where
  "f_lt x y \<longleftrightarrow> f_le x y \<and> \<not> f_le y x"

text \<open>\<open>math.Min\<close>.\<close>

definition f_min :: "float64 \<Rightarrow> float64 \<Rightarrow> float64" where
  "f_min x y =
     (if x = NInf \<or> y = NInf then NInf
      else if x = NaN \<or> y = NaN then NaN
      else if f_lt x y then x else y)"

text \<open>Conversion from an int64 rounds.\<close>

definition f_of_int :: "int \<Rightarrow> float64" where
  "f_of_int n = fl (of_int n)"

text \<open>
  Conversion to an int64 truncates; for a value out of range the language leaves the result to
  the implementation, here the argument \<open>oob\<close>.
\<close>

definition rat_trunc :: "rat \<Rightarrow> int" where
  "rat_trunc x = (if 0 \<le> x then \<lfloor>x\<rfloor> else \<lceil>x\<rceil>)"

definition f_to_int :: "(float64 \<Rightarrow> i64) \<Rightarrow> float64 \<Rightarrow> i64" where
  "f_to_int oob x =
     (case x of
        Fin q \<Rightarrow> if in_i64 (rat_trunc q) then rat_trunc q else wrap64 (oob x)
      | _ \<Rightarrow> wrap64 (oob x))"

text \<open>\<open>Duration.Seconds\<close>: whole seconds and the remainder, both truncated towards zero.\<close>

definition duration_seconds :: "i64 \<Rightarrow> float64" where
  "duration_seconds d =
     (let sec = (if 0 \<le> d then d div 1000000000 else - ((- d) div 1000000000));
          nsec = d - sec * 1000000000
      in f_add (f_of_int sec) (f_div (f_of_int nsec) (Fin 1000000000)))"

section \<open>Powers of two and exponents\<close>

lemma two_pow_powi: "two_pow e = 2 powi e"
  by (simp add: two_pow_def power_int_def field_simps)

lemma two_pow_pos [simp]: "0 < two_pow e"
  by (simp add: two_pow_powi)

lemma two_pow_nonneg [simp]: "0 \<le> two_pow e" and two_pow_neq0 [simp]: "two_pow e \<noteq> 0"
  using two_pow_pos [of e] by linarith+

lemma two_pow_add: "two_pow (a + b) = two_pow a * two_pow b"
  by (simp add: two_pow_powi power_int_add)

lemma two_pow_diff: "two_pow (a - b) = two_pow a / two_pow b"
  by (simp add: two_pow_powi power_int_diff)

lemma two_pow_mono: "a \<le> b \<Longrightarrow> two_pow a \<le> two_pow b"
  by (simp add: two_pow_powi power_int_increasing)

lemma two_pow_int: "0 \<le> e \<Longrightarrow> two_pow e = of_int (2 ^ nat e)"
  by (simp add: two_pow_def)

lemma ilog2_bounds:
  assumes "0 < x"
  shows "two_pow (ilog2 x) \<le> x \<and> x < two_pow (ilog2 x + 1)"
proof (cases "1 \<le> x")
  case True
  define n where "n = nat \<lfloor>x\<rfloor>"
  have "0 < n" using True by (simp add: n_def)
  then have b: "2 ^ (floorlog 2 n - 1) \<le> n" "n < 2 ^ floorlog 2 n"
    using floorlog_bounds [of n 2] by simp_all
  have f0: "0 < floorlog 2 n" using \<open>0 < n\<close> floorlog_eq_zero_iff [of 2 n] by auto
  have nx: "of_nat n \<le> x" "x < of_nat n + 1"
    using True of_int_floor_le [of x] by (simp_all add: n_def) linarith
  have "(2 :: rat) ^ (floorlog 2 n - 1) \<le> of_nat n"
    using b(1) by (metis of_nat_le_iff of_nat_numeral of_nat_power)
  then have "(2 :: rat) ^ (floorlog 2 n - 1) \<le> x" using nx(1) by (rule order_trans)
  moreover have "(of_nat (n + 1) :: rat) \<le> of_nat (2 ^ floorlog 2 n)"
    using b(2) by (intro of_nat_mono) simp
  ultimately show ?thesis
    using True nx f0 by (simp add: ilog2_def n_def [symmetric] two_pow_def nat_diff_distrib)
next
  case False
  define y where "y = 1 / x"
  define n where "n = nat (\<lceil>y\<rceil> - 1)"
  define k where "k = floorlog 2 n"
  have y1: "1 < y" using False assms by (simp add: y_def)
  then have c2: "2 \<le> \<lceil>y\<rceil>" by linarith
  then have "0 < n" by (simp add: n_def)
  then have b: "2 ^ (k - 1) \<le> n" "n < 2 ^ k"
    using floorlog_bounds [of n 2] by (simp_all add: k_def)
  have k0: "0 < k" using \<open>0 < n\<close> floorlog_eq_zero_iff [of 2 n] by (auto simp: k_def)
  have ny: "of_nat n < y" "y \<le> of_nat n + 1" using c2 by (simp_all add: n_def) linarith+
  have "(2 :: rat) ^ (k - 1) \<le> of_nat n" using b(1) by (metis of_nat_le_iff of_nat_numeral of_nat_power)
  then have lo: "2 ^ (k - 1) < y" using ny(1) by (rule le_less_trans)
  have "(of_nat (n + 1) :: rat) \<le> of_nat (2 ^ k)" using b(2) by (intro of_nat_mono) simp
  then have hi: "y \<le> 2 ^ k" using ny by simp
  have e: "ilog2 x = - int k" using False by (simp add: ilog2_def k_def n_def y_def)
  have a: "two_pow (- int k) = 1 / 2 ^ k" using k0 by (simp add: two_pow_def)
  have c: "two_pow (- int k + 1) = 1 / 2 ^ (k - 1)"
    using k0 by (auto simp: two_pow_def nat_diff_distrib)
  have x: "x = 1 / y" by (simp add: y_def)
  have "1 / 2 ^ k \<le> 1 / y" using hi y1 by (intro divide_left_mono) simp_all
  moreover have "1 / y < 1 / 2 ^ (k - 1)" using lo y1 by (intro divide_strict_left_mono) simp_all
  ultimately show ?thesis unfolding e a c unfolding x by blast
qed

lemma ilog2_le: "0 < x \<Longrightarrow> x \<le> y \<Longrightarrow> ilog2 x \<le> ilog2 y"
proof (rule ccontr)
  assume "0 < x" "x \<le> y" "\<not> ilog2 x \<le> ilog2 y"
  then have "two_pow (ilog2 y + 1) \<le> two_pow (ilog2 x)" by (intro two_pow_mono) simp
  with ilog2_bounds [of x] ilog2_bounds [of y] \<open>0 < x\<close> \<open>x \<le> y\<close> show False by linarith
qed

section \<open>Rounding\<close>

lemma round_even_bounds: "\<lfloor>x\<rfloor> \<le> round_even x \<and> round_even x \<le> \<lfloor>x\<rfloor> + 1"
  by (simp add: round_even_def Let_def)

lemma round_even_int [simp]: "round_even (of_int n) = n"
  by (simp add: round_even_def)

lemma round_even_mono:
  assumes "x \<le> y"
  shows "round_even x \<le> round_even y"
proof (cases "\<lfloor>x\<rfloor> = \<lfloor>y\<rfloor>")
  case True
  with assms show ?thesis by (auto simp: round_even_def Let_def)
next
  case False
  then have "\<lfloor>x\<rfloor> + 1 \<le> \<lfloor>y\<rfloor>" using floor_mono [OF assms] by simp
  then show ?thesis using round_even_bounds [of x] round_even_bounds [of y] by simp
qed

lemma round_even_le_int: "x \<le> of_int n \<Longrightarrow> round_even x \<le> n"
  using round_even_mono [of x "of_int n"] by simp

lemma round_even_ge_int: "of_int n \<le> x \<Longrightarrow> n \<le> round_even x"
  using round_even_mono [of "of_int n" x] by simp

lemma round_even_neg: "round_even (- x) = - round_even x"
proof (cases "x \<in> \<int>")
  case True
  then obtain n where "x = of_int n" by (elim Ints_cases)
  then show ?thesis using round_even_int [of "- n"] by simp
next
  case False
  then have f: "\<lfloor>- x\<rfloor> = - \<lfloor>x\<rfloor> - 1"
    using ceiling_altdef [of x] Ints_of_int [of "\<lfloor>x\<rfloor>", where 'a = rat]
    by (cases "x = of_int \<lfloor>x\<rfloor>") (simp_all add: ceiling_def)
  then show ?thesis
    by (auto simp: round_even_def Let_def)
qed

lemma ulp_exp_neg [simp]: "ulp_exp (- x) = ulp_exp x"
  by (simp add: ulp_exp_def)

lemma round_rat_neg: "round_rat (- x) = - round_rat x"
  by (simp add: round_rat_def round_even_neg)

text \<open>
  Around a power of two: numbers below \<open>2^e\<close> round to at most \<open>2^e\<close>, numbers from it on to at
  least it, provided their grid contains \<open>2^e\<close>.
\<close>

lemma round_rat_le_two_pow:
  assumes "0 < x" and "x \<le> two_pow e" and "ulp_exp x \<le> e"
  shows "round_rat x \<le> two_pow e"
proof -
  have i: "two_pow (e - ulp_exp x) = of_int (2 ^ nat (e - ulp_exp x))"
    using assms(3) by (simp add: two_pow_int)
  have "x / two_pow (ulp_exp x) \<le> of_int (2 ^ nat (e - ulp_exp x))"
    using assms(2) by (simp only: i [symmetric] two_pow_diff divide_right_mono two_pow_nonneg)
  then have "round_even (x / two_pow (ulp_exp x)) \<le> 2 ^ nat (e - ulp_exp x)"
    by (rule round_even_le_int)
  then have "of_int (round_even (x / two_pow (ulp_exp x))) \<le> two_pow (e - ulp_exp x)"
    unfolding i by (simp only: of_int_le_iff)
  then show ?thesis
    using assms(1) by (simp add: round_rat_def two_pow_diff pos_le_divide_eq)
qed

lemma round_rat_ge_two_pow:
  assumes "0 < x" and "two_pow e \<le> x" and "ulp_exp x \<le> e"
  shows "two_pow e \<le> round_rat x"
proof -
  have i: "two_pow (e - ulp_exp x) = of_int (2 ^ nat (e - ulp_exp x))"
    using assms(3) by (simp add: two_pow_int)
  have "of_int (2 ^ nat (e - ulp_exp x)) \<le> x / two_pow (ulp_exp x)"
    using assms(2) by (simp only: i [symmetric] two_pow_diff divide_right_mono two_pow_nonneg)
  then have "2 ^ nat (e - ulp_exp x) \<le> round_even (x / two_pow (ulp_exp x))"
    by (rule round_even_ge_int)
  then have "two_pow (e - ulp_exp x) \<le> of_int (round_even (x / two_pow (ulp_exp x)))"
    unfolding i by (simp only: of_int_le_iff)
  then show ?thesis
    using assms(1) by (simp add: round_rat_def two_pow_diff pos_divide_le_eq)
qed

lemma round_rat_nonneg: "0 \<le> x \<Longrightarrow> 0 \<le> round_rat x"
  using round_even_ge_int [of 0 "x / two_pow (ulp_exp x)"] by (simp add: round_rat_def)

lemma round_rat_mono_pos:
  assumes "0 < x" and "x \<le> y"
  shows "round_rat x \<le> round_rat y"
proof (cases "ulp_exp x = ulp_exp y")
  case True
  have "x / two_pow (ulp_exp y) \<le> y / two_pow (ulp_exp y)"
    using assms(2) by (intro divide_right_mono) simp_all
  then have "round_even (x / two_pow (ulp_exp y)) \<le> round_even (y / two_pow (ulp_exp y))"
    by (rule round_even_mono)
  then show ?thesis
    using assms True by (simp add: round_rat_def)
next
  case False
  have y: "0 < y" using assms by simp
  have le: "ilog2 x \<le> ilog2 y" using assms by (rule ilog2_le)
  define b where "b = max (ilog2 x + 1) (- 1074)"
  have b: "b \<le> ilog2 y" "ulp_exp x \<le> b" "ulp_exp y \<le> ilog2 y"
    using False le assms y by (auto simp: ulp_exp_def b_def)
  have "x \<le> two_pow b"
    using ilog2_bounds [OF assms(1)] two_pow_mono [of "ilog2 x + 1" b] by (simp add: b_def)
  then have "round_rat x \<le> two_pow b" using assms(1) b(2) by (intro round_rat_le_two_pow)
  also have "\<dots> \<le> two_pow (ilog2 y)" using b(1) by (rule two_pow_mono)
  also have "\<dots> \<le> round_rat y"
    using ilog2_bounds [OF y] y b(3) by (intro round_rat_ge_two_pow) simp_all
  finally show ?thesis .
qed

lemma round_rat_mono:
  assumes "x \<le> y"
  shows "round_rat x \<le> round_rat y"
proof -
  consider "0 < x" | "x \<le> 0" "0 \<le> y" | "y < 0" by linarith
  then show ?thesis
  proof cases
    case 1
    then show ?thesis using assms by (rule round_rat_mono_pos)
  next
    case 2
    have "0 \<le> round_rat (- x)" and "0 \<le> round_rat y" using 2 by (intro round_rat_nonneg; simp)+
    then show ?thesis by (simp add: round_rat_neg)
  next
    case 3
    then have "round_rat (- y) \<le> round_rat (- x)" using assms by (intro round_rat_mono_pos) simp_all
    then show ?thesis by (simp add: round_rat_neg)
  qed
qed

text \<open>The values \<open>n \<cdot> 2^e\<close> with a significand of at most 53 bits are exact.\<close>

lemma ilog2_eqI: "two_pow e \<le> x \<Longrightarrow> x < two_pow (e + 1) \<Longrightarrow> ilog2 x = e"
proof -
  assume *: "two_pow e \<le> x" "x < two_pow (e + 1)"
  then have x: "0 < x" using two_pow_pos less_le_trans by blast
  note b = ilog2_bounds [OF x]
  have "\<not> ilog2 x < e" using b * two_pow_mono [of "ilog2 x + 1" e] by linarith
  moreover have "\<not> e < ilog2 x" using b * two_pow_mono [of "e + 1" "ilog2 x"] by linarith
  ultimately show ?thesis by simp
qed

lemma round_rat_fixed: "v / two_pow (ulp_exp v) = of_int k \<Longrightarrow> round_rat v = v"
  by (simp add: round_rat_def) (metis nonzero_divide_eq_eq two_pow_neq0)

lemma two_pow_53: "two_pow (e + 53) = of_int (2 ^ 53) * two_pow e"
proof -
  have "two_pow 53 = of_int (2 ^ 53)" by (simp add: two_pow_def)
  then show ?thesis by (simp only: two_pow_add mult.commute)
qed

lemma round_rat_grid:
  assumes "\<bar>n\<bar> \<le> 2 ^ 53" and "- 1074 \<le> e"
  shows "round_rat (of_int n * two_pow e) = of_int n * two_pow e"
proof -
  define v where "v = (of_int n * two_pow e :: rat)"
  have absv: "\<bar>v\<bar> = of_int \<bar>n\<bar> * two_pow e" by (simp add: v_def abs_mult)
  have "round_rat v = v" if "v \<noteq> 0" "ulp_exp v \<le> e"
  proof (rule round_rat_fixed)
    have "v / two_pow (ulp_exp v) = of_int n * two_pow (e - ulp_exp v)"
      by (simp add: v_def two_pow_diff)
    then show "v / two_pow (ulp_exp v) = of_int (n * 2 ^ nat (e - ulp_exp v))"
      using that(2) by (simp add: two_pow_int)
  qed
  moreover have "round_rat v = v" if v0: "v \<noteq> 0" and big: "\<not> ulp_exp v \<le> e"
  proof (rule round_rat_fixed)
    have "e + 53 \<le> ilog2 \<bar>v\<bar>" using big assms(2) by (simp add: ulp_exp_def)
    then have "two_pow (e + 53) \<le> \<bar>v\<bar>"
      using ilog2_bounds [of "\<bar>v\<bar>"] v0 two_pow_mono [of "e + 53" "ilog2 \<bar>v\<bar>"] by fastforce
    moreover note p53 = two_pow_53 [of e]
    ultimately have "(of_int (2 ^ 53) :: rat) \<le> of_int \<bar>n\<bar>"
      by (simp only: absv mult_le_cancel_right_pos two_pow_pos)
    then have n53: "\<bar>n\<bar> = 2 ^ 53" using assms(1) by (simp only: of_int_le_iff)
    then have "\<bar>v\<bar> = two_pow (e + 53)" by (simp only: absv p53)
    moreover have "two_pow (e + 53) < two_pow (e + 53 + 1)" by (simp add: two_pow_powi power_int_strict_increasing)
    ultimately have "ilog2 \<bar>v\<bar> = e + 53" by (intro ilog2_eqI) simp_all
    then have u: "ulp_exp v = e + 1" using assms(2) by (simp add: ulp_exp_def)
    have "n = sgn n * 2 ^ 53" using n53 by (metis mult.commute mult_sgn_abs)
    then have "v / two_pow (e + 1) = of_int (sgn n * 2 ^ 53) / 2"
      by (metis (no_types, lifting) mult_divide_mult_cancel_right two_pow_add two_pow_neq0 v_def
          mult.commute two_pow_def one_le_numeral power_one_right nat_one_as_int zero_le_one nat_1)
    then show "v / two_pow (ulp_exp v) = of_int (sgn n * 2 ^ 52)" by (simp add: u)
  qed
  moreover have "round_rat 0 = 0" by (simp add: round_rat_def)
  ultimately show ?thesis unfolding v_def by metis
qed

lemma round_rat_int: "\<bar>n\<bar> \<le> 2 ^ 53 \<Longrightarrow> round_rat (of_int n) = of_int n"
  using round_rat_grid [of n 0] by (simp add: two_pow_def)

lemma round_rat_idem: "round_rat (round_rat x) = round_rat x"
proof (cases "x = 0")
  case False
  define u where "u = ulp_exp x"
  have x: "\<bar>x\<bar> < two_pow (u + 53)"
    using ilog2_bounds [of "\<bar>x\<bar>"] False two_pow_mono [of "ilog2 \<bar>x\<bar> + 1" "u + 53"]
    by (force simp: u_def ulp_exp_def)
  with two_pow_53 [of u] have "\<bar>x / two_pow u\<bar> \<le> of_int (2 ^ 53)"
    by (simp add: abs_divide pos_divide_le_eq)
  then have "x / two_pow u \<le> of_int (2 ^ 53)" and "of_int (- (2 ^ 53)) \<le> x / two_pow u"
    by (simp_all only: abs_le_iff of_int_minus) linarith+
  then have "\<bar>round_even (x / two_pow u)\<bar> \<le> 2 ^ 53"
    using round_even_le_int round_even_ge_int by (simp only: abs_le_iff) (metis minus_le_iff)
  then show ?thesis
    using round_rat_grid [of "round_even (x / two_pow u)" u] False
    by (simp add: round_rat_def [of x] u_def ulp_exp_def)
qed (simp add: round_rat_def)

section \<open>The interface of rounding\<close>

locale rounding =
  fixes rnd :: "rat \<Rightarrow> rat"
  assumes mono: "x \<le> y \<Longrightarrow> rnd x \<le> rnd y"
    and idem: "rnd (rnd x) = rnd x"
    and exact_int: "\<bar>n\<bar> \<le> 2 ^ 53 \<Longrightarrow> rnd (of_int n) = of_int n"
begin

lemma zero: "rnd 0 = 0" and one: "rnd 1 = 1"
  using exact_int [of 0] exact_int [of 1] by simp_all

lemma nonneg: "0 \<le> x \<Longrightarrow> 0 \<le> rnd x"
  using mono [of 0 x] zero by simp

lemma ge_one: "1 \<le> x \<Longrightarrow> 1 \<le> rnd x"
  using mono [of 1 x] one by simp

lemma le_fixed: "x \<le> y \<Longrightarrow> rnd y = y \<Longrightarrow> rnd x \<le> y"
  using mono [of x y] by simp

lemma ge_fixed: "y \<le> x \<Longrightarrow> rnd y = y \<Longrightarrow> y \<le> rnd x"
  using mono [of y x] by simp

text \<open>Taking one unit from a representable amount of at least one.\<close>

lemma take_one: "rnd t = t \<Longrightarrow> 1 \<le> t \<Longrightarrow> 0 \<le> rnd (t - 1) \<and> rnd (t - 1) \<le> t"
  using nonneg [of "t - 1"] le_fixed [of "t - 1" t] by simp

end

interpretation dbl: rounding round_rat
  by unfold_locales (auto intro: round_rat_mono round_rat_idem round_rat_int)

text \<open>A float64 value is one that rounding leaves alone.\<close>

definition f_ok :: "float64 \<Rightarrow> bool" where
  "f_ok x \<longleftrightarrow> (case x of Fin q \<Rightarrow> round_rat q = q \<and> \<bar>q\<bar> < 2 ^ 1024 | _ \<Rightarrow> True)"

lemma fl_ok: "f_ok (fl x)"
  by (simp add: f_ok_def fl_def Let_def dbl.idem abs_less_iff not_le minus_less_iff)

lemma fl_le_rat: "x \<le> q \<Longrightarrow> f_ok (Fin q) \<Longrightarrow> f_le (fl x) (Fin q)"
  using dbl.le_fixed [of x q] by (auto simp: fl_def Let_def f_ok_def)

lemma fl_ge_rat: "q \<le> x \<Longrightarrow> f_ok (Fin q) \<Longrightarrow> f_le (Fin q) (fl x)"
  using dbl.ge_fixed [of q x] by (auto simp: fl_def Let_def f_ok_def)

lemma fl_Fin: "f_ok (Fin q) \<Longrightarrow> fl q = Fin q"
  by (auto simp: fl_def f_ok_def Let_def)

lemma f_of_int_exact: "\<bar>n\<bar> \<le> 2 ^ 53 \<Longrightarrow> f_of_int n = Fin (of_int n)"
proof -
  assume n: "\<bar>n\<bar> \<le> 2 ^ 53"
  then have "\<bar>of_int n :: rat\<bar> \<le> of_int (2 ^ 53)" by (simp only: of_int_abs [symmetric] of_int_le_iff)
  then have "\<bar>of_int n :: rat\<bar> < 2 ^ 1024" by simp
  then show ?thesis
    unfolding f_of_int_def using dbl.exact_int [OF n] by (intro fl_Fin) (simp only: f_ok_def float64.case)
qed

end
