(* ===== verification/Config.thy ===== *)
theory Config
  imports Go_Strings Go_Float
begin

text \<open>
  \<^verbatim>\<open>config/config.go\<close>: the configuration records, their defaults, and the manager that loads, overrides,
  updates and hot-reloads them.

  The environment is a function (\<open>os.Getenv\<close>, empty for an unset variable). The file system and
  the YAML decoder are arguments: \<open>decode\<close> maps a file's bytes to the configuration it decodes
  to, or \<open>None\<close>. Listeners are called in goroutines of their own; the model records which
  listener was started with which configuration. The watcher is the sequence of events it
  receives.

  Shown: environment variables override whatever was loaded, on start and after every reload;
  which jitter settings \<open>SetJitter\<close> can leave behind; that reloads are at least 300 ms apart and,
  for the same reason, that a change written within 300 ms of a reload is not loaded.
\<close>

section \<open>Definitions\<close>

record ServerConfig =
  Port :: i64
  AdminPort :: i64
  ReadTimeoutMs :: i64
  WriteTimeoutMs :: i64

record JitterConfig =
  jit_Enabled :: bool
  Percentage :: i64
  MinDelayMs :: i64
  MaxDelayMs :: i64

record UpstreamConfig =
  TargetURL :: string
  TimeoutMs :: i64
  Jitter :: JitterConfig

record TierConfig =
  SoftLimit :: i64
  HardLimit :: i64
  WindowSeconds :: i64
  ReplayWindowSeconds :: i64

record MonetizationConfig =
  CostPerCredit :: float64
  Currency :: string

record CircuitBreakerConfig =
  MaxConsecutiveFailures :: i64
  FailureLatencyMs :: i64
  CooldownSeconds :: i64

record CacheConfig =
  TTLSeconds :: i64
  CleanupIntervalSeconds :: i64
  CircuitBreakerCfg :: CircuitBreakerConfig

record RedisConfig =
  Addr :: string
  redis_Password :: string
  DB :: i64
  StreamEvents :: string
  StreamDLQ :: string

record PostgresConfig =
  Host :: string
  pg_Port :: i64
  User :: string
  pg_Password :: string
  DBName :: string
  SSLMode :: string

definition DSN :: "(string \<Rightarrow> string) \<Rightarrow> PostgresConfig \<Rightarrow> string" where
  "DSN env p =
     (if env ''DATABASE_URL'' \<noteq> [] then env ''DATABASE_URL''
      else ''postgres://'' @ User p @ '':'' @ pg_Password p @ ''@'' @ Host p @ '':'' @ show_int (pg_Port p)
             @ ''/'' @ DBName p @ ''?sslmode='' @ SSLMode p)"

record SecurityConfig =
  MasterKey :: string
  HeaderAPIKey :: string
  HeaderSignature :: string

record SinkDetail =
  sink_Enabled :: bool
  Endpoint :: string

record WebhooksConfig =
  WorkerConcurrency :: i64
  MaxRetries :: i64
  RetryBaseDelayMs :: i64
  Sinks :: "(string, SinkDetail) gomap"

record Config =
  Server :: ServerConfig
  Upstream :: UpstreamConfig
  Tiers :: "(string, TierConfig) gomap"
  Monetization :: MonetizationConfig
  CacheCfg :: CacheConfig
  RedisCfg :: RedisConfig
  Postgres :: PostgresConfig
  Security :: SecurityConfig
  Webhooks :: WebhooksConfig

definition defaultConfig :: Config where
  "defaultConfig =
     \<lparr>Server = \<lparr>Port = 8080, AdminPort = 8082, ReadTimeoutMs = 5000, WriteTimeoutMs = 10000\<rparr>,
      Upstream = \<lparr>TargetURL = ''http://upstream:8081'', TimeoutMs = 1500,
        Jitter = \<lparr>jit_Enabled = False, Percentage = 30, MinDelayMs = 200, MaxDelayMs = 500\<rparr>\<rparr>,
      Tiers =
        [(''free'', \<lparr>SoftLimit = 20, HardLimit = 25, WindowSeconds = 60, ReplayWindowSeconds = 60\<rparr>),
         (''pro'', \<lparr>SoftLimit = 100, HardLimit = 140, WindowSeconds = 60, ReplayWindowSeconds = 300\<rparr>),
         (''enterprise'', \<lparr>SoftLimit = 1000, HardLimit = 1300, WindowSeconds = 60, ReplayWindowSeconds = 600\<rparr>)],
      Monetization = \<lparr>CostPerCredit = fl (5 / 1000), Currency = ''USD''\<rparr>,
      CacheCfg = \<lparr>TTLSeconds = 300, CleanupIntervalSeconds = 60,
        CircuitBreakerCfg = \<lparr>MaxConsecutiveFailures = 3, FailureLatencyMs = 1000, CooldownSeconds = 10\<rparr>\<rparr>,
      RedisCfg = \<lparr>Addr = ''redis:6379'', redis_Password = [], DB = 0,
        StreamEvents = ''stream:gateway:events'', StreamDLQ = ''stream:gateway:dlq''\<rparr>,
      Postgres = \<lparr>Host = ''postgres'', pg_Port = 5432, User = ''aegis'',
        pg_Password = ''aegis_secure_password'', DBName = ''aegispulse'', SSLMode = ''disable''\<rparr>,
      Security =
        \<lparr>MasterKey = ''0123456789abcdef0123456789abcdef0123456789abcdef0123456789abcdef'',
         HeaderAPIKey = ''X-API-Key'', HeaderSignature = ''X-Aegis-Signature''\<rparr>,
      Webhooks = \<lparr>WorkerConcurrency = 4, MaxRetries = 3, RetryBaseDelayMs = 1000,
        Sinks =
          [(''generic'', \<lparr>sink_Enabled = True, Endpoint = ''http://webhook-receiver:8083/webhook/generic''\<rparr>),
           (''discord'', \<lparr>sink_Enabled = True, Endpoint = ''http://webhook-receiver:8083/webhook/discord''\<rparr>),
           (''slack'', \<lparr>sink_Enabled = True, Endpoint = ''http://webhook-receiver:8083/webhook/slack''\<rparr>)]\<rparr>\<rparr>"

definition cloneConfig :: "Config \<Rightarrow> Config" where
  "cloneConfig src =
     src\<lparr>Tiers := gm_copy (Tiers src) [],
         Webhooks := (Webhooks src)\<lparr>Sinks := gm_copy (Sinks (Webhooks src)) []\<rparr>\<rparr>"

subsection \<open>ConfigManager\<close>

text \<open>\<open>spawned\<close> lists the listener calls started so far.\<close>

record 'l ConfigManager =
  filePath :: string
  cfg :: Config
  listeners :: "'l list"
  spawned :: "('l \<times> Config) list"

definition env_string :: "string \<Rightarrow> (string \<Rightarrow> 'c \<Rightarrow> 'c) \<Rightarrow> 'c \<Rightarrow> 'c" where
  "env_string val upd c = (if val \<noteq> [] then upd val c else c)"

definition env_port :: "string \<Rightarrow> Config \<Rightarrow> Config" where
  "env_port val c =
     (if val \<noteq> [] then
        (case parse_int64 val of
           (p, None) \<Rightarrow> c\<lparr>Server := (Server c)\<lparr>Port := p\<rparr>\<rparr>
         | (_, Some _) \<Rightarrow> c)
      else c)"

text \<open>The overrides in the order of the source, as a function on the configuration.\<close>

definition env_overrides :: "(string \<Rightarrow> string) \<Rightarrow> Config \<Rightarrow> Config" where
  "env_overrides env c =
     (let c = env_port (env ''PORT'') c;
          c = env_string (env ''UPSTREAM_URL'') (\<lambda>v c. c\<lparr>Upstream := (Upstream c)\<lparr>TargetURL := v\<rparr>\<rparr>) c;
          c = env_string (env ''REDIS_ADDR'') (\<lambda>v c. c\<lparr>RedisCfg := (RedisCfg c)\<lparr>Addr := v\<rparr>\<rparr>) c;
          c = env_string (env ''AEGIS_MASTER_KEY'') (\<lambda>v c. c\<lparr>Security := (Security c)\<lparr>MasterKey := v\<rparr>\<rparr>) c;
          c = env_string (env ''POSTGRES_HOST'') (\<lambda>v c. c\<lparr>Postgres := (Postgres c)\<lparr>Host := v\<rparr>\<rparr>) c;
          c = env_string (env ''POSTGRES_USER'') (\<lambda>v c. c\<lparr>Postgres := (Postgres c)\<lparr>User := v\<rparr>\<rparr>) c;
          c = env_string (env ''POSTGRES_PASSWORD'') (\<lambda>v c. c\<lparr>Postgres := (Postgres c)\<lparr>pg_Password := v\<rparr>\<rparr>) c
      in env_string (env ''POSTGRES_DB'') (\<lambda>v c. c\<lparr>Postgres := (Postgres c)\<lparr>DBName := v\<rparr>\<rparr>) c)"

definition applyEnvOverridesLocked :: "(string \<Rightarrow> string) \<Rightarrow> 'l ConfigManager \<Rightarrow> 'l ConfigManager" where
  "applyEnvOverridesLocked env cm = cm\<lparr>cfg := env_overrides env (cfg cm)\<rparr>"

definition applyEnvOverrides :: "(string \<Rightarrow> string) \<Rightarrow> 'l ConfigManager \<Rightarrow> 'l ConfigManager" where
  "applyEnvOverrides env cm = applyEnvOverridesLocked env cm"

definition notifyListeners :: "Config \<Rightarrow> 'l ConfigManager \<Rightarrow> 'l ConfigManager" where
  "notifyListeners c cm = cm\<lparr>spawned := spawned cm @ map (\<lambda>fn. (fn, c)) (listeners cm)\<rparr>"

datatype load_error = ReadError | YamlError

text \<open>\<open>file\<close> is what reading the path returns.\<close>

definition loadFromFile ::
  "(string \<Rightarrow> string) \<Rightarrow> (bytes \<Rightarrow> Config option) \<Rightarrow> bytes option \<Rightarrow> 'l ConfigManager
     \<Rightarrow> load_error option \<times> 'l ConfigManager" where
  "loadFromFile env decode file cm =
     (case file of
        None \<Rightarrow> (Some ReadError, cm)
      | Some data \<Rightarrow>
          (case decode data of
             None \<Rightarrow> (Some YamlError, cm)
           | Some parsed \<Rightarrow>
               (let cm = applyEnvOverridesLocked env (cm\<lparr>cfg := parsed\<rparr>);
                    current = cloneConfig (cfg cm)
                in (None, notifyListeners current cm))))"

definition NewConfigManager ::
  "(string \<Rightarrow> string) \<Rightarrow> (bytes \<Rightarrow> Config option) \<Rightarrow> bytes option \<Rightarrow> string \<Rightarrow> 'l ConfigManager" where
  "NewConfigManager env decode file path =
     (let cm = \<lparr>filePath = path, cfg = cloneConfig defaultConfig, listeners = [], spawned = []\<rparr>;
          cm = (if path \<noteq> [] then snd (loadFromFile env decode file cm) else cm)
      in applyEnvOverrides env cm)"

definition cm_Get :: "'l ConfigManager \<Rightarrow> Config" where
  "cm_Get cm = cloneConfig (cfg cm)"

definition cm_Update :: "Config \<Rightarrow> 'l ConfigManager \<Rightarrow> 'l ConfigManager" where
  "cm_Update c cm =
     (let cm = cm\<lparr>cfg := cloneConfig c\<rparr>;
          current = cloneConfig (cfg cm)
      in notifyListeners current cm)"

text \<open>\<open>ulow\<close> is \<open>strings.ToLower\<close> on names that are not ASCII.\<close>

definition GetTier :: "(string \<Rightarrow> string) \<Rightarrow> 'l ConfigManager \<Rightarrow> string \<Rightarrow> TierConfig option" where
  "GetTier ulow cm tierName = map_of (Tiers (cfg cm)) (to_lower ulow tierName)"

definition jitter_update :: "bool \<Rightarrow> i64 \<Rightarrow> i64 \<Rightarrow> i64 \<Rightarrow> JitterConfig \<Rightarrow> JitterConfig" where
  "jitter_update enabled percentage minMs maxMs j =
     (let j = j\<lparr>jit_Enabled := enabled\<rparr>;
          j = (if percentage \<ge> 0 \<and> percentage \<le> 100 then j\<lparr>Percentage := percentage\<rparr> else j);
          j = (if minMs > 0 then j\<lparr>MinDelayMs := minMs\<rparr> else j)
      in if maxMs \<ge> minMs then j\<lparr>MaxDelayMs := maxMs\<rparr> else j)"

definition SetJitter :: "bool \<Rightarrow> i64 \<Rightarrow> i64 \<Rightarrow> i64 \<Rightarrow> 'l ConfigManager \<Rightarrow> 'l ConfigManager" where
  "SetJitter enabled percentage minMs maxMs cm =
     (let up = Upstream (cfg cm);
          cm = cm\<lparr>cfg := (cfg cm)\<lparr>Upstream := up\<lparr>Jitter := jitter_update enabled percentage minMs maxMs (Jitter up)\<rparr>\<rparr>\<rparr>;
          current = cloneConfig (cfg cm)
      in notifyListeners current cm)"

definition OnChange :: "'l \<Rightarrow> 'l ConfigManager \<Rightarrow> 'l ConfigManager" where
  "OnChange fn cm = cm\<lparr>listeners := listeners cm @ [fn]\<rparr>"

subsection \<open>Watch\<close>

datatype watch_error = NewWatcherError | AddWatchError

text \<open>
  \<open>Watch\<close> itself: it fails when the watcher cannot be made or the path not watched, and starts
  the loop otherwise (\<open>Inr True\<close>); with no path there is nothing to watch.
\<close>

definition Watch :: "bool \<Rightarrow> (string \<Rightarrow> bool) \<Rightarrow> 'l ConfigManager \<Rightarrow> watch_error + bool" where
  "Watch newWatcherOk addOk cm =
     (if filePath cm = [] then Inr False
      else if \<not> newWatcherOk then Inl NewWatcherError
      else if \<not> addOk (filePath cm) then Inl AddWatchError
      else Inr True)"

text \<open>
  What the loop's select receives. A file event carries its operations, the clock at which it is
  handled and the file's content at that moment.
\<close>

datatype fs_op = FsWrite | FsCreate | FsRename | FsRemove | FsChmod

datatype watch_event =
    CtxDone
  | FileEvent "fs_op list" gotime "bytes option"
  | EventsClosed
  | WatcherError
  | ErrorsClosed

record 'l watch_state =
  watched :: "'l ConfigManager"
  lastReload :: gotime
  running :: bool

text \<open>Go's zero time, midnight of the first of January of year 1.\<close>

definition zero_time :: gotime where
  "zero_time = - 62135596800000000000"

definition watch_start :: "'l ConfigManager \<Rightarrow> 'l watch_state" where
  "watch_start cm = \<lparr>watched = cm, lastReload = zero_time, running = True\<rparr>"

definition watch_iter ::
  "(string \<Rightarrow> string) \<Rightarrow> (bytes \<Rightarrow> Config option) \<Rightarrow> 'l watch_state \<Rightarrow> watch_event \<Rightarrow> 'l watch_state" where
  "watch_iter env decode w ev =
     (if \<not> running w then w
      else (case ev of
              CtxDone \<Rightarrow> w\<lparr>running := False\<rparr>
            | EventsClosed \<Rightarrow> w\<lparr>running := False\<rparr>
            | ErrorsClosed \<Rightarrow> w\<lparr>running := False\<rparr>
            | WatcherError \<Rightarrow> w
            | FileEvent ops now file \<Rightarrow>
                if FsWrite \<in> set ops \<or> FsCreate \<in> set ops \<or> FsRename \<in> set ops then
                  if time_sub now (lastReload w) > 300 * millisecond then
                    w\<lparr>lastReload := now, watched := snd (loadFromFile env decode file (watched w))\<rparr>
                  else w
                else w))"

text \<open>The loop, and the times of the reloads it made.\<close>

fun watch_loop ::
  "(string \<Rightarrow> string) \<Rightarrow> (bytes \<Rightarrow> Config option) \<Rightarrow> 'l watch_state \<Rightarrow> watch_event list \<Rightarrow> 'l watch_state" where
  "watch_loop env decode w [] = w"
| "watch_loop env decode w (ev # evs) = watch_loop env decode (watch_iter env decode w ev) evs"

fun reload_times ::
  "(string \<Rightarrow> string) \<Rightarrow> (bytes \<Rightarrow> Config option) \<Rightarrow> 'l watch_state \<Rightarrow> watch_event list \<Rightarrow> gotime list" where
  "reload_times env decode w [] = []"
| "reload_times env decode w (ev # evs) =
     (let w' = watch_iter env decode w ev
      in (case ev of
            FileEvent ops now file \<Rightarrow>
              if running w \<and> (FsWrite \<in> set ops \<or> FsCreate \<in> set ops \<or> FsRename \<in> set ops) \<and>
                 time_sub now (lastReload w) > 300 * millisecond then [now] else []
          | _ \<Rightarrow> []) @ reload_times env decode w' evs)"

section \<open>Environment overrides\<close>

text \<open>A configuration that agrees with every variable that is set.\<close>

definition env_respected :: "(string \<Rightarrow> string) \<Rightarrow> Config \<Rightarrow> bool" where
  "env_respected env c \<longleftrightarrow>
     (env ''PORT'' \<noteq> [] \<longrightarrow> snd (parse_int64 (env ''PORT'')) = None \<longrightarrow>
        Port (Server c) = fst (parse_int64 (env ''PORT''))) \<and>
     (env ''UPSTREAM_URL'' \<noteq> [] \<longrightarrow> TargetURL (Upstream c) = env ''UPSTREAM_URL'') \<and>
     (env ''REDIS_ADDR'' \<noteq> [] \<longrightarrow> Addr (RedisCfg c) = env ''REDIS_ADDR'') \<and>
     (env ''AEGIS_MASTER_KEY'' \<noteq> [] \<longrightarrow> MasterKey (Security c) = env ''AEGIS_MASTER_KEY'') \<and>
     (env ''POSTGRES_HOST'' \<noteq> [] \<longrightarrow> Host (Postgres c) = env ''POSTGRES_HOST'') \<and>
     (env ''POSTGRES_USER'' \<noteq> [] \<longrightarrow> User (Postgres c) = env ''POSTGRES_USER'') \<and>
     (env ''POSTGRES_PASSWORD'' \<noteq> [] \<longrightarrow> pg_Password (Postgres c) = env ''POSTGRES_PASSWORD'') \<and>
     (env ''POSTGRES_DB'' \<noteq> [] \<longrightarrow> DBName (Postgres c) = env ''POSTGRES_DB'')"

lemma env_string_sel: "f (env_string v upd c) = (if v \<noteq> [] then f (upd v c) else f c)"
  by (simp add: env_string_def)

lemmas env_sections = env_string_sel [where f = Server] env_string_sel [where f = Upstream]
  env_string_sel [where f = RedisCfg] env_string_sel [where f = Security] env_string_sel [where f = Postgres]

lemma env_port_sections:
  "Upstream (env_port v c) = Upstream c" "RedisCfg (env_port v c) = RedisCfg c"
  "Security (env_port v c) = Security c" "Postgres (env_port v c) = Postgres c"
  "v \<noteq> [] \<Longrightarrow> snd (parse_int64 v) = None \<Longrightarrow> Port (Server (env_port v c)) = fst (parse_int64 v)"
  by (auto simp: env_port_def split: prod.split option.split)

lemma env_overrides_respected: "env_respected env (env_overrides env c)"
  unfolding env_respected_def env_overrides_def Let_def by (simp add: env_sections env_port_sections)

text \<open>Writing a value that is already there changes nothing.\<close>

lemma upd_same:
  "c\<lparr>Server := (Server c)\<lparr>Port := Port (Server c)\<rparr>\<rparr> = c"
  "c\<lparr>Upstream := (Upstream c)\<lparr>TargetURL := TargetURL (Upstream c)\<rparr>\<rparr> = c"
  "c\<lparr>RedisCfg := (RedisCfg c)\<lparr>Addr := Addr (RedisCfg c)\<rparr>\<rparr> = c"
  "c\<lparr>Security := (Security c)\<lparr>MasterKey := MasterKey (Security c)\<rparr>\<rparr> = c"
  "c\<lparr>Postgres := (Postgres c)\<lparr>Host := Host (Postgres c)\<rparr>\<rparr> = c"
  "c\<lparr>Postgres := (Postgres c)\<lparr>User := User (Postgres c)\<rparr>\<rparr> = c"
  "c\<lparr>Postgres := (Postgres c)\<lparr>pg_Password := pg_Password (Postgres c)\<rparr>\<rparr> = c"
  "c\<lparr>Postgres := (Postgres c)\<lparr>DBName := DBName (Postgres c)\<rparr>\<rparr> = c"
  by simp_all

lemma env_string_same: "(val \<noteq> [] \<Longrightarrow> upd val c = c) \<Longrightarrow> env_string val upd c = c"
  by (simp add: env_string_def)

lemma env_overrides_id:
  assumes "env_respected env c"
  shows "env_overrides env c = c"
proof -
  have "env_port (env ''PORT'') c = c"
    using assms upd_same(1) [of c] by (auto simp: env_port_def env_respected_def split: prod.split option.split)
  moreover have "env_string (env ''UPSTREAM_URL'') (\<lambda>v c. c\<lparr>Upstream := (Upstream c)\<lparr>TargetURL := v\<rparr>\<rparr>) c = c"
    using assms upd_same(2) [of c] by (intro env_string_same) (simp add: env_respected_def)
  moreover have "env_string (env ''REDIS_ADDR'') (\<lambda>v c. c\<lparr>RedisCfg := (RedisCfg c)\<lparr>Addr := v\<rparr>\<rparr>) c = c"
    using assms upd_same(3) [of c] by (intro env_string_same) (simp add: env_respected_def)
  moreover have "env_string (env ''AEGIS_MASTER_KEY'') (\<lambda>v c. c\<lparr>Security := (Security c)\<lparr>MasterKey := v\<rparr>\<rparr>) c = c"
    using assms upd_same(4) [of c] by (intro env_string_same) (simp add: env_respected_def)
  moreover have "env_string (env ''POSTGRES_HOST'') (\<lambda>v c. c\<lparr>Postgres := (Postgres c)\<lparr>Host := v\<rparr>\<rparr>) c = c"
    using assms upd_same(5) [of c] by (intro env_string_same) (simp add: env_respected_def)
  moreover have "env_string (env ''POSTGRES_USER'') (\<lambda>v c. c\<lparr>Postgres := (Postgres c)\<lparr>User := v\<rparr>\<rparr>) c = c"
    using assms upd_same(6) [of c] by (intro env_string_same) (simp add: env_respected_def)
  moreover have "env_string (env ''POSTGRES_PASSWORD'') (\<lambda>v c. c\<lparr>Postgres := (Postgres c)\<lparr>pg_Password := v\<rparr>\<rparr>) c = c"
    using assms upd_same(7) [of c] by (intro env_string_same) (simp add: env_respected_def)
  moreover have "env_string (env ''POSTGRES_DB'') (\<lambda>v c. c\<lparr>Postgres := (Postgres c)\<lparr>DBName := v\<rparr>\<rparr>) c = c"
    using assms upd_same(8) [of c] by (intro env_string_same) (simp add: env_respected_def)
  ultimately show ?thesis by (simp only: env_overrides_def Let_def)
qed

lemma loadFromFile_cfg:
  "cfg (snd (loadFromFile env decode file cm)) =
     (case Option.bind file decode of None \<Rightarrow> cfg cm | Some parsed \<Rightarrow> env_overrides env parsed)"
  by (simp add: loadFromFile_def applyEnvOverridesLocked_def notifyListeners_def Let_def split: option.split)

lemma watch_iter_respected:
  "env_respected env (cfg (watched w)) \<Longrightarrow> env_respected env (cfg (watched (watch_iter env decode w ev)))"
  by (simp add: watch_iter_def loadFromFile_cfg env_overrides_respected split: watch_event.split option.split)

lemma watch_loop_respected:
  "env_respected env (cfg (watched w)) \<Longrightarrow> env_respected env (cfg (watched (watch_loop env decode w evs)))"
  by (induction env decode w evs rule: watch_loop.induct) (simp_all add: watch_iter_respected)

section \<open>Jitter and reload times\<close>

definition jitter_ok :: "JitterConfig \<Rightarrow> bool" where
  "jitter_ok j \<longleftrightarrow> 0 \<le> Percentage j \<and> Percentage j \<le> 100 \<and> 0 < MinDelayMs j \<and> MinDelayMs j \<le> MaxDelayMs j"

lemma time_sub_gt: "time_sub a b > 300 * millisecond \<Longrightarrow> a > b + 300 * millisecond"
  by (simp add: time_sub_def sat64_def millisecond_def split: if_splits)

lemma watch_iter_last:
  "lastReload (watch_iter env decode w ev) = lastReload w \<or>
   lastReload (watch_iter env decode w ev) > lastReload w + 300 * millisecond"
  by (auto simp: watch_iter_def split: watch_event.split dest: time_sub_gt)

lemma reload_times_after:
  "t \<in> set (reload_times env decode w evs) \<Longrightarrow> t > lastReload w + 300 * millisecond"
proof (induction env decode w evs rule: reload_times.induct)
  case (2 env decode w ev evs)
  have ms: "0 < millisecond" by (simp add: millisecond_def)
  show ?case
    using "2.prems" "2.IH" [OF refl] watch_iter_last [of env decode w ev] ms
    by (auto simp: Let_def split: watch_event.splits if_splits dest: time_sub_gt)
qed simp

lemma reload_times_spaced:
  "sorted_wrt (\<lambda>a b. a + 300 * millisecond < b) (reload_times env decode w evs)"
proof (induction env decode w evs rule: reload_times.induct)
  case (2 env decode w ev evs)
  let ?w = "watch_iter env decode w ev"
  have "t > now + 300 * millisecond"
    if "t \<in> set (reload_times env decode ?w evs)" "ev = FileEvent ops now content" "running w"
      "FsWrite \<in> set ops \<or> FsCreate \<in> set ops \<or> FsRename \<in> set ops" "time_sub now (lastReload w) > 300 * millisecond"
    for t ops now content
  proof -
    have "lastReload ?w = now" using that(2-) by (simp add: watch_iter_def)
    with reload_times_after [OF that(1)] show ?thesis by simp
  qed
  with "2.IH" [OF refl] show ?case
    by (auto simp: Let_def split: watch_event.split)
qed simp

section \<open>Properties\<close>

text \<open>
  C34. Environment variables win. The configuration after start-up is the file's (the defaults if
  there is no path, the file cannot be read or does not decode) with every set variable applied
  over it, and a hot reload never undoes an override: a configuration that agrees with the
  environment still does after any sequence of watcher events.
\<close>

theorem config_env_applied:
  "cfg (NewConfigManager env decode file path) =
     env_overrides env (case (if path = [] then None else Option.bind file decode) of
       None \<Rightarrow> cloneConfig defaultConfig | Some parsed \<Rightarrow> parsed) \<and>
   env_respected env (cfg (NewConfigManager env decode file path)) \<and>
   (env_respected env (cfg (watched w)) \<longrightarrow>
      env_respected env (cfg (watched (watch_loop env decode w evs))))"
  by (auto simp: NewConfigManager_def applyEnvOverrides_def applyEnvOverridesLocked_def loadFromFile_cfg
      env_overrides_respected env_overrides_id watch_loop_respected Let_def split: option.split)

definition sample_env :: "string \<Rightarrow> string" where
  "sample_env v = (if v = ''UPSTREAM_URL'' then ''http://up'' else [])"

definition sample_cm :: "nat ConfigManager" where
  "sample_cm = NewConfigManager sample_env (\<lambda>d. Some defaultConfig) (Some []) ''config.yaml''"

theorem config_env_applied_witness:
  "TargetURL (Upstream (cfg (watched (watch_loop sample_env (\<lambda>d. Some defaultConfig) (watch_start sample_cm)
     [FileEvent [FsWrite] 0 (Some ''x'')])))) = ''http://up''"
proof -
  have "env_respected sample_env (cfg (watched (watch_start sample_cm)))"
    by (simp add: sample_cm_def watch_start_def NewConfigManager_def applyEnvOverrides_def
        applyEnvOverridesLocked_def env_overrides_respected Let_def)
  then have "env_respected sample_env (cfg (watched (watch_loop sample_env (\<lambda>d. Some defaultConfig)
      (watch_start sample_cm) [FileEvent [FsWrite] 0 (Some ''x'')])))"
    using config_env_applied by blast
  then show ?thesis by (simp add: env_respected_def sample_env_def)
qed

text \<open>
  What \<open>SetJitter\<close> can leave behind. From sound settings the percentage stays within 0 and 100
  and the minimum delay positive, whatever the arguments; but the maximum stays at or above the
  minimum exactly under the stated condition: the two bounds are checked against each other as
  arguments, not against the stored values.
\<close>

theorem set_jitter_range:
  assumes "jitter_ok (Jitter (Upstream (cfg cm)))" and "j = Jitter (Upstream (cfg cm))"
    and "j' = Jitter (Upstream (cfg (SetJitter enabled percentage minMs maxMs cm)))"
  shows "0 \<le> Percentage j' \<and> Percentage j' \<le> 100 \<and> 0 < MinDelayMs j' \<and>
    (jitter_ok j' \<longleftrightarrow>
      (if minMs > 0 then minMs \<le> maxMs \<or> minMs \<le> MaxDelayMs j
       else maxMs < minMs \<or> MinDelayMs j \<le> maxMs))"
  using assms(1,2) unfolding assms(3)
  by (auto simp: SetJitter_def jitter_update_def jitter_ok_def notifyListeners_def Let_def)

theorem set_jitter_range_witness:
  "\<not> jitter_ok (Jitter (Upstream (cfg (SetJitter True 50 900 100 sample_cm))))"
proof -
  have j: "Jitter (Upstream (cfg sample_cm)) =
      \<lparr>jit_Enabled = False, Percentage = 30, MinDelayMs = 200, MaxDelayMs = 500\<rparr>"
    by (simp add: sample_cm_def NewConfigManager_def loadFromFile_cfg applyEnvOverrides_def
        applyEnvOverridesLocked_def env_overrides_def env_string_def env_port_def sample_env_def defaultConfig_def)
  then show ?thesis
    using set_jitter_range [of sample_cm _ _ True 50 900 100, OF _ refl refl] by (simp add: jitter_ok_def)
qed

text \<open>
  Debounce. Whatever events the watcher receives, any two reloads are more than 300 ms apart;
  and two writes at most 300 ms apart leave the configuration of the first: the content that the
  second write leaves in the file is not loaded.
\<close>

theorem watch_debounce:
  assumes "running w" and "time_sub t (lastReload w) > 300 * millisecond"
    and "t \<le> t'" and "t' \<le> t + 300 * millisecond" and "decode early = Some c"
  shows "sorted_wrt (\<lambda>a b. a + 300 * millisecond < b) (reload_times env decode w evs) \<and>
    cfg (watched (watch_loop env decode w
      [FileEvent [FsWrite] t (Some early), FileEvent [FsWrite] t' (Some later)])) = env_overrides env c"
proof -
  have "\<not> time_sub t' t > 300 * millisecond" using assms(3,4) by (auto dest: time_sub_gt)
  then have "cfg (watched (watch_loop env decode w
      [FileEvent [FsWrite] t (Some early), FileEvent [FsWrite] t' (Some later)])) = env_overrides env c"
    using assms by (simp add: watch_iter_def loadFromFile_cfg)
  then show ?thesis using reload_times_spaced by blast
qed

theorem watch_debounce_witness:
  "cfg (watched (watch_loop (\<lambda>_. []) (\<lambda>d. if d = ''a'' then Some defaultConfig else None) (watch_start sample_cm)
     [FileEvent [FsWrite] 0 (Some ''a''), FileEvent [FsWrite] 1000 (Some ''b'')])) = defaultConfig"
proof -
  have "env_overrides (\<lambda>_. []) defaultConfig = defaultConfig"
    by (rule env_overrides_id) (simp add: env_respected_def)
  then show ?thesis
    using watch_debounce [of "watch_start sample_cm" 0 1000 "\<lambda>d. if d = ''a'' then Some defaultConfig else None" "''a''"
        defaultConfig "\<lambda>_. []" "[]" "''b''"]
    by (simp add: watch_start_def zero_time_def time_sub_def sat64_def millisecond_def)
qed

end
