(* ===== verification/Base64.thy ===== *)
theory Base64
  imports Go_Strings
begin

text \<open>
  Go's \<open>base64.StdEncoding\<close>: the padded encoder, and the decoder with what it tolerates (line
  breaks anywhere, unused bits of the last group) and what it refuses (a byte outside the
  alphabet, missing or misplaced padding, bytes after the padding). Shown: decoding an encoding
  returns the bytes.
\<close>

section \<open>Definitions\<close>

definition b64_char :: "nat \<Rightarrow> char" where
  "b64_char n =
     (if n < 26 then char_of (65 + n)
      else if n < 52 then char_of (71 + n)
      else if n < 62 then char_of (n - 4)
      else if n = 62 then CHR ''+'' else CHR ''/'')"

definition b64_val :: "char \<Rightarrow> nat option" where
  "b64_val c =
     (let n = (of_char c :: nat)
      in if 65 \<le> n \<and> n \<le> 90 then Some (n - 65)
         else if 97 \<le> n \<and> n \<le> 122 then Some (n - 71)
         else if 48 \<le> n \<and> n \<le> 57 then Some (n + 4)
         else if c = CHR ''+'' then Some 62
         else if c = CHR ''/'' then Some 63
         else None)"

fun b64_encode :: "bytes \<Rightarrow> string" where
  "b64_encode [] = []"
| "b64_encode [x] =
     (let a = of_char x
      in [b64_char (a div 4), b64_char (a mod 4 * 16), CHR ''='', CHR ''=''])"
| "b64_encode [x, y] =
     (let a = of_char x; b = of_char y
      in [b64_char (a div 4), b64_char (a mod 4 * 16 + b div 16), b64_char (b mod 16 * 4),
          CHR ''=''])"
| "b64_encode (x # y # z # r) =
     (let a = of_char x; b = of_char y; c = of_char z
      in [b64_char (a div 4), b64_char (a mod 4 * 16 + b div 16),
          b64_char (b mod 16 * 4 + c div 64), b64_char (c mod 64)] @ b64_encode r)"

definition b64_byte1 :: "nat \<Rightarrow> nat \<Rightarrow> char" where
  "b64_byte1 w x = char_of (w * 4 + x div 16)"

definition b64_byte2 :: "nat \<Rightarrow> nat \<Rightarrow> char" where
  "b64_byte2 x y = char_of (x mod 16 * 16 + y div 4)"

definition b64_byte3 :: "nat \<Rightarrow> nat \<Rightarrow> char" where
  "b64_byte3 y z = char_of (y mod 4 * 64 + z)"

fun b64_groups :: "string \<Rightarrow> bytes option" where
  "b64_groups [] = Some []"
| "b64_groups (p # q # r # s # rest) =
     (if s = CHR ''='' \<and> rest = [] then
        (if r = CHR ''='' then
           (case (b64_val p, b64_val q) of
              (Some w, Some x) \<Rightarrow> Some [b64_byte1 w x] | _ \<Rightarrow> None)
         else
           (case (b64_val p, b64_val q, b64_val r) of
              (Some w, Some x, Some y) \<Rightarrow> Some [b64_byte1 w x, b64_byte2 x y] | _ \<Rightarrow> None))
      else
        (case (b64_val p, b64_val q, b64_val r, b64_val s, b64_groups rest) of
           (Some w, Some x, Some y, Some z, Some bs) \<Rightarrow>
             Some (b64_byte1 w x # b64_byte2 x y # b64_byte3 y z # bs)
         | _ \<Rightarrow> None))"
| "b64_groups _ = None"

definition b64_decode :: "string \<Rightarrow> bytes option" where
  "b64_decode s = b64_groups (filter (\<lambda>c. c \<noteq> CHR 0x0A \<and> c \<noteq> CHR 0x0D) s)"

section \<open>Round trip\<close>

lemma b64_val_char [simp]: "n < 64 \<Longrightarrow> b64_val (b64_char n) = Some n"
  by (auto simp: b64_val_def b64_char_def Let_def)

lemma b64_val_special: "b64_val (CHR ''='') = None" "b64_val (CHR 0x0A) = None" "b64_val (CHR 0x0D) = None"
  by (simp_all add: b64_val_def)

lemma b64_char_plain [simp]:
  "n < 64 \<Longrightarrow> b64_char n \<noteq> CHR ''=''" "n < 64 \<Longrightarrow> b64_char n \<noteq> CHR 0x0A"
  "n < 64 \<Longrightarrow> b64_char n \<noteq> CHR 0x0D"
  using b64_val_char b64_val_special by (metis option.distinct(1))+

lemma six_bits:
  assumes "(a :: nat) < 256" and "b < 256"
  shows "a div 4 < 64" "a mod 4 * 16 < 64" "a mod 4 * 16 + b div 16 < 64" "b mod 16 * 4 < 64"
    "b mod 16 * 4 + a div 64 < 64" "a mod 64 < 64"
proof -
  have parts: "a mod 4 < 4" "b mod 16 < 16" "b div 16 < 16" "a div 64 < 4"
    using assms by (simp_all add: div_less_iff_less_mult)
  show "a div 4 < 64" using assms by (simp add: div_less_iff_less_mult)
  show "a mod 4 * 16 < 64" "a mod 4 * 16 + b div 16 < 64" "b mod 16 * 4 < 64"
    "b mod 16 * 4 + a div 64 < 64" "a mod 64 < 64"
    using parts by linarith+
qed

lemma split_div: "(y :: nat) < n \<Longrightarrow> (x * n + y) div n = x"
  and split_mod: "(y :: nat) < n \<Longrightarrow> (x * n + y) mod n = y"
  by simp_all

lemma regroup:
  assumes "(a :: nat) < 256" and "b < 256" and "c < 256"
  shows "a div 4 * 4 + (a mod 4 * 16) div 16 = a"
    "a div 4 * 4 + (a mod 4 * 16 + b div 16) div 16 = a"
    "(a mod 4 * 16 + b div 16) mod 16 * 16 + (b mod 16 * 4) div 4 = b"
    "(a mod 4 * 16 + b div 16) mod 16 * 16 + (b mod 16 * 4 + c div 64) div 4 = b"
    "(b mod 16 * 4 + c div 64) mod 4 * 64 + c mod 64 = c"
proof -
  have parts: "b div 16 < 16" "c div 64 < 4"
    using assms by (simp_all add: div_less_iff_less_mult)
  show "a div 4 * 4 + (a mod 4 * 16) div 16 = a" by simp
  show "a div 4 * 4 + (a mod 4 * 16 + b div 16) div 16 = a"
    by (simp only: split_div [OF parts(1)] div_mult_mod_eq)
  show "(a mod 4 * 16 + b div 16) mod 16 * 16 + (b mod 16 * 4) div 4 = b"
    by (simp only: split_mod [OF parts(1)]) simp
  show "(a mod 4 * 16 + b div 16) mod 16 * 16 + (b mod 16 * 4 + c div 64) div 4 = b"
    by (simp only: split_mod [OF parts(1)] split_div [OF parts(2)] div_mult_mod_eq)
  show "(b mod 16 * 4 + c div 64) mod 4 * 64 + c mod 64 = c"
    by (simp only: split_mod [OF parts(2)] div_mult_mod_eq)
qed

lemma b64_groups_encode: "b64_groups (b64_encode b) = Some b"
proof (induction b rule: b64_encode.induct)
  case (2 x)
  show ?case
    using six_bits [of "of_char x" 0] regroup(1) [of "of_char x" 0 0]
    by (simp add: Let_def b64_byte1_def)
next
  case (3 x y)
  show ?case
    using six_bits [of "of_char x" "of_char y"] regroup(2,3) [of "of_char x" "of_char y" 0]
    by (simp add: Let_def b64_byte1_def b64_byte2_def)
next
  case (4 x y z r)
  then show ?case
    using six_bits [of "of_char x" "of_char y"] six_bits [of "of_char z" "of_char y"]
      regroup(2,4,5) [of "of_char x" "of_char y" "of_char z"]
    by (simp add: Let_def b64_byte1_def b64_byte2_def b64_byte3_def)
qed simp

lemma b64_encode_no_breaks: "filter (\<lambda>c. c \<noteq> CHR 0x0A \<and> c \<noteq> CHR 0x0D) (b64_encode b) = b64_encode b"
proof (induction b rule: b64_encode.induct)
  case (2 x)
  show ?case using six_bits [of "of_char x" 0] by (simp add: Let_def)
next
  case (3 x y)
  show ?case using six_bits [of "of_char x" "of_char y"] by (simp add: Let_def)
next
  case (4 x y z r)
  then show ?case
    using six_bits [of "of_char x" "of_char y"] six_bits [of "of_char z" "of_char y"]
    by (simp add: Let_def)
qed simp

theorem b64_roundtrip: "b64_decode (b64_encode b) = Some b"
  by (simp add: b64_decode_def b64_encode_no_breaks b64_groups_encode)

end
