(* ===== verification/Crypto.thy ===== *)
theory Crypto
  imports Base64
begin

text \<open>
  \<^verbatim>\<open>internal/crypto\<close>: signature headers (\<^verbatim>\<open>hmac.go\<close>) and envelope encryption
  (\<^verbatim>\<open>envelope.go\<close>).

  The primitives (SHA-256, HMAC-SHA-256, AES-GCM) and Unicode's case tables are the fields of
  \<open>golib\<close>, an argument of the definitions that use them. No theorem assumes more of them than
  that a digest is not empty or has 32 bytes, and that opening a sealed message returns it; most
  assume nothing. Everything around the primitives is written out: header parsing, the two
  freshness comparisons in int64 arithmetic, hex and base64, nonce handling and each error.

  Shown: a generated signature verifies exactly while it is fresh; an accepted header carries
  the HMAC of the body under the secret at its timestamp; a rejection always has an error value;
  exactly which timestamps pass the freshness test, including one far out of range because the
  subtractions wrap; and that decryption inverts encryption.
\<close>

section \<open>Definitions\<close>

record golib =
  sha256_sum :: "bytes \<Rightarrow> bytes"
  hmac_sha256 :: "bytes \<Rightarrow> bytes \<Rightarrow> bytes"  \<comment> \<open>key, message\<close>
  gcm_seal :: "bytes \<Rightarrow> bytes \<Rightarrow> bytes \<Rightarrow> bytes"  \<comment> \<open>key, nonce, plaintext\<close>
  gcm_open :: "bytes \<Rightarrow> bytes \<Rightarrow> bytes \<Rightarrow> bytes option"  \<comment> \<open>key, nonce, ciphertext\<close>
  unicode_lower :: "string \<Rightarrow> string"

subsection \<open>hmac.go\<close>

datatype sig_error =
    ErrMissingSignature
  | ErrInvalidHeaderFormat
  | ErrExpiredTimestamp i64 i64  \<comment> \<open>age, tolerance\<close>
  | ErrClockDrift i64  \<comment> \<open>skew\<close>
  | ErrSignatureMismatch

definition mac_hex :: "golib \<Rightarrow> bytes \<Rightarrow> bytes \<Rightarrow> i64 \<Rightarrow> string" where
  "mac_hex lib payload secret timestamp =
     hex_encode (hmac_sha256 lib secret (show_int timestamp @ ''.'' @ payload))"

definition GenerateSignature :: "golib \<Rightarrow> bytes \<Rightarrow> bytes \<Rightarrow> i64 \<Rightarrow> string" where
  "GenerateSignature lib payload secret timestamp =
     ''t='' @ show_int timestamp @ '',v1='' @ mac_hex lib payload secret timestamp"

text \<open>The loop over the header's parts; a later field of the same name wins.\<close>

fun parse_parts :: "string list \<Rightarrow> string \<Rightarrow> string \<Rightarrow> string \<times> string" where
  "parse_parts [] timestampStr v1Hex = (timestampStr, v1Hex)"
| "parse_parts (part # parts) timestampStr v1Hex =
     (let part = trim_space part
      in if has_prefix part ''t='' then parse_parts parts (trim_prefix part ''t='') v1Hex
         else if has_prefix part ''v1='' then parse_parts parts timestampStr (trim_prefix part ''v1='')
         else parse_parts parts timestampStr v1Hex)"

definition sig_fields :: "string \<Rightarrow> string \<times> string" where
  "sig_fields h = parse_parts (split_on CHR '','' h) [] []"

text \<open>\<open>clk\<close> is the clock's reading in seconds, used when \<open>nowUnix\<close> is 0.\<close>

definition VerifySignature ::
  "golib \<Rightarrow> i64 \<Rightarrow> bytes \<Rightarrow> string \<Rightarrow> bytes \<Rightarrow> i64 \<Rightarrow> i64 \<Rightarrow> bool \<times> sig_error option" where
  "VerifySignature lib clk rawBody signatureHeader secret toleranceSeconds nowUnix =
     (if signatureHeader = [] then (False, Some ErrMissingSignature)
      else
        (let (timestampStr, v1Hex) = sig_fields signatureHeader
         in if timestampStr = [] \<or> v1Hex = [] then (False, Some ErrInvalidHeaderFormat)
            else
              (let (ts, err) = parse_int64 timestampStr
               in if err \<noteq> None then (False, Some ErrInvalidHeaderFormat)
                  else
                    (let nowUnix = (if nowUnix = 0 then clk else nowUnix)
                     in if wrap64 (nowUnix - ts) > toleranceSeconds then
                          (False, Some (ErrExpiredTimestamp (wrap64 (nowUnix - ts)) toleranceSeconds))
                        else if wrap64 (ts - nowUnix) > 10 then
                          (False, Some (ErrClockDrift (wrap64 (ts - nowUnix))))
                        else if mac_hex lib rawBody secret ts \<noteq> to_lower (unicode_lower lib) v1Hex then
                          (False, Some ErrSignatureMismatch)
                        else (True, None)))))"

subsection \<open>envelope.go\<close>

datatype envelope_error =
    ErrInvalidKeySize
  | ErrCiphertextTooShort
  | ErrDecryptionFailed
  | Base64DecodeError
  | AesCipherError
  | NonceGenerationError

record EnvelopeCipher =
  masterKey :: bytes

text \<open>\<open>env\<close> is \<open>os.Getenv\<close>, the empty string for an unset variable.\<close>

definition resolveMasterKey :: "golib \<Rightarrow> (string \<Rightarrow> string) \<Rightarrow> string \<Rightarrow> envelope_error + bytes" where
  "resolveMasterKey lib env rawKey =
     (let rawKey = (if env ''AEGIS_MASTER_KEY'' \<noteq> [] then env ''AEGIS_MASTER_KEY'' else rawKey);
          decoded = (if length rawKey = 64 then hex_decode rawKey else None)
      in case decoded of
           Some d \<Rightarrow> if length d = 32 then Inr d
                     else if length rawKey = 32 then Inr rawKey else Inr (sha256_sum lib rawKey)
         | None \<Rightarrow> if length rawKey = 32 then Inr rawKey else Inr (sha256_sum lib rawKey))"

definition NewEnvelopeCipher :: "golib \<Rightarrow> (string \<Rightarrow> string) \<Rightarrow> string \<Rightarrow> envelope_error + EnvelopeCipher" where
  "NewEnvelopeCipher lib env rawKey =
     (case resolveMasterKey lib env rawKey of
        Inl e \<Rightarrow> Inl e
      | Inr keyBytes \<Rightarrow> Inr \<lparr>masterKey = keyBytes\<rparr>)"

text \<open>\<open>aes.NewCipher\<close> accepts keys of 16, 24 and 32 bytes; GCM's standard nonce has 12.\<close>

definition aes_key_ok :: "bytes \<Rightarrow> bool" where
  "aes_key_ok key \<longleftrightarrow> length key = 16 \<or> length key = 24 \<or> length key = 32"

definition nonce_size :: nat where "nonce_size = 12"

text \<open>\<open>rnd\<close> is the result of filling the nonce from the random source.\<close>

definition Encrypt :: "golib \<Rightarrow> bytes option \<Rightarrow> EnvelopeCipher \<Rightarrow> bytes \<Rightarrow> envelope_error + string" where
  "Encrypt lib rnd ec plaintext =
     (let key = masterKey ec
      in if \<not> aes_key_ok key then Inl AesCipherError
         else (case rnd of
                 None \<Rightarrow> Inl NonceGenerationError
               | Some nonce \<Rightarrow> Inr (b64_encode (nonce @ gcm_seal lib key nonce plaintext))))"

definition Decrypt :: "golib \<Rightarrow> EnvelopeCipher \<Rightarrow> string \<Rightarrow> envelope_error + bytes" where
  "Decrypt lib ec encodedCiphertext =
     (case b64_decode encodedCiphertext of
        None \<Rightarrow> Inl Base64DecodeError
      | Some data \<Rightarrow>
          (let key = masterKey ec
           in if \<not> aes_key_ok key then Inl AesCipherError
              else if length data < nonce_size then Inl ErrCiphertextTooShort
              else (case gcm_open lib key (take nonce_size data) (drop nonce_size data) of
                      None \<Rightarrow> Inl ErrDecryptionFailed
                    | Some plaintext \<Rightarrow> Inr plaintext)))"

definition HashKey :: "golib \<Rightarrow> string \<Rightarrow> string" where
  "HashKey lib apiKey = hex_encode (sha256_sum lib apiKey)"

subsection \<open>Freshness\<close>

text \<open>The two comparisons of \<open>VerifySignature\<close>, in int64 arithmetic.\<close>

definition fresh :: "i64 \<Rightarrow> i64 \<Rightarrow> i64 \<Rightarrow> bool" where
  "fresh tolerance nowUnix ts \<longleftrightarrow>
     \<not> wrap64 (nowUnix - ts) > tolerance \<and> \<not> wrap64 (ts - nowUnix) > 10"

section \<open>Parsing a generated header\<close>

lemma mac_hex_chars: "x \<in> set (mac_hex lib p s t) \<Longrightarrow> solid x \<and> x \<noteq> CHR '',''"
  unfolding mac_hex_def by (auto dest!: hex_encode_chars)

lemma mac_hex_lower: "to_lower f (mac_hex lib p s t) = mac_hex lib p s t"
  by (simp add: mac_hex_def to_lower_hex)

lemma sig_fields_generated:
  assumes "mac_hex lib payload secret ts \<noteq> []"
  shows "sig_fields (GenerateSignature lib payload secret ts) = (show_int ts, mac_hex lib payload secret ts)"
proof -
  let ?a = "''t='' @ show_int ts" and ?b = "''v1='' @ mac_hex lib payload secret ts"
  have na: "CHR '','' \<notin> set ?a" and nb: "CHR '','' \<notin> set ?b"
    using show_int_chars mac_hex_chars by fastforce+
  have "GenerateSignature lib payload secret ts = ?a @ CHR '','' # ?b"
    by (simp add: GenerateSignature_def)
  then have parts: "split_on CHR '','' (GenerateSignature lib payload secret ts) = [?a, ?b]"
    by (simp only: split_on_append [OF na] split_on_none [OF nb])
  have "last ?a \<in> set (show_int ts)" and "last ?b \<in> set (mac_hex lib payload secret ts)"
    using assms by (simp_all only: last_appendR show_int_nonempty not_False_eq_True last_in_set)
  then have "solid (last ?a)" and "solid (last ?b)"
    using show_int_chars mac_hex_chars by blast+
  then have "trim_space ?a = ?a" and "trim_space ?b = ?b"
    by (intro trim_space_solid; simp add: solid_def)+
  then show ?thesis
    by (simp add: sig_fields_def parts has_prefix_def trim_prefix_def)
qed

lemma verify_generated:
  assumes "in_i64 ts" and "hmac_sha256 lib secret (show_int ts @ ''.'' @ body) \<noteq> []"
    and "nowUnix \<noteq> 0"
  shows "VerifySignature lib clk body (GenerateSignature lib body secret ts) secret tolerance nowUnix =
     (if fresh tolerance nowUnix ts then (True, None)
      else if wrap64 (nowUnix - ts) > tolerance
      then (False, Some (ErrExpiredTimestamp (wrap64 (nowUnix - ts)) tolerance))
      else (False, Some (ErrClockDrift (wrap64 (ts - nowUnix)))))"
proof -
  have ne: "mac_hex lib body secret ts \<noteq> []"
    using assms(2) length_hex_encode [of "hmac_sha256 lib secret (show_int ts @ ''.'' @ body)"]
    by (auto simp: mac_hex_def)
  have "GenerateSignature lib body secret ts \<noteq> []" by (simp add: GenerateSignature_def)
  with ne assms show ?thesis
    by (simp add: VerifySignature_def sig_fields_generated [OF ne] parse_show_int mac_hex_lower
        fresh_def)
qed

section \<open>Properties\<close>

text \<open>
  C10. Signature round trip. A header made by \<open>GenerateSignature\<close> for a body, secret and int64
  timestamp is verified for the same body and secret, with no error, exactly when the timestamp
  passes the freshness test; otherwise the error is the expiry or the clock-drift error.
\<close>

theorem signature_roundtrip:
  assumes "in_i64 ts" and "hmac_sha256 lib secret (show_int ts @ ''.'' @ body) \<noteq> []"
    and "nowUnix \<noteq> 0"
  shows "VerifySignature lib clk body (GenerateSignature lib body secret ts) secret tolerance nowUnix =
     (if fresh tolerance nowUnix ts then (True, None)
      else if wrap64 (nowUnix - ts) > tolerance
      then (False, Some (ErrExpiredTimestamp (wrap64 (nowUnix - ts)) tolerance))
      else (False, Some (ErrClockDrift (wrap64 (ts - nowUnix)))))"
  by (rule verify_generated) (rule assms)+

text \<open>A primitive for the witnesses: digests repeat a byte, sealing appends a tag byte.\<close>

definition toy_lib :: golib where
  "toy_lib = \<lparr>sha256_sum = (\<lambda>m. replicate 32 (CHR ''h'')),
     hmac_sha256 = (\<lambda>k m. [CHR ''m'', char_of (length k + length m)]),
     gcm_seal = (\<lambda>k n p. p @ ''T''),
     gcm_open = (\<lambda>k n c. if c \<noteq> [] \<and> last c = CHR ''T'' then Some (butlast c) else None),
     unicode_lower = (\<lambda>s. s)\<rparr>"

theorem signature_roundtrip_witness:
  "VerifySignature toy_lib 0 ''body'' (GenerateSignature toy_lib ''body'' ''secret'' 990) ''secret'' 60 1000
     = (True, None)"
proof -
  have "fresh 60 1000 990" by (simp add: fresh_def wrap64_def)
  then show ?thesis
    by (subst signature_roundtrip) (simp_all add: in_i64_def toy_lib_def)
qed

text \<open>
  C11. Soundness of acceptance. If a header is accepted, its timestamp field parses to an int64
  \<open>ts\<close> that passed the freshness test and its \<open>v1\<close> field, in lower case, is the HMAC of
  \<open>ts.body\<close> under the secret. So a header replayed with another body or secret is accepted only
  if the HMACs coincide.
\<close>

theorem signature_sound:
  assumes "VerifySignature lib clk body header secret tolerance nowUnix = (True, err)"
    and "nowUnix \<noteq> 0"
  shows "\<exists>ts. err = None \<and> parse_int64 (fst (sig_fields header)) = (ts, None) \<and>
     fresh tolerance nowUnix ts \<and>
     to_lower (unicode_lower lib) (snd (sig_fields header)) = mac_hex lib body secret ts"
  using assms
  by (auto simp: VerifySignature_def fresh_def Let_def split: if_splits prod.splits)

theorem signature_sound_witness:
  "\<exists>ts. parse_int64 (fst (sig_fields (GenerateSignature toy_lib ''body'' ''secret'' 990))) = (ts, None) \<and>
     fresh 60 1000 ts"
proof -
  have "VerifySignature toy_lib 0 ''body'' (GenerateSignature toy_lib ''body'' ''secret'' 990)
      ''secret'' 60 1000 = (True, None)"
    by (subst verify_generated) (simp_all add: in_i64_def toy_lib_def fresh_def wrap64_def)
  from signature_sound [OF this] show ?thesis by auto
qed

text \<open>
  A rejection always carries an error and an acceptance never does, so the gateway's use of
  the error's text after a failed verification cannot meet a nil error.
\<close>

theorem signature_error_total:
  "(\<exists>e. VerifySignature lib clk body header secret tolerance nowUnix = (False, Some e)) \<or>
   VerifySignature lib clk body header secret tolerance nowUnix = (True, None)"
  by (auto simp: VerifySignature_def Let_def split: prod.splits)

text \<open>
  Exactly which timestamps pass. For a non-negative tolerance and a clock that is not within
  10 seconds of the end of the int64 range the test accepts the
  timestamps from \<open>tolerance\<close> seconds in the past to 10 seconds in the future, and one more: the
  timestamp \<open>2^63\<close> seconds before the clock, for which both int64 differences wrap to the
  smallest int64.
\<close>

theorem fresh_iff:
  assumes "in_i64 ts" and "in_i64 nowUnix" and "in_i64 tolerance" and "0 \<le> tolerance"
    and "0 \<le> nowUnix" and "nowUnix \<le> 9223372036854775797"
  shows "fresh tolerance nowUnix ts \<longleftrightarrow>
     (nowUnix - tolerance \<le> ts \<and> ts \<le> nowUnix + 10) \<or> ts = nowUnix - 9223372036854775808"
proof (cases "in_i64 (nowUnix - ts)")
  case True
  then have w1: "wrap64 (nowUnix - ts) = nowUnix - ts" by (rule wrap64_id)
  have w2: "wrap64 (ts - nowUnix) = ts - nowUnix"
    using True assms(1,2,5) by (intro wrap64_id) (auto simp: in_i64_def)
  have "ts \<noteq> nowUnix - 9223372036854775808" using True by (auto simp: in_i64_def)
  then show ?thesis by (auto simp: fresh_def w1 w2)
next
  case False
  then have big: "nowUnix - ts > max_i64" using assms(1,5) by (auto simp: in_i64_def)
  have w1: "wrap64 (nowUnix - ts) = nowUnix - ts - 18446744073709551616"
  proof -
    have "wrap64 (nowUnix - ts) = wrap64 (nowUnix - ts - 18446744073709551616)"
      by (rule wrap64_eqI) (simp add: mod_diff_right_eq)
    also have "\<dots> = nowUnix - ts - 18446744073709551616"
      using big assms(1,2) by (intro wrap64_id) (auto simp: in_i64_def)
    finally show ?thesis .
  qed
  have w2: "wrap64 (ts - nowUnix) =
      (if ts = nowUnix - 9223372036854775808 then min_i64 else ts - nowUnix + 18446744073709551616)"
  proof (cases "ts = nowUnix - 9223372036854775808")
    case True
    then show ?thesis by (simp add: wrap64_def)
  next
    case ne: False
    have "wrap64 (ts - nowUnix) = wrap64 (ts - nowUnix + 18446744073709551616)"
      by (rule wrap64_eqI) simp
    also have "\<dots> = ts - nowUnix + 18446744073709551616"
      using big ne assms(1,2) by (intro wrap64_id) (auto simp: in_i64_def)
    finally show ?thesis using ne by simp
  qed
  have "ts - nowUnix + 18446744073709551616 > 10" using assms(1,6) by (simp add: in_i64_def)
  moreover have "wrap64 (nowUnix - ts) \<le> tolerance"
    using assms(1,2,4) by (simp add: w1 in_i64_def)
  moreover have "ts < nowUnix - tolerance" using big assms(3) by (simp add: in_i64_def)
  ultimately show ?thesis unfolding fresh_def w2 by auto
qed

theorem fresh_iff_witness:
  "fresh 60 1000 990 \<and> \<not> fresh 60 1000 939 \<and> \<not> fresh 60 1000 1011 \<and>
   fresh 60 1000 (1000 - 9223372036854775808)"
  using fresh_iff [of 990 1000 60] fresh_iff [of 939 1000 60] fresh_iff [of 1011 1000 60]
    fresh_iff [of "1000 - 9223372036854775808" 1000 60]
  by (simp add: in_i64_def)

lemma resolveMasterKey_length:
  assumes "\<And>m. length (sha256_sum lib m) = 32"
  shows "\<exists>k. resolveMasterKey lib env rawKey = Inr k \<and> length k = 32"
  unfolding resolveMasterKey_def Let_def by (simp add: assms split: option.split)

text \<open>
  C35. Envelope round trip. \<open>NewEnvelopeCipher\<close> never fails and yields a 32-byte key, whatever
  the configured key and environment; with it, whatever \<open>Encrypt\<close> returns for a 12-byte nonce
  is decrypted to the plaintext by \<open>Decrypt\<close>. The primitive is only assumed to open what it
  seals and SHA-256 to return 32 bytes.
\<close>

theorem envelope_roundtrip:
  assumes "\<And>m. length (sha256_sum lib m) = 32"
    and "\<And>k n p. gcm_open lib k n (gcm_seal lib k n p) = Some p"
    and "length nonce = nonce_size"
  shows "\<exists>ec ct. NewEnvelopeCipher lib env rawKey = Inr ec \<and> length (masterKey ec) = 32 \<and>
     Encrypt lib (Some nonce) ec plaintext = Inr ct \<and> Decrypt lib ec ct = Inr plaintext"
proof -
  obtain k where k: "resolveMasterKey lib env rawKey = Inr k" "length k = 32"
    using resolveMasterKey_length [OF assms(1)] by blast
  then have ok: "aes_key_ok k" by (simp add: aes_key_ok_def)
  let ?ct = "b64_encode (nonce @ gcm_seal lib k nonce plaintext)"
  have "Decrypt lib \<lparr>masterKey = k\<rparr> ?ct = Inr plaintext"
    using ok assms(2,3) by (simp add: Decrypt_def b64_roundtrip)
  moreover have "Encrypt lib (Some nonce) \<lparr>masterKey = k\<rparr> plaintext = Inr ?ct"
    using ok by (simp add: Encrypt_def)
  ultimately show ?thesis
    using k by (auto simp: NewEnvelopeCipher_def)
qed

theorem envelope_roundtrip_witness:
  "\<exists>ec ct. NewEnvelopeCipher toy_lib (\<lambda>_. []) ''short key'' = Inr ec \<and>
     Encrypt toy_lib (Some ''123456789012'') ec ''hello'' = Inr ct \<and> Decrypt toy_lib ec ct = Inr ''hello''"
proof -
  have "\<And>m. length (sha256_sum toy_lib m) = 32"
    and "\<And>k n p. gcm_open toy_lib k n (gcm_seal toy_lib k n p) = Some p"
    and "length ''123456789012'' = nonce_size"
    by (simp_all add: toy_lib_def nonce_size_def)
  from envelope_roundtrip [OF this] show ?thesis by blast
qed

text \<open>
  Decryption fails closed. A result is returned only if the input is base64 of at least a
  nonce and the primitive authenticated the rest; every other input gives the error of the first
  check that fails.
\<close>

theorem decrypt_cases:
  assumes "aes_key_ok (masterKey ec)"
  shows "Decrypt lib ec s =
     (case b64_decode s of
        None \<Rightarrow> Inl Base64DecodeError
      | Some d \<Rightarrow>
          if length d < 12 then Inl ErrCiphertextTooShort
          else if gcm_open lib (masterKey ec) (take 12 d) (drop 12 d) = None
          then Inl ErrDecryptionFailed
          else Inr (the (gcm_open lib (masterKey ec) (take 12 d) (drop 12 d))))"
  using assms by (auto simp: Decrypt_def nonce_size_def Let_def split: option.split)

theorem decrypt_cases_witness:
  "Decrypt toy_lib \<lparr>masterKey = replicate 16 (CHR ''k'')\<rparr> ''AAAA'' = Inl ErrCiphertextTooShort"
  by (subst decrypt_cases) (simp_all add: aes_key_ok_def b64_decode_def b64_val_def)

end
