(* ===== verification/Storage.thy ===== *)
theory Storage
  imports Crypto Go_Float
begin

text \<open>
  \<^verbatim>\<open>internal/storage\<close>: the API key repository (\<^verbatim>\<open>postgres.go\<close>) with its in-memory shadow map, the
  Redis freeze flags (\<^verbatim>\<open>redis.go\<close>) and the schema run at start (\<^verbatim>\<open>migrations.go\<close>).

  PostgreSQL and Redis are not part of the repository: their statements and commands are the
  fields of \<open>pgpool\<close> and \<open>redis_kv\<close>, arguments of the definitions, over server states of
  arbitrary type; every statement may fail. The order in which Go visits the map in
  \<open>FreezeAPIKey\<close> is an argument too.

  Shown: the seeded keys resolve to their tiers and decrypt to themselves; a frozen key stays
  rejected through any later operations, whatever Redis and PostgreSQL answer; and that a key in
  the shadow map is never looked up in PostgreSQL again, so a freeze made by another gateway is
  seen only while its Redis flag lives.
\<close>

section \<open>Definitions\<close>

datatype key_error = ErrKeyNotFound | ErrKeyFrozen | ErrKeyInactive

record APIKeyRecord =
  rec_ID :: string
  KeyHash :: string
  EncryptedKey :: string
  Tier :: string
  IsActive :: bool
  RateFrozen :: bool
  CreatedAt :: gotime
  UpdatedAt :: gotime

record WebhookRecord =
  wh_ID :: string
  APIKeyID :: string
  URL :: string
  SinkType :: string
  EncryptedSecret :: string
  wh_IsActive :: bool
  wh_CreatedAt :: gotime

record AuditEventRecord =
  audit_ID :: string
  EventType :: string
  Payload :: string
  Signature :: string
  audit_CreatedAt :: gotime

subsection \<open>The servers\<close>

text \<open>
  The statements the repository executes. A query yields \<open>None\<close> when it fails; a row that does
  not scan is \<open>None\<close> inside the result.
\<close>

record 'd pgpool =
  q_api_keys :: "'d \<Rightarrow> APIKeyRecord option list option"
  q_webhooks :: "'d \<Rightarrow> WebhookRecord option list option"
  q_api_key :: "string \<Rightarrow> 'd \<Rightarrow> APIKeyRecord option"  \<comment> \<open>by hash\<close>
  x_freeze :: "string \<Rightarrow> string \<Rightarrow> 'd \<Rightarrow> i64 option \<times> 'd"  \<comment> \<open>by id or hash, rows affected\<close>
  x_audit :: "AuditEventRecord \<Rightarrow> 'd \<Rightarrow> bool \<times> 'd"
  x_billing :: "string \<Rightarrow> string \<Rightarrow> i64 \<Rightarrow> float64 \<Rightarrow> 'd \<Rightarrow> bool \<times> 'd"
  x_schema :: "'d \<Rightarrow> bool \<times> 'd"
  x_close :: "'d \<Rightarrow> 'd"

record 'k redis_kv =
  kv_SET :: "string \<Rightarrow> string \<Rightarrow> int \<Rightarrow> 'k \<Rightarrow> bool \<times> 'k"  \<comment> \<open>key, value, expiry\<close>
  kv_GET :: "string \<Rightarrow> 'k \<Rightarrow> string option"
  kv_INFO_memory :: "'k \<Rightarrow> string option"
  kv_close :: "'k \<Rightarrow> bool \<times> 'k"

subsection \<open>redis.go\<close>

record 'k RedisClient =
  Client :: "'k redis_kv option"

text \<open>\<open>dial\<close> gives the connection that answers a ping at an address, if any.\<close>

definition NewRedisClient :: "(string \<Rightarrow> string \<Rightarrow> i64 \<Rightarrow> 'k redis_kv option) \<Rightarrow> string \<Rightarrow> string \<Rightarrow> i64 \<Rightarrow> 'k RedisClient" where
  "NewRedisClient dial addr password db =
     (let addr = (if addr = [] then ''localhost:6379'' else addr)
      in \<lparr>Client = dial addr password db\<rparr>)"

definition FreezeKey :: "'k RedisClient \<Rightarrow> string \<Rightarrow> 'k \<Rightarrow> bool \<times> 'k" where
  "FreezeKey rc apiKey k =
     (case Client rc of
        None \<Rightarrow> (True, k)
      | Some R \<Rightarrow> kv_SET R (''key_frozen:'' @ apiKey) ''1'' (24 * hour) k)"

definition IsKeyFrozen :: "'k RedisClient \<Rightarrow> string \<Rightarrow> 'k \<Rightarrow> bool" where
  "IsKeyFrozen rc apiKey k =
     (case Client rc of
        None \<Rightarrow> False
      | Some R \<Rightarrow> kv_GET R (''key_frozen:'' @ apiKey) k = Some ''1'')"

text \<open>\<open>strings.Split(info, "\r\n")\<close>.\<close>

fun split_crlf :: "string \<Rightarrow> string list" where
  "split_crlf [] = [[]]"
| "split_crlf [x] = [[x]]"
| "split_crlf (x # y # s) =
     (if x = CHR 0x0D \<and> y = CHR 0x0A then [] # split_crlf s
      else (case split_crlf (y # s) of [] \<Rightarrow> [[x]] | l # ls \<Rightarrow> (x # l) # ls))"

fun used_memory :: "string list \<Rightarrow> i64 \<times> num_error option" where
  "used_memory [] = (0, None)"
| "used_memory (line # lines) =
     (let line = trim_space line;
          parts = split_on CHR '':'' line
      in if has_prefix line ''used_memory:'' \<and> length parts = 2 then parse_int64 (parts ! 1)
         else used_memory lines)"

datatype memory_error = InfoError | MemoryParseError num_error

definition GetMemoryUsage :: "'k RedisClient \<Rightarrow> 'k \<Rightarrow> i64 \<times> memory_error option" where
  "GetMemoryUsage rc k =
     (case Client rc of
        None \<Rightarrow> (0, None)
      | Some R \<Rightarrow>
          (case kv_INFO_memory R k of
             None \<Rightarrow> (0, Some InfoError)
           | Some info \<Rightarrow>
               (case used_memory (split_crlf info) of (v, e) \<Rightarrow> (v, map_option MemoryParseError e))))"

definition rc_Close :: "'k RedisClient \<Rightarrow> 'k \<Rightarrow> bool \<times> 'k" where
  "rc_Close rc k = (case Client rc of None \<Rightarrow> (True, k) | Some R \<Rightarrow> kv_close R k)"

subsection \<open>postgres.go\<close>

record ('d, 'k) PostgresRepo =
  pool :: "'d pgpool option"
  cipher :: EnvelopeCipher
  redisClient :: "'k RedisClient option"
  memKeys :: "(string, APIKeyRecord) gomap"
  webhooks :: "WebhookRecord list"

text \<open>The repository with the states of the two servers.\<close>

record ('d, 'k) repo_sys =
  repo :: "('d, 'k) PostgresRepo"
  db :: 'd
  kv :: 'k

definition seed_keys :: "(string \<times> string \<times> string) list" where
  "seed_keys =
     [(''key_free_01'', ''aegis_live_free_key_1001'', ''free''),
      (''key_pro_01'', ''aegis_live_pro_key_2002'', ''pro''),
      (''key_enterprise_01'', ''aegis_live_enterprise_key_3003'', ''enterprise''),
      (''key_compromised_99'', ''aegis_live_compromised_key_9999'', ''enterprise'')]"

text \<open>The error of \<open>Encrypt\<close> is ignored: the record then has the empty string.\<close>

definition seed_record :: "golib \<Rightarrow> EnvelopeCipher \<Rightarrow> gotime \<Rightarrow> bytes option \<Rightarrow> string \<times> string \<times> string \<Rightarrow> APIKeyRecord" where
  "seed_record lib ec now rnd k =
     (let (id, rawKey, tier) = k
      in \<lparr>rec_ID = id, KeyHash = HashKey lib rawKey,
          EncryptedKey = (case Encrypt lib rnd ec rawKey of Inl _ \<Rightarrow> [] | Inr enc \<Rightarrow> enc),
          Tier = tier, IsActive = True, RateFrozen = False, CreatedAt = now, UpdatedAt = now\<rparr>)"

fun seed_loop ::
  "golib \<Rightarrow> EnvelopeCipher \<Rightarrow> gotime \<Rightarrow> ((string \<times> string \<times> string) \<times> bytes option) list
     \<Rightarrow> (string, APIKeyRecord) gomap \<Rightarrow> (string, APIKeyRecord) gomap" where
  "seed_loop lib ec now [] m = m"
| "seed_loop lib ec now ((k, rnd) # ks) m =
     seed_loop lib ec now ks (gm_set (HashKey lib (fst (snd k))) (seed_record lib ec now rnd k) m)"

definition seed_webhooks :: "gotime \<Rightarrow> WebhookRecord list" where
  "seed_webhooks now =
     [\<lparr>wh_ID = ''sub_gen_01'', APIKeyID = ''key_pro_01'', URL = ''http://webhook-receiver:8083/webhook/generic'',
       SinkType = ''generic'', EncryptedSecret = ''secret_generic_sig'', wh_IsActive = True, wh_CreatedAt = now\<rparr>,
      \<lparr>wh_ID = ''sub_disc_01'', APIKeyID = ''key_enterprise_01'', URL = ''http://webhook-receiver:8083/webhook/discord'',
       SinkType = ''discord'', EncryptedSecret = ''secret_discord_sig'', wh_IsActive = True, wh_CreatedAt = now\<rparr>,
      \<lparr>wh_ID = ''sub_slack_01'', APIKeyID = ''key_enterprise_01'', URL = ''http://webhook-receiver:8083/webhook/slack'',
       SinkType = ''slack'', EncryptedSecret = ''secret_slack_sig'', wh_IsActive = True, wh_CreatedAt = now\<rparr>]"

text \<open>\<open>rnds\<close> gives the result of the random source for the nonce of each built-in key, by its id.\<close>

definition seed_input :: "(string \<Rightarrow> bytes option) \<Rightarrow> ((string \<times> string \<times> string) \<times> bytes option) list" where
  "seed_input rnds = map (\<lambda>k. (k, rnds (fst k))) seed_keys"

definition seedDefaultKeys ::
  "golib \<Rightarrow> gotime \<Rightarrow> (string \<Rightarrow> bytes option) \<Rightarrow> ('d, 'k) PostgresRepo \<Rightarrow> ('d, 'k) PostgresRepo" where
  "seedDefaultKeys lib now rnds r =
     r\<lparr>memKeys := seed_loop lib (cipher r) now (seed_input rnds) (memKeys r), webhooks := seed_webhooks now\<rparr>"

fun sync_rows :: "APIKeyRecord option list \<Rightarrow> (string, APIKeyRecord) gomap \<Rightarrow> (string, APIKeyRecord) gomap" where
  "sync_rows [] m = m"
| "sync_rows (None # rows) m = sync_rows rows m"
| "sync_rows (Some r # rows) m = sync_rows rows (gm_set (KeyHash r) r m)"

definition syncFromDB :: "('d, 'k) PostgresRepo \<Rightarrow> 'd \<Rightarrow> bool \<times> ('d, 'k) PostgresRepo" where
  "syncFromDB r d =
     (case pool r of
        None \<Rightarrow> (True, r)
      | Some P \<Rightarrow>
          (case q_api_keys P d of
             None \<Rightarrow> (False, r)
           | Some rows \<Rightarrow>
               (let r = r\<lparr>memKeys := sync_rows rows (memKeys r)\<rparr>
                in case q_webhooks P d of
                     None \<Rightarrow> (True, r)
                   | Some wRows \<Rightarrow>
                       (let whs = List.map_filter (\<lambda>w. w) wRows
                        in (True, if length whs > 0 then r\<lparr>webhooks := whs\<rparr> else r)))))"

definition RunMigrations :: "('d, 'k) PostgresRepo \<Rightarrow> 'd \<Rightarrow> bool \<times> 'd" where
  "RunMigrations r d = (case pool r of None \<Rightarrow> (True, d) | Some P \<Rightarrow> x_schema P d)"

text \<open>\<open>connect\<close> is the pool for a connection string that parses, opens and answers a ping.\<close>

definition NewPostgresRepo ::
  "golib \<Rightarrow> gotime \<Rightarrow> (string \<Rightarrow> bytes option) \<Rightarrow> (string \<Rightarrow> 'd pgpool option) \<Rightarrow> string \<Rightarrow> EnvelopeCipher
     \<Rightarrow> 'k RedisClient option \<Rightarrow> 'd \<Rightarrow> 'k \<Rightarrow> ('d, 'k) repo_sys" where
  "NewPostgresRepo lib now rnds connect dsn ec rc d k =
     (let r = seedDefaultKeys lib now rnds
                \<lparr>pool = None, cipher = ec, redisClient = rc, memKeys = [], webhooks = []\<rparr>
      in case (if dsn \<noteq> [] then connect dsn else None) of
           None \<Rightarrow> \<lparr>repo = r, db = d, kv = k\<rparr>
         | Some P \<Rightarrow>
             (let r = r\<lparr>pool := Some P\<rparr>;
                  d = snd (RunMigrations r d)
              in \<lparr>repo = snd (syncFromDB r d), db = d, kv = k\<rparr>))"

definition key_verdict :: "APIKeyRecord \<Rightarrow> key_error + APIKeyRecord" where
  "key_verdict r =
     (if RateFrozen r then Inl ErrKeyFrozen else if \<not> IsActive r then Inl ErrKeyInactive else Inr r)"

definition GetAPIKey ::
  "golib \<Rightarrow> ('d, 'k) repo_sys \<Rightarrow> string \<Rightarrow> (key_error + APIKeyRecord) \<times> ('d, 'k) repo_sys" where
  "GetAPIKey lib s rawKey =
     (let keyHash = HashKey lib rawKey;
          r = repo s
      in if (case redisClient r of None \<Rightarrow> False
             | Some rc \<Rightarrow> IsKeyFrozen rc rawKey (kv s) \<or> IsKeyFrozen rc keyHash (kv s))
         then (Inl ErrKeyFrozen, s)
         else
           (case map_of (memKeys r) keyHash of
              Some k \<Rightarrow> (key_verdict k, s)
            | None \<Rightarrow>
                (case Option.bind (pool r) (\<lambda>P. q_api_key P keyHash (db s)) of
                   None \<Rightarrow> (Inl ErrKeyNotFound, s)
                 | Some dbRec \<Rightarrow>
                     (key_verdict dbRec, s\<lparr>repo := r\<lparr>memKeys := gm_set keyHash dbRec (memKeys r)\<rparr>\<rparr>))))"

text \<open>Freezing a list of names in Redis; errors are ignored.\<close>

definition redis_freeze :: "'k RedisClient option \<Rightarrow> string list \<Rightarrow> 'k \<Rightarrow> 'k" where
  "redis_freeze rc names k =
     (case rc of None \<Rightarrow> k | Some c \<Rightarrow> fold (\<lambda>n k. snd (FreezeKey c n k)) names k)"

definition freeze_record :: "gotime \<Rightarrow> APIKeyRecord \<Rightarrow> APIKeyRecord" where
  "freeze_record now r = r\<lparr>RateFrozen := True, IsActive := False, UpdatedAt := now\<rparr>"

text \<open>The loop over the map, which stops at the first match in the order of the visit.\<close>

fun freeze_loop ::
  "(string \<Rightarrow> APIKeyRecord \<Rightarrow> bool) \<Rightarrow> (string, APIKeyRecord) gomap \<Rightarrow> string list \<Rightarrow> (string \<times> APIKeyRecord) option" where
  "freeze_loop hit m [] = None"
| "freeze_loop hit m (h # hs) =
     (case map_of m h of
        Some r \<Rightarrow> if hit h r then Some (h, r) else freeze_loop hit m hs
      | None \<Rightarrow> freeze_loop hit m hs)"

definition FreezeAPIKey ::
  "golib \<Rightarrow> string list \<Rightarrow> gotime \<Rightarrow> ('d, 'k) repo_sys \<Rightarrow> string \<Rightarrow> key_error option \<times> ('d, 'k) repo_sys" where
  "FreezeAPIKey lib order now s keyIDOrRawKey =
     (let targetHash = HashKey lib keyIDOrRawKey;
          r = repo s;
          k = redis_freeze (redisClient r) [keyIDOrRawKey, targetHash] (kv s);
          hit = (\<lambda>h r. h = targetHash \<or> rec_ID r = keyIDOrRawKey \<or> EncryptedKey r = keyIDOrRawKey);
          (found, r, k) =
            (case freeze_loop hit (memKeys r) order of
               None \<Rightarrow> (False, r, k)
             | Some (h, e) \<Rightarrow>
                 (True, r\<lparr>memKeys := gm_set h (freeze_record now e) (memKeys r)\<rparr>,
                  redis_freeze (redisClient r) [rec_ID e, KeyHash e] k));
          (found, d) =
            (case pool r of
               None \<Rightarrow> (found, db s)
             | Some P \<Rightarrow>
                 (case x_freeze P keyIDOrRawKey targetHash (db s) of
                    (None, d) \<Rightarrow> (found, d)
                  | (Some n, d) \<Rightarrow> (found \<or> n > 0, d)))
      in ((if found then None else Some ErrKeyNotFound), \<lparr>repo = r, db = d, kv = k\<rparr>))"

definition CreateAuditLog ::
  "gotime \<Rightarrow> gotime \<Rightarrow> ('d, 'k) repo_sys \<Rightarrow> string \<Rightarrow> string \<Rightarrow> string \<Rightarrow> ('d, 'k) repo_sys" where
  "CreateAuditLog idNow now s eventType payload signature =
     (let r = \<lparr>audit_ID = ''audit_'' @ show_int idNow, EventType = eventType, Payload = payload,
               Signature = signature, audit_CreatedAt = now\<rparr>
      in case pool (repo s) of
           None \<Rightarrow> s
         | Some P \<Rightarrow> s\<lparr>db := snd (x_audit P r (db s))\<rparr>)"

definition RecordBillingOverage ::
  "('d, 'k) repo_sys \<Rightarrow> string \<Rightarrow> string \<Rightarrow> i64 \<Rightarrow> float64 \<Rightarrow> bool \<times> ('d, 'k) repo_sys" where
  "RecordBillingOverage s apiKey month units cost =
     (case pool (repo s) of
        None \<Rightarrow> (True, s)
      | Some P \<Rightarrow> (case x_billing P apiKey month units cost (db s) of (ok, d) \<Rightarrow> (ok, s\<lparr>db := d\<rparr>)))"

definition GetWebhooks :: "('d, 'k) repo_sys \<Rightarrow> WebhookRecord list" where
  "GetWebhooks s = webhooks (repo s)"

definition repo_Close :: "('d, 'k) repo_sys \<Rightarrow> ('d, 'k) repo_sys" where
  "repo_Close s = (case pool (repo s) of None \<Rightarrow> s | Some P \<Rightarrow> s\<lparr>db := x_close P (db s)\<rparr>)"

subsection \<open>Sequences of calls\<close>

text \<open>Calls of the repository, and changes that others make to the servers in between.\<close>

datatype ('d, 'k) repo_op =
    OpGet string
  | OpFreeze "string list" gotime string
  | OpAudit gotime gotime string string string
  | OpBilling string string i64 float64
  | OpWebhooks
  | OpOutside "'d \<Rightarrow> 'd" "'k \<Rightarrow> 'k"

fun repo_apply :: "golib \<Rightarrow> ('d, 'k) repo_sys \<Rightarrow> ('d, 'k) repo_op \<Rightarrow> (key_error + APIKeyRecord) option \<times> ('d, 'k) repo_sys" where
  "repo_apply lib s (OpGet k) = (case GetAPIKey lib s k of (v, s') \<Rightarrow> (Some v, s'))"
| "repo_apply lib s (OpFreeze order now k) = (None, snd (FreezeAPIKey lib order now s k))"
| "repo_apply lib s (OpAudit idNow now e p g) = (None, CreateAuditLog idNow now s e p g)"
| "repo_apply lib s (OpBilling k m u c) = (None, snd (RecordBillingOverage s k m u c))"
| "repo_apply lib s OpWebhooks = (None, s)"
| "repo_apply lib s (OpOutside f g) = (None, s\<lparr>db := f (db s), kv := g (kv s)\<rparr>)"

definition frozen_in :: "golib \<Rightarrow> ('d, 'k) repo_sys \<Rightarrow> string \<Rightarrow> bool" where
  "frozen_in lib s k \<longleftrightarrow>
     (case map_of (memKeys (repo s)) (HashKey lib k) of None \<Rightarrow> False | Some r \<Rightarrow> RateFrozen r)"

section \<open>The contract of a key store\<close>

locale key_store =
  fixes apply_op :: "'s \<Rightarrow> 'o \<Rightarrow> 'r \<times> 's"
    and is_get :: "'o \<Rightarrow> string \<Rightarrow> bool"
    and rejected :: "'r \<Rightarrow> bool"
    and is_frozen :: "'s \<Rightarrow> string \<Rightarrow> bool"
  assumes frozen_get: "is_frozen s k \<Longrightarrow> is_get c k \<Longrightarrow> rejected (fst (apply_op s c))"
    and frozen_kept: "is_frozen s k \<Longrightarrow> is_frozen (snd (apply_op s c)) k"
begin

lemma frozen_run:
  "is_frozen s k \<Longrightarrow> i < length cs \<Longrightarrow> is_get (cs ! i) k \<Longrightarrow> rejected (fst (run_ops apply_op s cs) ! i)"
proof (induction cs arbitrary: s i)
  case (Cons c cs)
  show ?case
  proof (cases i)
    case 0
    with Cons.prems frozen_get show ?thesis by (simp add: run_ops_Cons del: run_ops.simps(2))
  next
    case (Suc j)
    with Cons.prems Cons.IH [OF frozen_kept] show ?thesis
      by (simp add: run_ops_Cons del: run_ops.simps(2))
  qed
qed simp

end

lemma GetAPIKey_frozen: "frozen_in lib s k \<Longrightarrow> fst (GetAPIKey lib s k) = Inl ErrKeyFrozen"
  by (auto simp: GetAPIKey_def frozen_in_def key_verdict_def Let_def split: option.splits)

lemma GetAPIKey_keeps: "frozen_in lib s k \<Longrightarrow> frozen_in lib (snd (GetAPIKey lib s k')) k"
  by (auto simp: GetAPIKey_def frozen_in_def Let_def split: option.splits)

lemma freeze_loop_hit: "freeze_loop hit m order = Some (h, e) \<Longrightarrow> map_of m h = Some e \<and> hit h e \<and> h \<in> set order"
  by (induction hit m order rule: freeze_loop.induct) (auto split: option.splits if_splits)

lemma freeze_loop_found:
  "h \<in> set order \<Longrightarrow> map_of m h = Some e \<Longrightarrow> hit h e \<Longrightarrow> freeze_loop hit m order \<noteq> None"
  by (induction hit m order rule: freeze_loop.induct) (auto split: option.splits)

lemma FreezeAPIKey_mem:
  "memKeys (repo (snd (FreezeAPIKey lib order now s k))) =
     (case freeze_loop (\<lambda>h r. h = HashKey lib k \<or> rec_ID r = k \<or> EncryptedKey r = k) (memKeys (repo s)) order of
        None \<Rightarrow> memKeys (repo s)
      | Some (h, e) \<Rightarrow> gm_set h (freeze_record now e) (memKeys (repo s)))"
  by (simp add: FreezeAPIKey_def Let_def split: option.split prod.split)

lemma FreezeAPIKey_keeps: "frozen_in lib s k \<Longrightarrow> frozen_in lib (snd (FreezeAPIKey lib order now s k')) k"
  by (auto simp: frozen_in_def FreezeAPIKey_mem freeze_record_def split: option.splits dest: freeze_loop_hit)

lemma FreezeAPIKey_freezes:
  assumes "map_of (memKeys (repo s)) (HashKey lib k) = Some r" and "set order = fst ` set (memKeys (repo s))"
    and "\<forall>(h, e) \<in> set (memKeys (repo s)). rec_ID e = k \<or> EncryptedKey e = k \<longrightarrow> h = HashKey lib k"
  shows "fst (FreezeAPIKey lib order now s k) = None \<and> frozen_in lib (snd (FreezeAPIKey lib order now s k)) k"
proof -
  let ?hit = "\<lambda>h r. h = HashKey lib k \<or> rec_ID r = k \<or> EncryptedKey r = k"
  have "HashKey lib k \<in> set order" using assms(1,2) by (force dest: map_of_SomeD)
  then obtain h e where loop: "freeze_loop ?hit (memKeys (repo s)) order = Some (h, e)"
    using freeze_loop_found [of "HashKey lib k" order "memKeys (repo s)" r ?hit] assms(1) by auto
  then have "h = HashKey lib k" using freeze_loop_hit [OF loop] assms(3) by (auto dest: map_of_SomeD)
  then have "frozen_in lib (snd (FreezeAPIKey lib order now s k)) k"
    by (simp add: frozen_in_def FreezeAPIKey_mem loop freeze_record_def)
  moreover have "fst (FreezeAPIKey lib order now s k) = None"
    by (simp add: FreezeAPIKey_def loop Let_def split: option.split prod.split)
  ultimately show ?thesis by blast
qed

lemma repo_apply_keeps: "frozen_in lib s k \<Longrightarrow> frozen_in lib (snd (repo_apply lib s c)) k"
proof (cases c)
  case (OpGet k')
  assume "frozen_in lib s k"
  then have "frozen_in lib (snd (GetAPIKey lib s k')) k" by (rule GetAPIKey_keeps)
  with OpGet show ?thesis by (auto split: prod.split)
next
  case (OpFreeze order now k')
  assume "frozen_in lib s k"
  with OpFreeze show ?thesis by (simp add: FreezeAPIKey_keeps)
qed (auto simp: frozen_in_def CreateAuditLog_def RecordBillingOverage_def Let_def
      split: option.splits prod.splits)

interpretation keys: key_store "repo_apply lib" "\<lambda>c k. c = OpGet k" "\<lambda>v. v = Some (Inl ErrKeyFrozen)" "frozen_in lib"
  for lib
proof unfold_locales
  show "fst (repo_apply lib s c) = Some (Inl ErrKeyFrozen)" if "frozen_in lib s k" "c = OpGet k"
    for s :: "('a, 'b) repo_sys" and k c
    using GetAPIKey_frozen [OF that(1)] that(2) by (auto split: prod.split)
qed (rule repo_apply_keeps)

lemma seed_loop_other:
  "h \<notin> (\<lambda>(k, rnd). HashKey lib (fst (snd k))) ` set ks \<Longrightarrow> map_of (seed_loop lib ec now ks m) h = map_of m h"
  by (induction lib ec now ks m rule: seed_loop.induct) auto

lemma seed_loop_get:
  "distinct (map (\<lambda>(k, rnd). HashKey lib (fst (snd k))) ks) \<Longrightarrow> (k, rnd) \<in> set ks \<Longrightarrow>
     map_of (seed_loop lib ec now ks m) (HashKey lib (fst (snd k))) = Some (seed_record lib ec now rnd k)"
proof (induction lib ec now ks m rule: seed_loop.induct)
  case (2 lib ec now k' rnd' ks m)
  then show ?case by (force simp: seed_loop_other)
qed simp

lemma seed_input_get:
  assumes "distinct (map (\<lambda>(kid, rawKey, tier). HashKey l rawKey) seed_keys)" and "k \<in> set seed_keys"
  shows "map_of (seed_loop l ec now (seed_input rnds) []) (HashKey l (fst (snd k))) = Some (seed_record l ec now (rnds (fst k)) k)"
  by (rule seed_loop_get) (use assms in \<open>simp_all add: seed_input_def comp_def case_prod_unfold\<close>)

lemma Decrypt_Encrypt:
  assumes "gcm_open lib (masterKey ec) n (gcm_seal lib (masterKey ec) n p) = Some p"
    and "length n = nonce_size" and "aes_key_ok (masterKey ec)"
  shows "\<exists>ct. Encrypt lib (Some n) ec p = Inr ct \<and> Decrypt lib ec ct = Inr p"
  using assms by (simp add: Encrypt_def Decrypt_def b64_roundtrip)

section \<open>Properties\<close>

text \<open>
  The seeded keys work. A repository without a database, and without a freeze flag in Redis,
  resolves each of the four built-in keys to its id and tier, and the stored ciphertext of each
  decrypts to the key itself. Assumed: the four hashes differ, the nonces are 12 random bytes, and
  AES-GCM opens what it sealed.
\<close>

theorem seeded_keys_resolve:
  assumes "distinct (map (\<lambda>(kid, rawKey, tier). HashKey lib rawKey) seed_keys)"
    and "\<And>n p. gcm_open lib (masterKey ec) n (gcm_seal lib (masterKey ec) n p) = Some p"
    and "aes_key_ok (masterKey ec)" and "\<And>kid. length (nonces kid) = nonce_size"
    and "\<And>c n. rc = Some c \<Longrightarrow> \<not> IsKeyFrozen c n k"
    and "(kid, rawKey, tier) \<in> set seed_keys"
  shows "\<exists>r. fst (GetAPIKey lib (NewPostgresRepo lib now (\<lambda>kid. Some (nonces kid)) connect [] ec rc d k) rawKey) = Inr r \<and>
     rec_ID r = kid \<and> Tier r = tier \<and> Decrypt lib ec (EncryptedKey r) = Inr rawKey"
proof -
  let ?r = "seed_record lib ec now (Some (nonces kid)) (kid, rawKey, tier)"
  have mem: "map_of (seed_loop lib ec now (seed_input (\<lambda>kid. Some (nonces kid))) []) (HashKey lib rawKey) = Some ?r"
    using seed_input_get [OF assms(1,6)] by simp
  obtain ct where ct: "Encrypt lib (Some (nonces kid)) ec rawKey = Inr ct" "Decrypt lib ec ct = Inr rawKey"
    using Decrypt_Encrypt assms(2-4) by blast
  have "fst (GetAPIKey lib (NewPostgresRepo lib now (\<lambda>kid. Some (nonces kid)) connect [] ec rc d k) rawKey) = Inr ?r"
    using assms(5) mem
    by (auto simp: GetAPIKey_def NewPostgresRepo_def seedDefaultKeys_def Let_def key_verdict_def seed_record_def
        split: option.split)
  then show ?thesis using ct by (intro exI [of _ ?r]) (simp add: seed_record_def)
qed

text \<open>For the witness, a digest that keeps the end of the message apart.\<close>

definition toy_lib2 :: golib where
  "toy_lib2 = toy_lib\<lparr>sha256_sum := (\<lambda>m. drop (length m - 4) m)\<rparr>"

theorem seeded_keys_resolve_witness:
  "\<exists>r. fst (GetAPIKey toy_lib2 (NewPostgresRepo toy_lib2 0 (\<lambda>_. Some ''123456789012'') (\<lambda>_. None) []
       \<lparr>masterKey = replicate 16 (CHR ''k'')\<rparr> None () ()) ''aegis_live_pro_key_2002'') = Inr r \<and> Tier r = ''pro''"
proof -
  have "distinct (map (\<lambda>(id, rawKey, tier). HashKey toy_lib2 rawKey) seed_keys)" by code_simp
  then show ?thesis
    using seeded_keys_resolve [of toy_lib2 "\<lparr>masterKey = replicate 16 (CHR ''k'')\<rparr>" "\<lambda>_. ''123456789012''"
        None "()" "''key_pro_01''" "''aegis_live_pro_key_2002''" "''pro''" 0 "\<lambda>_. None :: unit pgpool option" "()"]
    by (fastforce simp: toy_lib2_def toy_lib_def aes_key_ok_def nonce_size_def seed_keys_def)
qed

text \<open>
  C13. The kill switch holds. Freezing a raw key that is in the shadow map, when no other record has
  that string as its id or ciphertext, succeeds, and from then on every lookup of the key is
  rejected as frozen: through any later lookups, freezes, audit and billing calls, and whatever
  Redis and PostgreSQL answer or have done to them from outside.
\<close>

theorem freeze_is_final:
  assumes "map_of (memKeys (repo s)) (HashKey lib k) = Some r" and "set order = fst ` set (memKeys (repo s))"
    and "\<forall>(h, e) \<in> set (memKeys (repo s)). rec_ID e = k \<or> EncryptedKey e = k \<longrightarrow> h = HashKey lib k"
    and "i < length cs" and "cs ! i = OpGet k"
  shows "fst (FreezeAPIKey lib order now s k) = None \<and>
    fst (run_ops (repo_apply lib) (snd (FreezeAPIKey lib order now s k)) cs) ! i = Some (Inl ErrKeyFrozen)"
proof -
  from FreezeAPIKey_freezes [OF assms(1-3)]
  have found: "fst (FreezeAPIKey lib order now s k) = None"
    and "frozen_in lib (snd (FreezeAPIKey lib order now s k)) k" by simp_all
  then have "fst (run_ops (repo_apply lib) (snd (FreezeAPIKey lib order now s k)) cs) ! i = Some (Inl ErrKeyFrozen)"
    using keys.frozen_run assms(4,5) by blast
  with found show ?thesis by blast
qed

definition sample_record :: APIKeyRecord where
  "sample_record = \<lparr>rec_ID = ''id1'', KeyHash = HashKey toy_lib ''raw'', EncryptedKey = ''enc'', Tier = ''free'',
     IsActive = True, RateFrozen = False, CreatedAt = 0, UpdatedAt = 0\<rparr>"

definition sample_repo :: "(unit, unit) repo_sys" where
  "sample_repo = \<lparr>repo = \<lparr>pool = None, cipher = \<lparr>masterKey = []\<rparr>, redisClient = None,
     memKeys = [(HashKey toy_lib ''raw'', sample_record)], webhooks = []\<rparr>, db = (), kv = ()\<rparr>"

theorem freeze_is_final_witness:
  "fst (run_ops (repo_apply toy_lib) (snd (FreezeAPIKey toy_lib [HashKey toy_lib ''raw''] 7 sample_repo ''raw''))
     [OpAudit 1 1 [] [] [], OpGet ''raw'']) ! 1 = Some (Inl ErrKeyFrozen)"
  using freeze_is_final [of sample_repo toy_lib "''raw''" sample_record "[HashKey toy_lib ''raw'']" 1
      "[OpAudit 1 1 [] [] [], OpGet ''raw'']" 7]
  by (simp add: sample_repo_def sample_record_def)

text \<open>
  A key of the shadow map is never read from PostgreSQL again. While no Redis flag is set, its
  lookup returns the same verdict whatever the database holds, and changes nothing. A freeze
  made through another gateway reaches this one only by its Redis flags, which expire after 24
  hours; after that the key is accepted here again.
\<close>

theorem shadow_hides_db:
  assumes "map_of (memKeys (repo s)) (HashKey lib k) = Some r"
    and "\<And>rc n. redisClient (repo s) = Some rc \<Longrightarrow> \<not> IsKeyFrozen rc n (kv s)"
  shows "GetAPIKey lib (s\<lparr>db := d\<rparr>) k = (key_verdict r, s\<lparr>db := d\<rparr>)"
  using assms by (auto simp: GetAPIKey_def Let_def split: option.split)

theorem shadow_hides_db_witness:
  "fst (GetAPIKey toy_lib (sample_repo\<lparr>db := ()\<rparr>) ''raw'') = Inr sample_record"
  using shadow_hides_db [of sample_repo toy_lib "''raw''" sample_record "()"]
  by (simp add: sample_repo_def key_verdict_def sample_record_def)

end
