(* ===== verification/Rate_Limit.thy ===== *)
theory Rate_Limit
  imports Go_Strings
begin

text \<open>
  \<^verbatim>\<open>internal/ratelimit/limiter.go\<close>: the result type, the \<open>Limiter\<close> interface and the
  in-memory sliding-window limiter.

  \<^item> \<open>rate_limit_result\<close>, \<open>ApplyHeaders\<close>: the verdict of a check and its HTTP headers.
  \<^item> \<open>InMemoryLimiter\<close>, \<open>mem_Check\<close>: per key the list of admission times in Unix seconds,
    pruned by the standard library's binary search \<open>sort_search\<close>. A check is one atomic step
    (the source holds the mutex for its whole body); the clock reading is an argument.
  \<^item> \<open>spec_check\<close>: the abstract limiter, which never forgets an admission and counts those
    inside the window. \<open>mem_refines_spec\<close> shows that pruning loses nothing.
  \<^item> \<open>rate_limiter\<close>: the contract of Go's \<open>Limiter\<close> interface as a locale, with the two
    consequences the gateway relies on: no burst admission while the freeze is on, and the
    overage counter counts the burst admissions of the key.
\<close>

section \<open>Definitions\<close>

record rate_limit_result =
  Status :: string
  Count :: i64
  Limit :: i64
  Remaining :: i64
  BurstLimit :: i64
  BurstRemaining :: i64

definition ApplyHeaders :: "rate_limit_result \<Rightarrow> http_header \<Rightarrow> http_header" where
  "ApplyHeaders r h =
     hdr_set ''X-RateLimit-Status'' (Status r)
       (hdr_set ''X-RateLimit-Burst-Remaining'' (show_int (BurstRemaining r))
         (hdr_set ''X-RateLimit-Burst-Limit'' (show_int (BurstLimit r))
           (hdr_set ''X-RateLimit-Remaining'' (show_int (Remaining r))
             (hdr_set ''X-RateLimit-Limit'' (show_int (Limit r)) h))))"

record InMemoryLimiter =
  windows :: "(string, i64 list) gomap"
  overages :: "(string, i64) gomap"
  globalBurstFreeze :: bool

definition NewInMemoryLimiter :: InMemoryLimiter where
  "NewInMemoryLimiter = \<lparr>windows = [], overages = [], globalBurstFreeze = False\<rparr>"

definition mem_SetGlobalBurstFreeze :: "bool \<Rightarrow> InMemoryLimiter \<Rightarrow> InMemoryLimiter" where
  "mem_SetGlobalBurstFreeze frozen m = m\<lparr>globalBurstFreeze := frozen\<rparr>"

definition mem_IsGlobalBurstFrozen :: "InMemoryLimiter \<Rightarrow> bool" where
  "mem_IsGlobalBurstFrozen m = globalBurstFreeze m"

text \<open>The loop of \<open>sort.Search\<close>.\<close>

function search_loop :: "(nat \<Rightarrow> bool) \<Rightarrow> nat \<Rightarrow> nat \<Rightarrow> nat" where
  "search_loop f i j =
     (if i < j then
        (let h = (i + j) div 2
         in if \<not> f h then search_loop f (h + 1) j else search_loop f i h)
      else i)"
  by pat_completeness auto
termination
  by (relation "measure (\<lambda>(f, i, j). j - i)") auto

declare search_loop.simps [simp del]

definition sort_search :: "nat \<Rightarrow> (nat \<Rightarrow> bool) \<Rightarrow> nat" where
  "sort_search n f = search_loop f 0 n"

text \<open>One call of \<open>Check\<close>: the clock reading in seconds and the call's arguments.\<close>

record check_call =
  call_now :: i64
  call_apiKey :: string
  call_tier :: string
  call_softLimit :: i64
  call_hardLimit :: i64
  call_windowSec :: i64

definition mem_Check :: "InMemoryLimiter \<Rightarrow> check_call \<Rightarrow> rate_limit_result \<times> InMemoryLimiter" where
  "mem_Check m c =
     (let minTime = wrap64 (call_now c - call_windowSec c);
          timestamps = gm_val [] (windows m) (call_apiKey c);
          idx = sort_search (length timestamps) (\<lambda>i. timestamps ! i > minTime);
          timestamps = (if idx > 0 then drop idx timestamps else timestamps);
          count = int (length timestamps);
          burstLimit = wrap64 (call_hardLimit c - call_softLimit c);
          burstLimit = (if burstLimit < 0 then 0 else burstLimit)
      in if count < call_softLimit c then
           let timestamps = timestamps @ [call_now c];
               remaining = wrap64 (call_softLimit c - wrap64 (count + 1))
           in (\<lparr>Status = ''NORMAL'', Count = wrap64 (count + 1), Limit = call_softLimit c,
                Remaining = remaining, BurstLimit = burstLimit, BurstRemaining = burstLimit\<rparr>,
               m\<lparr>windows := gm_set (call_apiKey c) timestamps (windows m)\<rparr>)
         else if count < call_hardLimit c \<and> \<not> globalBurstFreeze m then
           let timestamps = timestamps @ [call_now c];
               burstRem = wrap64 (call_hardLimit c - wrap64 (count + 1))
           in (\<lparr>Status = ''BURST'', Count = wrap64 (count + 1), Limit = call_softLimit c,
                Remaining = 0, BurstLimit = burstLimit, BurstRemaining = burstRem\<rparr>,
               m\<lparr>windows := gm_set (call_apiKey c) timestamps (windows m),
                 overages := gm_set (call_apiKey c)
                   (wrap64 (gm_val 0 (overages m) (call_apiKey c) + 1)) (overages m)\<rparr>)
         else
           (\<lparr>Status = ''BLOCKED'', Count = count, Limit = call_softLimit c,
             Remaining = 0, BurstLimit = burstLimit, BurstRemaining = 0\<rparr>, m))"

definition mem_GetOverageUnits :: "InMemoryLimiter \<Rightarrow> string \<Rightarrow> i64" where
  "mem_GetOverageUnits m k = gm_val 0 (overages m) k"

definition mem_GetAllOverages :: "InMemoryLimiter \<Rightarrow> (string, i64) gomap" where
  "mem_GetAllOverages m = gm_copy (overages m) []"

subsection \<open>The abstract limiter\<close>

record spec_limiter =
  admissions :: "string \<Rightarrow> i64 list"
  bursts :: "string \<Rightarrow> i64"
  frozen :: bool

definition in_window :: "i64 \<Rightarrow> i64 \<Rightarrow> i64 list \<Rightarrow> int" where
  "in_window w t ts = int (length (filter (\<lambda>u. t - w < u \<and> u \<le> t) ts))"

definition admits :: "spec_limiter \<Rightarrow> check_call \<Rightarrow> bool" where
  "admits s c \<longleftrightarrow>
     (let n = in_window (call_windowSec c) (call_now c) (admissions s (call_apiKey c))
      in n < call_softLimit c \<or> (n < call_hardLimit c \<and> \<not> frozen s))"

definition spec_check :: "spec_limiter \<Rightarrow> check_call \<Rightarrow> rate_limit_result \<times> spec_limiter" where
  "spec_check s c =
     (let n = in_window (call_windowSec c) (call_now c) (admissions s (call_apiKey c));
          burst = max 0 (wrap64 (call_hardLimit c - call_softLimit c));
          normal = (n < call_softLimit c);
          used = (if admits s c then n + 1 else n)
      in (\<lparr>Status = (if normal then ''NORMAL'' else if admits s c then ''BURST'' else ''BLOCKED''),
           Count = used, Limit = call_softLimit c,
           Remaining = (if normal then call_softLimit c - used else 0),
           BurstLimit = burst,
           BurstRemaining = (if normal then burst
                             else if admits s c then call_hardLimit c - used else 0)\<rparr>,
          s\<lparr>admissions := (if admits s c
               then (admissions s)(call_apiKey c := admissions s (call_apiKey c) @ [call_now c])
               else admissions s),
            bursts := (if admits s c \<and> \<not> normal
               then (bursts s)(call_apiKey c := wrap64 (bursts s (call_apiKey c) + 1)) else bursts s)\<rparr>))"

definition spec_init :: spec_limiter where
  "spec_init = \<lparr>admissions = (\<lambda>_. []), bursts = (\<lambda>_. 0), frozen = False\<rparr>"

text \<open>
  What a sequence of calls must satisfy: the clock never runs backwards, readings and limits
  are int64 values, times are not negative, and the window of a key does not change.
\<close>

definition clock_ok :: "(string \<Rightarrow> i64) \<Rightarrow> check_call list \<Rightarrow> bool" where
  "clock_ok W cs \<longleftrightarrow>
     sorted (map call_now cs) \<and>
     list_all (\<lambda>c. 0 \<le> call_now c \<and> in_i64 (call_now c) \<and> in_i64 (call_softLimit c) \<and> in_i64 (call_hardLimit c) \<and>
        call_windowSec c = W (call_apiKey c) \<and> 0 \<le> call_windowSec c \<and> in_i64 (call_windowSec c)) cs"

text \<open>The times at which the checks of a key were admitted.\<close>

fun admitted :: "string \<Rightarrow> check_call list \<Rightarrow> rate_limit_result list \<Rightarrow> i64 list" where
  "admitted k (c # cs) (r # rs) =
     (if call_apiKey c = k \<and> Status r \<noteq> ''BLOCKED'' then [call_now c] else []) @ admitted k cs rs"
| "admitted k _ _ = []"

definition burst_count :: "string \<Rightarrow> ('c \<Rightarrow> string) \<Rightarrow> 'c list \<Rightarrow> rate_limit_result list \<Rightarrow> int" where
  "burst_count k key_of cs rs =
     int (length (filter (\<lambda>(c, r). key_of c = k \<and> Status r = ''BURST'') (zip cs rs)))"

section \<open>The Limiter interface\<close>

locale rate_limiter =
  fixes check :: "'s \<Rightarrow> 'c \<Rightarrow> rate_limit_result \<times> 's"
    and key_of :: "'c \<Rightarrow> string"
    and set_freeze :: "bool \<Rightarrow> 's \<Rightarrow> 's"
    and is_frozen :: "'s \<Rightarrow> bool"
    and overage :: "'s \<Rightarrow> string \<Rightarrow> i64"
  assumes frozen_set: "is_frozen (set_freeze b s) = b"
    and overage_set: "overage (set_freeze b s) k = overage s k"
    and frozen_check: "is_frozen (snd (check s c)) = is_frozen s"
    and status_check: "Status (fst (check s c)) \<in> {''NORMAL'', ''BURST'', ''BLOCKED''}"
    and no_burst_frozen: "is_frozen s \<Longrightarrow> Status (fst (check s c)) \<noteq> ''BURST''"
    and overage_check: "overage (snd (check s c)) k =
      (if key_of c = k \<and> Status (fst (check s c)) = ''BURST''
       then wrap64 (overage s k + 1) else overage s k)"
begin

lemma run_no_burst:
  "is_frozen s \<Longrightarrow> r \<in> set (fst (run_ops check s cs)) \<Longrightarrow> Status r \<noteq> ''BURST''"
proof (induction cs arbitrary: s)
  case (Cons c cs)
  show ?case
    using Cons.prems Cons.IH [of "snd (check s c)"] no_burst_frozen [of s c]
    by (auto simp: run_ops_Cons frozen_check simp del: run_ops.simps(2))
qed simp

lemma run_status:
  "r \<in> set (fst (run_ops check s cs)) \<Longrightarrow> Status r \<in> {''NORMAL'', ''BURST'', ''BLOCKED''}"
  using status_check
  by (induction cs arbitrary: s) (auto simp: run_ops_Cons simp del: run_ops.simps(2))

lemma run_overage:
  "wrap64 (overage (snd (run_ops check s cs)) k) =
     wrap64 (overage s k + burst_count k key_of cs (fst (run_ops check s cs)))"
proof (induction cs arbitrary: s)
  case Nil
  show ?case by (simp add: burst_count_def)
next
  case (Cons c cs)
  let ?s = "snd (check s c)" and ?rs = "fst (run_ops check (snd (check s c)) cs)"
  have "burst_count k key_of (c # cs) (fst (check s c) # ?rs) =
      (if key_of c = k \<and> Status (fst (check s c)) = ''BURST'' then 1 else 0)
      + burst_count k key_of cs ?rs"
    by (simp add: burst_count_def)
  then show ?case
    using Cons.IH [of ?s]
    by (simp add: run_ops_Cons overage_check add.assoc del: run_ops.simps(2))
qed

text \<open>Setting the freeze and then running any calls yields no burst admission.\<close>

lemma freeze_then_run:
  "r \<in> set (fst (run_ops check (set_freeze True s) cs)) \<Longrightarrow> Status r \<noteq> ''BURST''"
  using run_no_burst [of "set_freeze True s"] frozen_set by blast

end

section \<open>Binary search and pruning\<close>

lemma search_loop_spec:
  assumes "i \<le> j" and "j \<le> n"
    and "\<And>a b. a \<le> b \<Longrightarrow> b < n \<Longrightarrow> f a \<Longrightarrow> f b"
    and "\<And>a. a < i \<Longrightarrow> \<not> f a" and "\<And>a. j \<le> a \<Longrightarrow> a < n \<Longrightarrow> f a"
  shows "search_loop f i j \<le> n \<and> (\<forall>a < search_loop f i j. \<not> f a) \<and>
     (\<forall>a < n. search_loop f i j \<le> a \<longrightarrow> f a)"
  using assms
proof (induction f i j rule: search_loop.induct)
  case (1 f i j)
  let ?h = "(i + j) div 2"
  show ?case
  proof (cases "i < j")
    case False
    then have "search_loop f i j = i" by (simp add: search_loop.simps [of f i j])
    with False "1.prems" show ?thesis by auto
  next
    case True
    then have h: "i \<le> ?h" "?h < j" by auto
    show ?thesis
    proof (cases "f ?h")
      case fh: True
      have "\<And>a. ?h \<le> a \<Longrightarrow> a < n \<Longrightarrow> f a" using "1.prems"(3) fh by blast
      with "1.IH"(2) [OF True refl] fh h "1.prems"
      show ?thesis by (simp add: search_loop.simps [of f i j] True Let_def)
    next
      case fh: False
      have "\<And>a. a < ?h + 1 \<Longrightarrow> \<not> f a"
        using "1.prems"(2,3) fh h by (metis Suc_eq_plus1 less_Suc_eq_le order_less_le_trans)
      with "1.IH"(1) [OF True refl] fh h "1.prems"
      show ?thesis by (simp add: search_loop.simps [of f i j] True Let_def)
    qed
  qed
qed

lemma sort_search_sorted:
  assumes "sorted ts"
  shows "sort_search (length ts) (\<lambda>i. ts ! i > x) = length (takeWhile (\<lambda>t. t \<le> x) ts)"
proof -
  let ?f = "\<lambda>i. ts ! i > x" and ?r = "sort_search (length ts) (\<lambda>i. ts ! i > x)"
  have mono: "a \<le> b \<Longrightarrow> b < length ts \<Longrightarrow> ?f a \<Longrightarrow> ?f b" for a b
    using assms by (meson less_le_trans sorted_nth_mono)
  have "?r \<le> length ts \<and> (\<forall>a < ?r. \<not> ?f a) \<and> (\<forall>a < length ts. ?r \<le> a \<longrightarrow> ?f a)"
    unfolding sort_search_def
    by (rule search_loop_spec) (use mono in simp_all)
  then have r: "?r \<le> length ts" "\<And>a. a < ?r \<Longrightarrow> \<not> ?f a" "\<And>a. a < length ts \<Longrightarrow> ?r \<le> a \<Longrightarrow> ?f a"
    by blast+
  have "takeWhile (\<lambda>t. t \<le> x) ts = take ?r ts"
  proof (rule takeWhile_eq_take_P_nth)
    show "ts ! a \<le> x" if "a < ?r" for a using r(2) [OF that] by simp
    show "\<not> ts ! ?r \<le> x" if "?r < length ts" using r(3) [OF that] by simp
  qed
  with r(1) show ?thesis by simp
qed

lemma filter_sorted_dropWhile:
  "sorted ts \<Longrightarrow> filter (\<lambda>t. x < t) ts = dropWhile (\<lambda>t. t \<le> (x::int)) ts"
proof (induction ts)
  case (Cons a ts)
  show ?case
  proof (cases "a \<le> x")
    case True
    with Cons show ?thesis by simp
  next
    case False
    with Cons.prems have "\<forall>t \<in> set (a # ts). x < t" by auto
    then have "filter (\<lambda>t. x < t) (a # ts) = a # ts" by (intro filter_True)
    with False show ?thesis by simp
  qed
qed simp

text \<open>The code's pruning is a filter when the stored times are sorted.\<close>

lemma prune_sorted:
  assumes "sorted (ts :: i64 list)"
  shows "(let idx = sort_search (length ts) (\<lambda>i. ts ! i > x)
          in if idx > 0 then drop idx ts else ts) = filter (\<lambda>t. x < t) ts"
  using assms
  by (simp add: sort_search_sorted filter_sorted_dropWhile dropWhile_eq_drop Let_def)

section \<open>Refinement of the abstract limiter\<close>

definition key_rel :: "i64 \<Rightarrow> i64 \<Rightarrow> i64 list \<Rightarrow> i64 list \<Rightarrow> bool" where
  "key_rel w t ts log \<longleftrightarrow>
     sorted log \<and> (\<forall>u \<in> set log. u \<le> t) \<and>
     (\<exists>n. ts = drop n log \<and> (\<forall>u \<in> set (take n log). u \<le> t - w))"

definition mem_rel :: "(string \<Rightarrow> i64) \<Rightarrow> i64 \<Rightarrow> InMemoryLimiter \<Rightarrow> spec_limiter \<Rightarrow> bool" where
  "mem_rel W t m s \<longleftrightarrow>
     frozen s = globalBurstFreeze m \<and> (\<forall>k. bursts s k = gm_val 0 (overages m) k) \<and>
     (\<forall>k. key_rel (W k) t (gm_val [] (windows m) k) (admissions s k))"

lemma key_rel_mono: "key_rel w t ts log \<Longrightarrow> t \<le> t' \<Longrightarrow> key_rel w t' ts log"
  unfolding key_rel_def by (force intro: order_trans)

lemma key_rel_prune:
  assumes "key_rel w t ts log" and "t \<le> t'"
  shows "filter (\<lambda>u. t' - w < u) ts = filter (\<lambda>u. t' - w < u \<and> u \<le> t') log"
proof -
  obtain n where ts: "ts = drop n log" and old: "\<forall>u \<in> set (take n log). u \<le> t - w"
    and le: "\<forall>u \<in> set log. u \<le> t"
    using assms(1) by (auto simp: key_rel_def)
  have "filter (\<lambda>u. t' - w < u \<and> u \<le> t') log = filter (\<lambda>u. t' - w < u) log"
    using le assms(2) by (intro filter_cong) auto
  also have "\<dots> = filter (\<lambda>u. t' - w < u) (take n log) @ filter (\<lambda>u. t' - w < u) (drop n log)"
    by (metis append_take_drop_id filter_append)
  also have "filter (\<lambda>u. t' - w < u) (take n log) = []"
    using old assms(2) by (fastforce simp: filter_empty_conv)
  finally show ?thesis by (simp add: ts)
qed

lemma key_rel_sorted: "key_rel w t ts log \<Longrightarrow> sorted ts"
  by (auto simp: key_rel_def sorted_wrt_drop)

lemma key_rel_admit:
  assumes "key_rel w t ts log" and "t \<le> t'"
  shows "key_rel w t' (filter (\<lambda>u. t' - w < u) ts @ [t']) (log @ [t'])"
proof -
  have srt: "sorted log" and le: "\<forall>u \<in> set log. u \<le> t"
    using assms(1) by (auto simp: key_rel_def)
  let ?n = "length (takeWhile (\<lambda>u. u \<le> t' - w) log)"
  have "filter (\<lambda>u. t' - w < u) ts = filter (\<lambda>u. t' - w < u) log"
    unfolding key_rel_prune [OF assms] using le assms(2) by (intro filter_cong) auto
  also have "\<dots> = drop ?n log"
    using srt by (simp add: filter_sorted_dropWhile dropWhile_eq_drop)
  finally have "filter (\<lambda>u. t' - w < u) ts @ [t'] = drop ?n (log @ [t'])"
    by (simp add: length_takeWhile_le)
  moreover have "\<forall>u \<in> set (take ?n (log @ [t'])). u \<le> t' - w"
    by (auto simp: length_takeWhile_le takeWhile_eq_take [symmetric] dest: set_takeWhileD)
  moreover have "sorted (log @ [t'])" and "\<forall>u \<in> set (log @ [t']). u \<le> t'"
    using srt le assms(2) by (auto simp: sorted_append intro: order_trans)
  ultimately show ?thesis unfolding key_rel_def by blast
qed

text \<open>One check of the code is one check of the abstract limiter.\<close>

lemma mem_Check_step:
  assumes rel: "mem_rel W t m s" and le: "t \<le> call_now c" and ok: "clock_ok W [c]"
  shows "fst (mem_Check m c) = fst (spec_check s c)"
    and "mem_rel W (call_now c) (snd (mem_Check m c)) (snd (spec_check s c))"
proof -
  let ?k = "call_apiKey c" and ?now = "call_now c" and ?w = "call_windowSec c"
  let ?ts = "gm_val [] (windows m) ?k" and ?log = "admissions s ?k"
  have kr: "key_rel ?w t ?ts ?log" and fr: "frozen s = globalBurstFreeze m"
    and bu: "\<And>k. bursts s k = gm_val 0 (overages m) k"
    and krs: "\<And>k. key_rel (W k) ?now (gm_val [] (windows m) k) (admissions s k)"
    and wk: "?w = W ?k"
    using rel ok le by (auto simp: mem_rel_def clock_ok_def intro: key_rel_mono)
  have min: "wrap64 (?now - ?w) = ?now - ?w"
    using ok by (intro wrap64_diff_nonneg) (auto simp: clock_ok_def)
  have prune: "(let idx = sort_search (length ?ts) (\<lambda>i. ?ts ! i > ?now - ?w)
       in if idx > 0 then drop idx ?ts else ?ts) = filter (\<lambda>u. ?now - ?w < u) ?ts"
    by (rule prune_sorted) (rule key_rel_sorted [OF kr])
  have cnt: "int (length (filter (\<lambda>u. ?now - ?w < u) ?ts)) = in_window ?w ?now ?log"
    by (simp add: in_window_def key_rel_prune [OF kr le])
  have n0: "0 \<le> in_window ?w ?now ?log" by (simp add: in_window_def)
  have i64s: "in_i64 (call_softLimit c)" "in_i64 (call_hardLimit c)"
    using ok by (auto simp: clock_ok_def)
  have w1: "wrap64 (in_window ?w ?now ?log + 1) = in_window ?w ?now ?log + 1"
    if "in_window ?w ?now ?log < call_softLimit c \<or> in_window ?w ?now ?log < call_hardLimit c"
    using that n0 i64s wrap64_incr by blast
  have w2: "wrap64 (b - (in_window ?w ?now ?log + 1)) = b - (in_window ?w ?now ?log + 1)"
    if "in_window ?w ?now ?log < b" "in_i64 b" for b
    using that n0 by (intro wrap64_id) (auto simp: in_i64_def)
  note eqs = mem_Check_def Let_def min prune [unfolded Let_def] cnt
  consider (normal) "in_window ?w ?now ?log < call_softLimit c"
    | (burst) "\<not> in_window ?w ?now ?log < call_softLimit c"
        "in_window ?w ?now ?log < call_hardLimit c" "\<not> globalBurstFreeze m"
    | (blocked) "\<not> in_window ?w ?now ?log < call_softLimit c"
        "\<not> (in_window ?w ?now ?log < call_hardLimit c \<and> \<not> globalBurstFreeze m)"
    by blast
  note split = this
  show "fst (mem_Check m c) = fst (spec_check s c)"
    using split
  proof cases
    case normal
    with w1 w2 i64s show ?thesis
      unfolding eqs by (simp add: spec_check_def admits_def max_def Let_def)
  next
    case burst
    with w1 w2 i64s fr show ?thesis
      unfolding eqs by (simp add: spec_check_def admits_def max_def Let_def)
  next
    case blocked
    with fr show ?thesis
      unfolding eqs by (auto simp: spec_check_def admits_def max_def Let_def)
  qed
  show "mem_rel W ?now (snd (mem_Check m c)) (snd (spec_check s c))"
    using split
  proof cases
    case normal
    with krs bu key_rel_admit [OF kr le] fr wk show ?thesis
      unfolding eqs by (simp add: mem_rel_def spec_check_def admits_def Let_def)
  next
    case burst
    with krs bu key_rel_admit [OF kr le] fr wk show ?thesis
      unfolding eqs by (simp add: mem_rel_def spec_check_def admits_def Let_def)
  next
    case blocked
    with krs bu fr show ?thesis
      unfolding eqs by (auto simp: mem_rel_def spec_check_def admits_def Let_def)
  qed
qed

lemma clock_ok_Cons:
  "clock_ok W (c # cs) \<longleftrightarrow>
     clock_ok W [c] \<and> clock_ok W cs \<and> (\<forall>d \<in> set cs. call_now c \<le> call_now d)"
  by (auto simp: clock_ok_def)

lemma mem_run_refines:
  assumes "mem_rel W t m s" and "clock_ok W cs" and "\<forall>c \<in> set cs. t \<le> call_now c"
  shows "fst (run_ops mem_Check m cs) = fst (run_ops spec_check s cs) \<and>
     (\<exists>t'. mem_rel W t' (snd (run_ops mem_Check m cs)) (snd (run_ops spec_check s cs)))"
  using assms
proof (induction cs arbitrary: t m s)
  case Nil
  then show ?case by auto
next
  case (Cons c cs)
  from Cons.prems(2) have ok: "clock_ok W [c]" "clock_ok W cs"
    and later: "\<forall>d \<in> set cs. call_now c \<le> call_now d"
    unfolding clock_ok_Cons [of W c cs] by simp_all
  have le: "t \<le> call_now c" using Cons.prems(3) by simp
  note step = mem_Check_step [OF Cons.prems(1) le ok(1)]
  from Cons.IH [OF step(2) ok(2) later] step(1) show ?case
    by (simp add: run_ops_Cons del: run_ops.simps(2))
qed

lemma mem_rel_init: "mem_rel W t NewInMemoryLimiter spec_init"
  by (simp add: mem_rel_def NewInMemoryLimiter_def spec_init_def key_rel_def)

section \<open>The window bound\<close>

definition spec_bounded :: "(string \<Rightarrow> i64) \<Rightarrow> string \<Rightarrow> i64 \<Rightarrow> i64 \<Rightarrow> spec_limiter \<Rightarrow> bool" where
  "spec_bounded W k B t s \<longleftrightarrow>
     (\<forall>u \<in> set (admissions s k). u \<le> t) \<and> (\<forall>T. in_window (W k) T (admissions s k) \<le> max 0 B)"

lemma in_window_append:
  "in_window w T (xs @ [t]) = in_window w T xs + (if T - w < t \<and> t \<le> T then 1 else 0)"
  by (simp add: in_window_def)

lemma length_filter_mono_imp:
  "(\<And>x. x \<in> set xs \<Longrightarrow> P x \<Longrightarrow> Q x) \<Longrightarrow> length (filter P xs) \<le> length (filter Q xs)"
  by (induction xs) auto

lemma in_window_mono:
  "t \<le> T \<Longrightarrow> \<forall>u \<in> set xs. u \<le> t \<Longrightarrow> in_window w T xs \<le> in_window w t xs"
  unfolding in_window_def by (auto intro!: length_filter_mono_imp)

lemma spec_check_bounded:
  assumes bd: "spec_bounded W k B t s" and le: "t \<le> call_now c"
    and w: "call_windowSec c = W (call_apiKey c)"
    and lim: "call_apiKey c = k \<Longrightarrow> call_softLimit c \<le> B \<and> call_hardLimit c \<le> B"
  shows "spec_bounded W k B (call_now c) (snd (spec_check s c))"
proof (cases "call_apiKey c = k \<and> admits s c")
  case False
  with bd le show ?thesis
    by (auto simp: spec_bounded_def spec_check_def Let_def intro: order_trans)
next
  case True
  let ?log = "admissions s k" and ?now = "call_now c"
  have adm: "admissions (snd (spec_check s c)) k = ?log @ [?now]"
    using True by (auto simp: spec_check_def Let_def)
  have old: "\<forall>u \<in> set ?log. u \<le> ?now"
    using bd le by (force simp: spec_bounded_def)
  have new: "in_window (W k) ?now ?log < B"
    using True lim w by (auto simp: admits_def Let_def)
  have "in_window (W k) T (?log @ [?now]) \<le> max 0 B" for T
    using new in_window_mono [OF _ old, of T "W k"] bd
    by (fastforce simp: in_window_append spec_bounded_def)
  with old show ?thesis by (simp add: spec_bounded_def adm)
qed

lemma spec_run_bounded:
  assumes "spec_bounded W k B t s" and "clock_ok W cs" and "\<forall>c \<in> set cs. t \<le> call_now c"
    and "\<forall>c \<in> set cs. call_apiKey c = k \<longrightarrow> call_softLimit c \<le> B \<and> call_hardLimit c \<le> B"
  shows "\<exists>t'. spec_bounded W k B t' (snd (run_ops spec_check s cs))"
  using assms
proof (induction cs arbitrary: t s)
  case Nil
  then show ?case by auto
next
  case (Cons c cs)
  from Cons.prems(2) have ok: "clock_ok W [c]" "clock_ok W cs"
    and later: "\<forall>d \<in> set cs. call_now c \<le> call_now d"
    unfolding clock_ok_Cons [of W c cs] by simp_all
  have "spec_bounded W k B (call_now c) (snd (spec_check s c))"
    using Cons.prems ok(1) by (intro spec_check_bounded) (auto simp: clock_ok_def)
  from Cons.IH [OF this ok(2) later] Cons.prems(4) show ?case
    by (simp add: run_ops_Cons del: run_ops.simps(2))
qed

lemma spec_run_admitted:
  "admissions (snd (run_ops spec_check s cs)) k =
     admissions s k @ admitted k cs (fst (run_ops spec_check s cs))"
proof (induction cs arbitrary: s)
  case (Cons c cs)
  have "admissions (snd (spec_check s c)) k =
      admissions s k @ (if call_apiKey c = k \<and> Status (fst (spec_check s c)) \<noteq> ''BLOCKED''
        then [call_now c] else [])"
    by (auto simp: spec_check_def admits_def Let_def)
  with Cons.IH [of "snd (spec_check s c)"] show ?case
    by (simp add: run_ops_Cons del: run_ops.simps(2))
qed simp

section \<open>The in-memory limiter implements the interface\<close>

lemma mem_Check_frozen: "globalBurstFreeze (snd (mem_Check m c)) = globalBurstFreeze m"
  by (simp add: mem_Check_def Let_def)

lemma mem_Check_status: "Status (fst (mem_Check m c)) \<in> {''NORMAL'', ''BURST'', ''BLOCKED''}"
  by (simp add: mem_Check_def Let_def)

interpretation mem: rate_limiter mem_Check call_apiKey mem_SetGlobalBurstFreeze
  mem_IsGlobalBurstFrozen mem_GetOverageUnits
proof unfold_locales
  show "mem_IsGlobalBurstFrozen (mem_SetGlobalBurstFreeze b s) = b" for b s
    by (simp add: mem_IsGlobalBurstFrozen_def mem_SetGlobalBurstFreeze_def)
  show "mem_GetOverageUnits (mem_SetGlobalBurstFreeze b s) k = mem_GetOverageUnits s k" for b s k
    by (simp add: mem_GetOverageUnits_def mem_SetGlobalBurstFreeze_def)
  show "mem_IsGlobalBurstFrozen (snd (mem_Check s c)) = mem_IsGlobalBurstFrozen s" for s c
    by (simp add: mem_IsGlobalBurstFrozen_def mem_Check_frozen)
  show "Status (fst (mem_Check s c)) \<in> {''NORMAL'', ''BURST'', ''BLOCKED''}" for s c
    by (rule mem_Check_status)
  show "mem_IsGlobalBurstFrozen s \<Longrightarrow> Status (fst (mem_Check s c)) \<noteq> ''BURST''" for s c
    by (simp add: mem_IsGlobalBurstFrozen_def mem_Check_def Let_def)
  show "mem_GetOverageUnits (snd (mem_Check s c)) k =
      (if call_apiKey c = k \<and> Status (fst (mem_Check s c)) = ''BURST''
       then wrap64 (mem_GetOverageUnits s k + 1) else mem_GetOverageUnits s k)" for s c k
    by (simp add: mem_GetOverageUnits_def mem_Check_def Let_def)
qed

lemma mem_overage_in: "(\<And>k. in_i64 (mem_GetOverageUnits m k)) \<Longrightarrow>
    in_i64 (mem_GetOverageUnits (snd (run_ops mem_Check m cs)) k)"
  by (rule run_ops_invariant [where I = "\<lambda>m. \<forall>k. in_i64 (mem_GetOverageUnits m k)", THEN spec])
    (simp_all add: mem.overage_check)

section \<open>Properties\<close>

text \<open>
  C2. The sliding-window guarantee of the in-memory limiter. Over any sequence of checks with a
  clock that does not run backwards, starting from a fresh limiter, if every check of key \<open>k\<close>
  is made with limits of at most \<open>B\<close>, then for every instant \<open>T\<close> at most \<open>B\<close> requests of \<open>k\<close>
  were admitted in the window \<open>(T - W k, T]\<close>. The checks of other keys are arbitrary.
\<close>

theorem mem_sliding_window:
  assumes "clock_ok W cs"
    and "\<forall>c \<in> set cs. call_apiKey c = k \<longrightarrow> call_softLimit c \<le> B \<and> call_hardLimit c \<le> B"
  shows "in_window (W k) T (admitted k cs (fst (run_ops mem_Check NewInMemoryLimiter cs)))
         \<le> max 0 B"
proof -
  have "\<forall>c \<in> set cs. 0 \<le> call_now c"
    using assms(1) by (auto simp: clock_ok_def list_all_iff)
  moreover have "spec_bounded W k B 0 spec_init"
    by (simp add: spec_bounded_def spec_init_def in_window_def)
  ultimately obtain t' where "spec_bounded W k B t' (snd (run_ops spec_check spec_init cs))"
    using spec_run_bounded [OF _ assms(1) _ assms(2)] by blast
  moreover have "fst (run_ops mem_Check NewInMemoryLimiter cs) = fst (run_ops spec_check spec_init cs)"
    using mem_run_refines [OF mem_rel_init [of W 0] assms(1)] \<open>\<forall>c \<in> set cs. 0 \<le> call_now c\<close> by blast
  moreover have "admissions spec_init k = []" by (simp add: spec_init_def)
  ultimately show ?thesis
    by (simp add: spec_bounded_def spec_run_admitted)
qed

text \<open>Three checks against a soft limit of 1 and a hard limit of 2.\<close>

definition sample_call :: "i64 \<Rightarrow> check_call" where
  "sample_call t = \<lparr>call_now = t, call_apiKey = ''k'', call_tier = ''free'', call_softLimit = 1,
     call_hardLimit = 2, call_windowSec = 60\<rparr>"

theorem mem_sliding_window_witness:
  "in_window 60 130 (admitted ''k'' (map sample_call [100, 110, 120])
     (fst (run_ops mem_Check NewInMemoryLimiter (map sample_call [100, 110, 120])))) \<le> max 0 2"
  using mem_sliding_window [of "\<lambda>_. 60" "map sample_call [100, 110, 120]" "''k''" 2 130]
  by (simp add: clock_ok_def in_i64_def sample_call_def)

text \<open>
  C12. Refinement. The code prunes expired times by binary search and forgets them; the abstract
  limiter keeps every admission and counts those inside the window. Over any sequence of checks
  with a forward clock and a fixed window per key both give the same results, field by field.
\<close>

theorem mem_refines_spec:
  assumes "clock_ok W cs"
  shows "fst (run_ops mem_Check NewInMemoryLimiter cs) = fst (run_ops spec_check spec_init cs)"
  using mem_run_refines [OF mem_rel_init [of W 0] assms] assms
  by (auto simp: clock_ok_def list_all_iff)

theorem mem_refines_spec_witness:
  "map Status (fst (run_ops spec_check spec_init (map sample_call [100, 110, 120]))) =
     [''NORMAL'', ''BURST'', ''BLOCKED'']"
proof -
  have "map Status (fst (run_ops mem_Check NewInMemoryLimiter (map sample_call [100, 110, 120]))) =
     [''NORMAL'', ''BURST'', ''BLOCKED'']"
    by code_simp
  then show ?thesis
    using mem_refines_spec [of "\<lambda>_. 60" "map sample_call [100, 110, 120]"]
    by (simp add: clock_ok_def in_i64_def sample_call_def)
qed

text \<open>
  C32. Billing and the freeze, for the in-memory limiter. After any sequence of checks from a
  fresh limiter the overage counter of every key is the number of its \<open>BURST\<close> verdicts (as an
  int64), and once the global burst freeze is set no later check yields \<open>BURST\<close>.
\<close>

theorem mem_overage_counts:
  "mem_GetOverageUnits (snd (run_ops mem_Check NewInMemoryLimiter cs)) k =
     wrap64 (burst_count k call_apiKey cs (fst (run_ops mem_Check NewInMemoryLimiter cs))) \<and>
   ''BURST'' \<notin> Status ` set (fst (run_ops mem_Check (mem_SetGlobalBurstFreeze True m) ds))"
proof
  have zero: "mem_GetOverageUnits NewInMemoryLimiter k = 0" for k
    by (simp add: mem_GetOverageUnits_def NewInMemoryLimiter_def)
  show "mem_GetOverageUnits (snd (run_ops mem_Check NewInMemoryLimiter cs)) k =
     wrap64 (burst_count k call_apiKey cs (fst (run_ops mem_Check NewInMemoryLimiter cs)))"
    using mem.run_overage [of NewInMemoryLimiter cs k]
      wrap64_id [OF mem_overage_in [of NewInMemoryLimiter cs k]]
    by (simp add: zero)
  show "''BURST'' \<notin> Status ` set (fst (run_ops mem_Check (mem_SetGlobalBurstFreeze True m) ds))"
    using mem.freeze_then_run by fastforce
qed

end
