(* ===== verification/Redis_Limiter.thy ===== *)
theory Redis_Limiter
  imports Rate_Limit
begin

text \<open>
  \<^verbatim>\<open>internal/ratelimit/limiter.go\<close> (\<open>RedisLimiter\<close>) and \<^verbatim>\<open>internal/ratelimit/lua.go\<close>: the
  distributed sliding window.

  Redis is not part of the repository. Its commands and the number conversions of its Lua
  interpreter are the fields of \<open>redis\<close>, an argument of the definitions; the state of the server
  is of an arbitrary type. A command returns \<open>None\<close> when it raises: a key of another type, no
  memory, a read-only replica. \<open>redis_laws\<close> states the documented behaviour that the proofs rely on, of
  commands that do not raise: sorted sets as finite maps from members to scores, keys that vanish
  when their time to live has ended, and exact numbers below \<open>10^14\<close>.

  \<^item> \<open>lua_script\<close> is the script of \<^verbatim>\<open>lua.go\<close>, command for command. Redis runs a script atomically.
  \<^item> \<open>redis_Check\<close> is the Go method around it: the arguments, the fallback to the in-memory limiter
    when the client is absent, the script fails or its reply is short, and the parsing of the reply.
    How the network treated the call is the argument \<open>rcall_delivery\<close>, the server's clock \<open>rcall_server\<close>.
  \<^item> \<open>redis_refines_spec\<close>: while the script answers every call, its verdicts are those of the abstract
    limiter of \<open>Rate_Limit\<close>, and so those of the in-memory limiter.
  \<^item> \<open>redis_fallback\<close>: in all other cases the in-memory limiter decides.
\<close>

section \<open>Definitions\<close>

datatype redis_reply = RErr | RNil | RStr string

text \<open>
  \<open>serve_at t\<close> is what the passing of time does to the server until its clock shows \<open>t\<close> milliseconds.
  A script runs at one reading of that clock.
\<close>

record 'r redis =
  serve_at :: "int \<Rightarrow> 'r \<Rightarrow> 'r"
  ZREMRANGEBYSCORE :: "string \<Rightarrow> int \<Rightarrow> int \<Rightarrow> 'r \<Rightarrow> int option \<times> 'r"  \<comment> \<open>key, min, max\<close>
  ZCARD :: "string \<Rightarrow> 'r \<Rightarrow> int option \<times> 'r"
  ZADD :: "string \<Rightarrow> int \<Rightarrow> string \<Rightarrow> 'r \<Rightarrow> int option \<times> 'r"  \<comment> \<open>key, score, member\<close>
  EXPIRE :: "string \<Rightarrow> int \<Rightarrow> 'r \<Rightarrow> int option \<times> 'r"
  HINCRBY :: "string \<Rightarrow> string \<Rightarrow> int \<Rightarrow> 'r \<Rightarrow> int option \<times> 'r"
  XADD :: "string \<Rightarrow> (string \<times> string) list \<Rightarrow> 'r \<Rightarrow> int option \<times> 'r"
  HGET :: "string \<Rightarrow> string \<Rightarrow> 'r \<Rightarrow> redis_reply"
  KEYS :: "string \<Rightarrow> 'r \<Rightarrow> string list option"
  lua_number :: "int \<Rightarrow> int"  \<comment> \<open>the value of an integer as a Lua number\<close>
  lua_tostring :: "int \<Rightarrow> string"

subsection \<open>lua.go\<close>

text \<open>A command that raises aborts the script; what it did before stays done.\<close>

definition rcall :: "('r \<Rightarrow> 'a option \<times> 'r) \<Rightarrow> ('a \<Rightarrow> 'r \<Rightarrow> 'b option \<times> 'r) \<Rightarrow> 'r \<Rightarrow> 'b option \<times> 'r" where
  "rcall cmd k r = (case cmd r of (None, r') \<Rightarrow> (None, r') | (Some x, r') \<Rightarrow> k x r')"

definition lua_script ::
  "'r redis \<Rightarrow> string \<Rightarrow> string \<Rightarrow> string \<Rightarrow> int \<Rightarrow> int \<Rightarrow> int \<Rightarrow> int \<Rightarrow> string \<Rightarrow> string \<Rightarrow> string \<Rightarrow> int
     \<Rightarrow> 'r \<Rightarrow> string list option \<times> 'r" where
  "lua_script R ratelimit_key billing_key stream_key argNow argWindow argSoft argHard req_id api_key tier burst_frozen =
     (let now = lua_number R argNow;
          window = lua_number R argWindow;
          soft_limit = lua_number R argSoft;
          hard_limit = lua_number R argHard;
          num = lua_number R;
          str = lua_tostring R;
          expire_threshold = num (now - window)
      in rcall (ZREMRANGEBYSCORE R ratelimit_key 0 expire_threshold) (\<lambda>_.
         rcall (ZCARD R ratelimit_key) (\<lambda>count.
           if count < soft_limit then
             rcall (ZADD R ratelimit_key now req_id) (\<lambda>_.
             rcall (EXPIRE R ratelimit_key window) (\<lambda>_ r.
               let remaining = num (soft_limit - num (count + 1));
                   burst_rem = num (hard_limit - soft_limit)
               in (Some [''NORMAL'', str (num (count + 1)), str soft_limit, str hard_limit,
                         str remaining, str burst_rem], r)))
           else if count < hard_limit \<and> burst_frozen = 0 then
             rcall (ZADD R ratelimit_key now req_id) (\<lambda>_.
             rcall (EXPIRE R ratelimit_key window) (\<lambda>_.
             rcall (HINCRBY R billing_key ''units'' 1) (\<lambda>overage_units.
             rcall (XADD R stream_key
                 [(''event_type'', ''BURST_OVERAGE''), (''api_key'', api_key), (''tier'', tier),
                  (''timestamp'', str now), (''units'', str overage_units)]) (\<lambda>_ r.
               let burst_rem = num (hard_limit - num (count + 1))
               in (Some [''BURST'', str (num (count + 1)), str soft_limit, str hard_limit,
                         ''0'', str burst_rem], r)))))
           else (\<lambda>r. (Some [''BLOCKED'', str count, str soft_limit, str hard_limit, ''0'', ''0''], r)))))"

subsection \<open>RedisLimiter\<close>

record 'r RedisLimiter =
  client :: "'r redis option"  \<comment> \<open>\<open>None\<close>: the nil client\<close>
  streamEvents :: string
  redisBurstFreeze :: bool
  memFallback :: InMemoryLimiter

definition NewLimiter :: "'r redis option \<Rightarrow> string \<Rightarrow> 'r RedisLimiter" where
  "NewLimiter cl stream =
     \<lparr>client = cl, streamEvents = (if stream = [] then ''stream:gateway:events'' else stream),
      redisBurstFreeze = False, memFallback = NewInMemoryLimiter\<rparr>"

definition redis_SetGlobalBurstFreeze :: "bool \<Rightarrow> 'r RedisLimiter \<Rightarrow> 'r RedisLimiter" where
  "redis_SetGlobalBurstFreeze b l =
     l\<lparr>redisBurstFreeze := b, memFallback := mem_SetGlobalBurstFreeze b (memFallback l)\<rparr>"

definition redis_IsGlobalBurstFrozen :: "'r RedisLimiter \<Rightarrow> bool" where
  "redis_IsGlobalBurstFrozen l = redisBurstFreeze l"

text \<open>
  How a script call met the network: it ran and its reply arrived, it never ran, or it ran and
  its reply was lost; the client sees an error in these two cases. Or the peer is not a server that runs
  the script, and answers with a list of its own.
\<close>

datatype delivery = Delivered | NotSent | ReplyLost | OtherReply "string list"

record redis_call =
  rcall_check :: check_call
  rcall_random :: bytes  \<comment> \<open>the 8 bytes of the random source\<close>
  rcall_month :: string  \<comment> \<open>the clock as year and month\<close>
  rcall_delivery :: delivery
  rcall_later :: i64  \<comment> \<open>the clock when the fallback reads it\<close>
  rcall_server :: int  \<comment> \<open>the server's clock when the script runs, in milliseconds\<close>

definition randomHex :: "bytes \<Rightarrow> string" where
  "randomHex b = hex_encode b"

text \<open>The keys \<^verbatim>\<open>ratelimit:%s\<close> and \<^verbatim>\<open>billing:overage:%s:%s\<close>.\<close>

definition rl_key :: "string \<Rightarrow> string" where
  "rl_key apiKey = ''ratelimit:'' @ apiKey"

definition bill_key :: "string \<Rightarrow> string" where
  "bill_key rest = ''billing:overage:'' @ rest"

definition billing_key :: "string \<Rightarrow> string \<Rightarrow> string" where
  "billing_key month apiKey = bill_key (month @ '':'' @ apiKey)"

definition fallback_Check ::
  "'r RedisLimiter \<Rightarrow> redis_call \<Rightarrow> rate_limit_result \<times> 'r RedisLimiter" where
  "fallback_Check l c =
     (case mem_Check (memFallback l) ((rcall_check c)\<lparr>call_now := rcall_later c\<rparr>) of
        (res, m) \<Rightarrow> (res, l\<lparr>memFallback := m\<rparr>))"

definition run_script ::
  "'r redis \<Rightarrow> 'r RedisLimiter \<Rightarrow> redis_call \<Rightarrow> 'r \<Rightarrow> string list option \<times> 'r" where
  "run_script R l c r =
     (let d = rcall_check c;
          script = lua_script R (rl_key (call_apiKey d))
            (billing_key (rcall_month c) (call_apiKey d)) (streamEvents l)
            (call_now d) (call_windowSec d) (call_softLimit d) (call_hardLimit d)
            (randomHex (rcall_random c)) (call_apiKey d) (call_tier d) (if redisBurstFreeze l then 1 else 0)
      in case rcall_delivery c of
           Delivered \<Rightarrow> script (serve_at R (rcall_server c) r)
         | NotSent \<Rightarrow> (None, r)
         | ReplyLost \<Rightarrow> (None, snd (script (serve_at R (rcall_server c) r)))
         | OtherReply res \<Rightarrow> (Some res, r))"

definition parse_reply :: "string list \<Rightarrow> rate_limit_result" where
  "parse_reply res =
     (let count = fst (parse_int64 (res ! 1));
          limit = fst (parse_int64 (res ! 2));
          hard = fst (parse_int64 (res ! 3));
          rem = fst (parse_int64 (res ! 4));
          burstRem = fst (parse_int64 (res ! 5));
          burstLimit = wrap64 (hard - limit);
          burstLimit = (if burstLimit < 0 then 0 else burstLimit)
      in \<lparr>Status = res ! 0, Count = count, Limit = limit, Remaining = rem,
          BurstLimit = burstLimit, BurstRemaining = burstRem\<rparr>)"

definition redis_Check ::
  "'r RedisLimiter \<times> 'r \<Rightarrow> redis_call \<Rightarrow> rate_limit_result \<times> ('r RedisLimiter \<times> 'r)" where
  "redis_Check lr c =
     (let (l, r) = lr
      in case client l of
           None \<Rightarrow> (case fallback_Check l c of (res, l') \<Rightarrow> (res, (l', r)))
         | Some R \<Rightarrow>
             (case run_script R l c r of
                (None, r') \<Rightarrow> (case fallback_Check l c of (res, l') \<Rightarrow> (res, (l', r')))
              | (Some res, r') \<Rightarrow>
                  if length res < 6
                  then (case fallback_Check l c of (res, l') \<Rightarrow> (res, (l', r')))
                  else (parse_reply res, (l, r'))))"

datatype overage_error = RedisError | ParseError num_error

definition reply_int64 :: "redis_reply \<Rightarrow> i64 \<times> overage_error option" where
  "reply_int64 rep =
     (case rep of
        RErr \<Rightarrow> (0, Some RedisError)
      | RNil \<Rightarrow> (0, Some RedisError)
      | RStr s \<Rightarrow> (case parse_int64 s of (v, e) \<Rightarrow> (v, map_option ParseError e)))"

definition redis_GetOverageUnits ::
  "'r RedisLimiter \<times> 'r \<Rightarrow> string \<Rightarrow> string \<Rightarrow> i64 \<times> overage_error option" where
  "redis_GetOverageUnits lr month apiKey =
     (let (l, r) = lr
      in case client l of
           None \<Rightarrow> (mem_GetOverageUnits (memFallback l) apiKey, None)
         | Some R \<Rightarrow>
             (let rep = HGET R (billing_key month apiKey) ''units'' r
              in if rep = RNil then (0, None) else reply_int64 rep))"

fun overage_loop :: "'r redis \<Rightarrow> 'r \<Rightarrow> string list \<Rightarrow> (string, i64) gomap \<Rightarrow> (string, i64) gomap" where
  "overage_loop R r [] results = results"
| "overage_loop R r (k # ks) results =
     (case reply_int64 (HGET R k ''units'' r) of
        (val, None) \<Rightarrow> overage_loop R r ks (gm_set k val results)
      | (val, Some e) \<Rightarrow> overage_loop R r ks results)"

definition redis_GetAllOverages ::
  "'r RedisLimiter \<times> 'r \<Rightarrow> string \<Rightarrow> overage_error + (string, i64) gomap" where
  "redis_GetAllOverages lr month =
     (let (l, r) = lr
      in case client l of
           None \<Rightarrow> Inr (mem_GetAllOverages (memFallback l))
         | Some R \<Rightarrow>
             (case KEYS R (bill_key (month @ '':*'')) r of
                None \<Rightarrow> Inl RedisError
              | Some ks \<Rightarrow> Inr (overage_loop R r ks [])))"


subsection \<open>Documented behaviour of the server\<close>

text \<open>
  A server is seen through its clock and the sorted sets at the limiter's keys \<open>rl_key a\<close>, each with the
  time at which it expires; a key that does not exist is \<open>([], None)\<close>, and a sorted set that becomes
  empty does not exist. No other client writes these keys.

  The laws speak of commands that return. Numbers are those that Lua and the scores, which are
  doubles, represent exactly.
\<close>

type_synonym zset_view = "(string, int) gomap \<times> int option"

type_synonym redis_view = "int \<times> (string \<Rightarrow> zset_view)"

definition no_key :: zset_view where
  "no_key = ([], None)"

definition lua_exact :: "int \<Rightarrow> bool" where
  "lua_exact x \<longleftrightarrow> \<bar>x\<bar> < 100000000000000"

definition number_laws :: "'r redis \<Rightarrow> bool" where
  "number_laws R \<longleftrightarrow> (\<forall>x. lua_exact x \<longrightarrow> lua_number R x = x \<and> lua_tostring R x = show_int x)"

text \<open>Until its time has come a key stays; afterwards the server may have removed it.\<close>

definition expiry_law :: "'r redis \<Rightarrow> ('r \<Rightarrow> redis_view) \<Rightarrow> bool" where
  "expiry_law R see \<longleftrightarrow>
     (\<forall>t r. fst (see (serve_at R t r)) = t \<and>
       (\<forall>a. snd (see (serve_at R t r)) a = snd (see r) a \<or>
          (\<exists>d. snd (snd (see r) a) = Some d \<and> d \<le> t) \<and> snd (see (serve_at R t r)) a = no_key))"

definition zrem_view :: "int \<Rightarrow> int \<Rightarrow> zset_view \<Rightarrow> zset_view" where
  "zrem_view lo hi v =
     (let z = filter (\<lambda>(m, s). \<not> (lo \<le> s \<and> s \<le> hi)) (fst v) in if z = [] then no_key else (z, snd v))"

definition zadd_view :: "int \<Rightarrow> string \<Rightarrow> zset_view \<Rightarrow> zset_view" where
  "zadd_view s m v = (gm_set m s (fst v), snd v)"

definition expire_view :: "int \<Rightarrow> int \<Rightarrow> zset_view \<Rightarrow> zset_view" where
  "expire_view t w v = (if fst v = [] \<or> w \<le> 0 then no_key else (fst v, Some (t + 1000 * w)))"

text \<open>If the command returned, it changed the sorted set of \<open>a\<close> by \<open>f\<close>, and nothing else that is seen.\<close>

definition does :: "('r \<Rightarrow> redis_view) \<Rightarrow> 'r \<Rightarrow> int option \<times> 'r \<Rightarrow> string \<Rightarrow> (int \<Rightarrow> zset_view \<Rightarrow> zset_view) \<Rightarrow> bool" where
  "does see r out a f \<longleftrightarrow>
     (fst out \<noteq> None \<longrightarrow> see (snd out) = (fst (see r), (snd (see r))(a := f (fst (see r)) (snd (see r) a))))"

definition redis_laws :: "'r redis \<Rightarrow> ('r \<Rightarrow> redis_view) \<Rightarrow> bool" where
  "redis_laws R see \<longleftrightarrow> number_laws R \<and> expiry_law R see \<and>
     (\<forall>r a lo hi. lua_exact lo \<and> lua_exact hi \<longrightarrow> does see r (ZREMRANGEBYSCORE R (rl_key a) lo hi r) a (\<lambda>_. zrem_view lo hi)) \<and>
     (\<forall>r a. does see r (ZCARD R (rl_key a) r) a (\<lambda>_ v. v) \<and>
        fst (ZCARD R (rl_key a) r) \<in> {None, Some (int (length (fst (snd (see r) a))))}) \<and>
     (\<forall>r a s m. lua_exact s \<longrightarrow> does see r (ZADD R (rl_key a) s m r) a (\<lambda>_. zadd_view s m)) \<and>
     (\<forall>r a w. lua_exact w \<longrightarrow> does see r (EXPIRE R (rl_key a) w r) a (\<lambda>t. expire_view t w)) \<and>
     (\<forall>r a b. does see r (HINCRBY R (bill_key b) ''units'' 1 r) a (\<lambda>_ v. v)) \<and>
     (\<forall>r a k kvs. does see r (XADD R k kvs r) a (\<lambda>_ v. v))"


section \<open>The script under the laws\<close>

lemma rl_key_eq [simp]: "rl_key a = rl_key b \<longleftrightarrow> a = b"
  by (simp add: rl_key_def)

lemma redis_lawsD:
  assumes "redis_laws R see"
  shows "number_laws R" and "expiry_law R see"
    and "lua_exact lo \<Longrightarrow> lua_exact hi \<Longrightarrow> does see r (ZREMRANGEBYSCORE R (rl_key a) lo hi r) a (\<lambda>_. zrem_view lo hi)"
    and "does see r (ZCARD R (rl_key a) r) a (\<lambda>_ v. v)"
    and "fst (ZCARD R (rl_key a) r) \<in> {None, Some (int (length (fst (snd (see r) a))))}"
    and "lua_exact s \<Longrightarrow> does see r (ZADD R (rl_key a) s m r) a (\<lambda>_. zadd_view s m)"
    and "lua_exact w \<Longrightarrow> does see r (EXPIRE R (rl_key a) w r) a (\<lambda>t. expire_view t w)"
    and "does see r (HINCRBY R (bill_key b) ''units'' 1 r) a (\<lambda>_ v. v)"
    and "does see r (XADD R k kvs r) a (\<lambda>_ v. v)"
  using assms unfolding redis_laws_def by blast+

lemma rcall_SomeE:
  assumes "rcall cmd k r = (Some x, r')"
  obtains v r1 where "cmd r = (Some v, r1)" and "k v r1 = (Some x, r')"
  using assms by (auto simp: rcall_def split: prod.splits option.splits)

lemma doesD:
  assumes "does see r out a f" and "out = (Some v, r')" and "see r = (t, V)"
  shows "see r' = (t, V(a := f t (V a)))"
  using assms by (simp add: does_def)

text \<open>The reply and the effect of the script, for the integers Lua handles exactly.\<close>

definition script_reply :: "int \<Rightarrow> int \<Rightarrow> int \<Rightarrow> bool \<Rightarrow> string list" where
  "script_reply n soft hard burstFrozen =
     (if n < soft then
        [''NORMAL'', show_int (n + 1), show_int soft, show_int hard, show_int (soft - (n + 1)), show_int (hard - soft)]
      else if n < hard \<and> \<not> burstFrozen then
        [''BURST'', show_int (n + 1), show_int soft, show_int hard, ''0'', show_int (hard - (n + 1))]
      else [''BLOCKED'', show_int n, show_int soft, show_int hard, ''0'', ''0''])"

definition small :: "int \<Rightarrow> bool" where
  "small x \<longleftrightarrow> 0 \<le> x \<and> x < 100000000000000"

lemma small_exact: "number_laws R \<Longrightarrow> small x \<Longrightarrow> lua_number R x = x \<and> lua_tostring R x = show_int x"
  by (simp add: number_laws_def lua_exact_def small_def)

lemma small_diff_exact: "number_laws R \<Longrightarrow> small x \<Longrightarrow> small y \<Longrightarrow> lua_number R (x - y) = x - y"
  by (auto simp: number_laws_def lua_exact_def small_def)

lemma small_diff_str: "number_laws R \<Longrightarrow> small x \<Longrightarrow> small y \<Longrightarrow> lua_tostring R (x - y) = show_int (x - y)"
  by (auto simp: number_laws_def lua_exact_def small_def)

lemma small_lua_exact: "small x \<Longrightarrow> lua_exact x" "small x \<Longrightarrow> small y \<Longrightarrow> lua_exact (x - y)"
  by (auto simp: small_def lua_exact_def)

text \<open>The set of the checked key after an admission and after a rejection.\<close>

definition admitted_view :: "int \<Rightarrow> int \<Rightarrow> string \<Rightarrow> i64 \<Rightarrow> zset_view \<Rightarrow> zset_view" where
  "admitted_view t window req now v = expire_view t window (zadd_view now req v)"

lemma lua_script_effect:
  fixes a b :: string
  assumes L: "redis_laws R see"
    and sm: "small now" "small window" "small soft" "small hard"
    and see: "see r = (t, V)" and v: "v = zrem_view 0 (now - window) (V a)" and n: "n = int (length (fst v))" and len: "small n"
    and run: "lua_script R (rl_key a) (bill_key b) stream now window soft hard req api tier fz r = (Some out, r')"
  shows "out = script_reply n soft hard (fz \<noteq> 0)"
    and "see r' = (t, V(a := if n < soft \<or> (n < hard \<and> fz = 0) then admitted_view t window req now v else v))"
proof -
  note N = redis_lawsD(1) [OF L]
  note nums = small_exact [OF N] small_diff_exact [OF N] small_diff_str [OF N]
  have ex: "lua_exact 0" "lua_exact (now - window)" "lua_exact now" "lua_exact window"
    using sm small_lua_exact by (auto simp: lua_exact_def)
  obtain x1 r1 where c1: "ZREMRANGEBYSCORE R (rl_key a) 0 (now - window) r = (Some x1, r1)"
    using run sm nums by (auto simp: lua_script_def Let_def elim!: rcall_SomeE)
  have s1: "see r1 = (t, V(a := v))" using doesD [OF redis_lawsD(3) [OF L ex(1,2)] c1 see] by (simp add: v)
  have "\<exists>x2 r2. ZCARD R (rl_key a) r1 = (Some x2, r2)"
    using run sm nums c1 by (auto simp: lua_script_def Let_def elim!: rcall_SomeE)
  then obtain r2 where c2: "ZCARD R (rl_key a) r1 = (Some n, r2)"
    using redis_lawsD(5) [OF L, of a r1] s1 n by auto
  have s2: "see r2 = (t, V(a := v))" using doesD [OF redis_lawsD(4) [OF L] c2 s1] by (simp only: fun_upd_same fun_upd_upd)
  have n1: "small (n + 1)" if "n < soft \<or> n < hard" using that sm(3,4) len by (auto simp: small_def)
  note pre = run [unfolded lua_script_def Let_def]
  consider (normal) "n < soft" | (burst) "\<not> n < soft" "n < hard" "fz = 0" | (blocked) "\<not> n < soft" "\<not> (n < hard \<and> fz = 0)" by blast
  then have "out = script_reply n soft hard (fz \<noteq> 0) \<and>
    see r' = (t, V(a := if n < soft \<or> (n < hard \<and> fz = 0) then admitted_view t window req now v else v))"
  proof cases
    case normal
    have rest: "rcall (ZADD R (rl_key a) now req) (\<lambda>_. rcall (EXPIRE R (rl_key a) window) (\<lambda>_ r. (Some (script_reply n soft hard (fz \<noteq> 0)), r))) r2
        = (Some out, r')"
      using pre sm len n1 normal by (simp add: nums rcall_def c1 c2 script_reply_def)
    then obtain x3 r3 where c3: "ZADD R (rl_key a) now req r2 = (Some x3, r3)"
      and c4: "\<exists>x4. EXPIRE R (rl_key a) window r3 = (Some x4, r')" and o: "out = script_reply n soft hard (fz \<noteq> 0)"
      by (auto elim!: rcall_SomeE)
    from c4 obtain x4 where c4: "EXPIRE R (rl_key a) window r3 = (Some x4, r')" ..
    have "see r3 = (t, V(a := zadd_view now req v))" using doesD [OF redis_lawsD(6) [OF L ex(3)] c3 s2] by (simp only: fun_upd_same fun_upd_upd)
    from doesD [OF redis_lawsD(7) [OF L ex(4)] c4 this] o normal show ?thesis by (simp only: admitted_view_def fun_upd_same fun_upd_upd) simp
  next
    case burst
    have "rcall (ZADD R (rl_key a) now req) (\<lambda>_. rcall (EXPIRE R (rl_key a) window) (\<lambda>_. rcall (HINCRBY R (bill_key b) ''units'' 1) (\<lambda>u.
        rcall (XADD R stream [(''event_type'', ''BURST_OVERAGE''), (''api_key'', api), (''tier'', tier),
          (''timestamp'', show_int now), (''units'', lua_tostring R u)]) (\<lambda>_ r. (Some (script_reply n soft hard (fz \<noteq> 0)), r))))) r2
        = (Some out, r')"
      using pre sm len n1 burst by (simp add: nums rcall_def c1 c2 script_reply_def)
    then obtain x3 r3 x4 r4 x5 r5 x6 kvs where c3: "ZADD R (rl_key a) now req r2 = (Some x3, r3)"
      and c4: "EXPIRE R (rl_key a) window r3 = (Some x4, r4)" and c5: "HINCRBY R (bill_key b) ''units'' 1 r4 = (Some x5, r5)"
      and c6: "XADD R stream kvs r5 = (Some x6, r')" and o: "out = script_reply n soft hard (fz \<noteq> 0)"
      by (auto elim!: rcall_SomeE)
    have "see r3 = (t, V(a := zadd_view now req v))" using doesD [OF redis_lawsD(6) [OF L ex(3)] c3 s2] by (simp only: fun_upd_same fun_upd_upd)
    from doesD [OF redis_lawsD(7) [OF L ex(4)] c4 this] have s4: "see r4 = (t, V(a := admitted_view t window req now v))"
      by (simp only: admitted_view_def fun_upd_same fun_upd_upd)
    from doesD [OF redis_lawsD(8) [OF L, of _ b a] c5 s4] have "see r5 = (t, V(a := admitted_view t window req now v))"
      by (simp only: fun_upd_same fun_upd_upd)
    from doesD [OF redis_lawsD(9) [OF L, of _ stream kvs a] c6 this] o burst show ?thesis by (simp only: fun_upd_same fun_upd_upd) simp
  next
    case blocked
    with pre sm len show ?thesis using s2 by (auto simp: nums rcall_def c1 c2 script_reply_def)
  qed
  then show "out = script_reply n soft hard (fz \<noteq> 0)"
    and "see r' = (t, V(a := if n < soft \<or> (n < hard \<and> fz = 0) then admitted_view t window req now v else v))"
    by simp_all
qed

section \<open>Refinement of the abstract limiter\<close>

definition zset_rel :: "i64 \<Rightarrow> i64 \<Rightarrow> (string, int) gomap \<Rightarrow> i64 list \<Rightarrow> bool" where
  "zset_rel w t z log \<longleftrightarrow>
     (\<forall>p \<in> set z. 0 \<le> snd p) \<and>
     (\<forall>T \<ge> t. int (length (filter (\<lambda>p. T - w < snd p) z)) = in_window w T log)"

lemma zset_rel_mono: "zset_rel w t z log \<Longrightarrow> t \<le> t' \<Longrightarrow> zset_rel w t' z log"
  by (auto simp: zset_rel_def)

definition pruned :: "int \<Rightarrow> (string, int) gomap \<Rightarrow> (string, int) gomap" where
  "pruned x z = filter (\<lambda>(m, s). \<not> (0 \<le> s \<and> s \<le> x)) z"

lemma zset_rel_pruned:
  assumes "zset_rel w t z log" and "t \<le> t'"
  shows "zset_rel w t' (pruned (t' - w) z) log"
    and "int (length (pruned (t' - w) z)) = in_window w t' log"
proof -
  have nn: "\<forall>p \<in> set z. 0 \<le> snd p" using assms(1) by (simp add: zset_rel_def)
  have f: "filter (\<lambda>p. T - w < snd p) (pruned (t' - w) z) = filter (\<lambda>p. T - w < snd p) z"
    if "t' \<le> T" for T
    unfolding pruned_def filter_filter using nn that by (intro filter_cong) auto
  show "zset_rel w t' (pruned (t' - w) z) log"
    using assms by (auto simp: zset_rel_def f) (auto simp: pruned_def)
  have "pruned (t' - w) z = filter (\<lambda>p. t' - w < snd p) z"
    unfolding pruned_def using nn by (intro filter_cong) auto
  then show "int (length (pruned (t' - w) z)) = in_window w t' log"
    using assms by (simp add: zset_rel_def)
qed

lemma gm_set_new: "k \<notin> fst ` set m \<Longrightarrow> gm_set k v m = m @ [(k, v)]"
  unfolding gm_set_def by (induction m) auto

lemma zset_rel_add:
  assumes "zset_rel w t z log" and "0 \<le> t" and "m \<notin> fst ` set z"
  shows "zset_rel w t (gm_set m t z) (log @ [t])"
  using assms by (auto simp: zset_rel_def gm_set_new in_window_append)

text \<open>A key that expired: its entries are outside of the window for good.\<close>

lemma zset_rel_expired:
  assumes "zset_rel w t z log" and "t \<le> t'" and "\<forall>p \<in> set z. snd p + w \<le> t'"
  shows "zset_rel w t' [] log"
proof -
  have "filter (\<lambda>p. T - w < snd p) z = []" if "t' \<le> T" for T using assms(3) that by (fastforce simp: filter_empty_conv)
  moreover have "int (length (filter (\<lambda>p. T - w < snd p) z)) = in_window w T log" if "t' \<le> T" for T
    using assms(1,2) that by (auto simp: zset_rel_def)
  ultimately show ?thesis unfolding zset_rel_def by (metis empty_iff filter.simps(1) list.set(1))
qed

text \<open>
  \<open>P\<close> holds the server's clock and the gateway's clock of the admissions so far, with the window of their key. The keys
  have at most \<open>N\<close> members, all of them in \<open>U\<close>.
\<close>

definition view_rel :: "i64 \<Rightarrow> i64 \<Rightarrow> nat \<Rightarrow> string set \<Rightarrow> (i64 \<times> int \<times> i64) set \<Rightarrow> zset_view \<Rightarrow> i64 list \<Rightarrow> bool" where
  "view_rel w t N U P v log \<longleftrightarrow>
     zset_rel w t (fst v) log \<and> length (fst v) \<le> N \<and> fst ` set (fst v) \<subseteq> U \<and>
     (fst v \<noteq> [] \<longrightarrow> (\<exists>s now. (w, s, now) \<in> P \<and> snd v = Some (s + 1000 * w) \<and> (\<forall>p \<in> set (fst v). snd p \<le> now)))"

definition redis_rel :: "(string \<Rightarrow> i64) \<Rightarrow> i64 \<Rightarrow> nat \<Rightarrow> string set \<Rightarrow> (i64 \<times> int \<times> i64) set \<Rightarrow>
    ('r \<Rightarrow> redis_view) \<Rightarrow> 'r RedisLimiter \<Rightarrow> 'r \<Rightarrow> spec_limiter \<Rightarrow> bool" where
  "redis_rel W t N U P see l r s \<longleftrightarrow>
     frozen s = redisBurstFreeze l \<and> (\<forall>k. view_rel (W k) t N U P (snd (see r) k) (admissions s k))"

text \<open>Delivered calls within the range of Lua's exact integers, with limits in order.\<close>

definition redis_call_ok :: "redis_call \<Rightarrow> bool" where
  "redis_call_ok c \<longleftrightarrow>
     (let d = rcall_check c
      in rcall_delivery c = Delivered \<and> small (call_now d) \<and> small (call_windowSec d) \<and>
         small (call_softLimit d) \<and> small (call_hardLimit d) \<and> call_softLimit d \<le> call_hardLimit d)"

text \<open>The server's clock does not run ahead: when it has seen the window of a check pass, so has the gateway's.\<close>

definition clocks_agree :: "redis_call list \<Rightarrow> bool" where
  "clocks_agree = sorted_wrt (\<lambda>c d.
     rcall_server c + 1000 * call_windowSec (rcall_check c) \<le> rcall_server d \<longrightarrow>
     call_now (rcall_check c) + call_windowSec (rcall_check c) \<le> call_now (rcall_check d))"

text \<open>The script answers every call of a run; none raises.\<close>

fun answered :: "'r redis \<Rightarrow> 'r RedisLimiter \<times> 'r \<Rightarrow> redis_call list \<Rightarrow> bool" where
  "answered R lr [] = True"
| "answered R lr (c # cs) =
     (fst (run_script R (fst lr) c (snd lr)) \<noteq> None \<and> answered R (snd (redis_Check lr c)) cs)"

lemma small_in_i64: "small x \<Longrightarrow> small y \<Longrightarrow> in_i64 x \<and> in_i64 (x - y)"
  by (auto simp: small_def in_i64_def)

lemma parse_small [simp]:
  "small x \<Longrightarrow> parse_int64 (show_int x) = (x, None)"
  "small x \<Longrightarrow> small y \<Longrightarrow> parse_int64 (show_int (x - y)) = (x - y, None)"
  "parse_int64 ''0'' = (0, None)"
proof -
  show "small x \<Longrightarrow> parse_int64 (show_int x) = (x, None)"
    using small_in_i64 by (auto intro!: parse_show_int)
  show "small x \<Longrightarrow> small y \<Longrightarrow> parse_int64 (show_int (x - y)) = (x - y, None)"
    using small_in_i64 by (auto intro!: parse_show_int)
  have "show_int 0 = ''0''" by code_simp
  then show "parse_int64 ''0'' = (0, None)" using parse_show_int [of 0] by simp
qed

lemma parse_script_reply:
  assumes "small n" "small soft" "small hard" and "soft \<le> hard"
  shows "parse_reply (script_reply n soft hard fz) =
    \<lparr>Status = (if n < soft then ''NORMAL'' else if n < hard \<and> \<not> fz then ''BURST'' else ''BLOCKED''),
     Count = (if n < soft \<or> n < hard \<and> \<not> fz then n + 1 else n), Limit = soft,
     Remaining = (if n < soft then soft - (n + 1) else 0), BurstLimit = hard - soft,
     BurstRemaining = (if n < soft then hard - soft else if n < hard \<and> \<not> fz then hard - (n + 1) else 0)\<rparr>"
proof -
  have n1: "small (n + 1)" if "n < soft \<or> n < hard" using that assms by (auto simp: small_def)
  have "wrap64 (hard - soft) = hard - soft" using assms small_in_i64 by (auto intro!: wrap64_id)
  with assms n1 show ?thesis by (simp add: script_reply_def parse_reply_def Let_def)
qed


lemma view_rel_deadline:
  "view_rel w t N U P v log \<Longrightarrow> fst v \<noteq> [] \<Longrightarrow>
     \<exists>s now. (w, s, now) \<in> P \<and> snd v = Some (s + 1000 * w) \<and> (\<forall>p \<in> set (fst v). snd p \<le> now)"
  by (simp add: view_rel_def)

text \<open>Time passes on the server until the next check.\<close>

lemma view_rel_later:
  assumes "expiry_law R see" and "view_rel w t N U P (snd (see r) k) log" and "t \<le> t'"
    and "\<And>s now. (w, s, now) \<in> P \<Longrightarrow> s + 1000 * w \<le> T \<Longrightarrow> now + w \<le> t'"
  shows "view_rel w t' N U P (snd (see (serve_at R T r)) k) log"
proof -
  consider (same) "snd (see (serve_at R T r)) k = snd (see r) k"
    | (gone) d where "snd (snd (see r) k) = Some d" "d \<le> T" "snd (see (serve_at R T r)) k = no_key"
    using assms(1) unfolding expiry_law_def by blast
  then show ?thesis
  proof cases
    case same
    with assms(2,3) zset_rel_mono show ?thesis by (auto simp: view_rel_def)
  next
    case gone
    have "snd p + w \<le> t'" if p: "p \<in> set (fst (snd (see r) k))" for p
    proof -
      have "fst (snd (see r) k) \<noteq> []" using p by auto
      then obtain s now where "(w, s, now) \<in> P" "snd (snd (see r) k) = Some (s + 1000 * w)" "snd p \<le> now"
        using view_rel_deadline [OF assms(2)] p by blast
      with assms(4) [of s now] gone(1,2) show ?thesis by simp
    qed
    moreover have "zset_rel w t (fst (snd (see r) k)) log" using assms(2) by (simp add: view_rel_def)
    ultimately have "zset_rel w t' [] log" using zset_rel_expired assms(3) by blast
    with gone show ?thesis by (simp add: view_rel_def no_key_def)
  qed
qed

lemma zrem_pruned: "fst (zrem_view 0 x v) = pruned x (fst v)"
  by (simp add: zrem_view_def pruned_def no_key_def Let_def)

lemma view_rel_pruned:
  assumes "view_rel w t N U P v log"
  shows "view_rel w t N U P (zrem_view 0 (t - w) v) log"
    and "int (length (fst (zrem_view 0 (t - w) v))) = in_window w t log"
proof -
  have z: "zset_rel w t (fst v) log" using assms by (simp add: view_rel_def)
  have sub: "set (pruned (t - w) (fst v)) \<subseteq> set (fst v)" and len: "length (pruned (t - w) (fst v)) \<le> length (fst v)"
    by (auto simp: pruned_def)
  have ttl: "snd (zrem_view 0 (t - w) v) = snd v \<and> fst v \<noteq> []" if "pruned (t - w) (fst v) \<noteq> []"
    using that by (auto simp: zrem_view_def pruned_def Let_def)
  have "length (pruned (t - w) (fst v)) \<le> N \<and> fst ` set (pruned (t - w) (fst v)) \<subseteq> U"
    using assms sub len by (auto simp: view_rel_def)
  moreover have "\<exists>s now. (w, s, now) \<in> P \<and> snd (zrem_view 0 (t - w) v) = Some (s + 1000 * w) \<and> (\<forall>p \<in> set (pruned (t - w) (fst v)). snd p \<le> now)"
    if "pruned (t - w) (fst v) \<noteq> []"
    using view_rel_deadline [OF assms] ttl [OF that] sub by (metis subsetD)
  ultimately show "view_rel w t N U P (zrem_view 0 (t - w) v) log"
    using zset_rel_pruned(1) [OF z order_refl] unfolding view_rel_def zrem_pruned by blast
  show "int (length (fst (zrem_view 0 (t - w) v))) = in_window w t log"
    using zset_rel_pruned(2) [OF z order_refl] by (simp add: zrem_pruned)
qed

lemma view_rel_admitted:
  assumes v: "view_rel w t N U P v log" and old: "\<forall>p \<in> set (fst v). snd p \<le> t" and "0 \<le> t" and "0 \<le> w" and new: "req \<notin> U"
  shows "view_rel w t (Suc N) (insert req U) (insert (w, T, t) P) (admitted_view T w req t v) (log @ [t])"
proof -
  have req: "req \<notin> fst ` set (fst v)" using v new by (auto simp: view_rel_def)
  have z: "zset_rel w t (gm_set req t (fst v)) (log @ [t])"
    using zset_rel_add [OF _ assms(3) req] v by (simp add: view_rel_def)
  show ?thesis
  proof (cases "w = 0")
    case True
    with z have "zset_rel w t [] (log @ [t])"
      by (intro zset_rel_expired [OF z order_refl]) (use old in \<open>auto simp: gm_set_new [OF req] True\<close>)
    with True show ?thesis by (simp add: view_rel_def admitted_view_def expire_view_def zadd_view_def no_key_def)
  next
    case False
    with v z old assms(4) show ?thesis
      by (auto simp: view_rel_def admitted_view_def expire_view_def zadd_view_def gm_set_new [OF req])
  qed
qed

lemma view_rel_weaken: "view_rel w t N U P v log \<Longrightarrow> N \<le> N' \<Longrightarrow> U \<subseteq> U' \<Longrightarrow> P \<subseteq> P' \<Longrightarrow> view_rel w t N' U' P' v log"
  unfolding view_rel_def by (meson le_trans subset_eq)

text \<open>The scores of a key are times of checks, so none is later than the last one.\<close>

definition scores_past :: "i64 \<Rightarrow> ('r \<Rightarrow> redis_view) \<Rightarrow> 'r \<Rightarrow> bool" where
  "scores_past t see r \<longleftrightarrow> (\<forall>k. \<forall>p \<in> set (fst (snd (see r) k)). snd p \<le> t)"

lemma redis_Check_step:
  assumes L: "redis_laws R see" and cl: "client l = Some R"
    and rel: "redis_rel W t N U P see l r s" and past: "scores_past t see r"
    and c: "d = rcall_check c" and clk: "clock_ok W [d]" and le: "t \<le> call_now d"
    and ok: "redis_call_ok c" and new: "randomHex (rcall_random c) \<notin> U" and N: "int N < 99999999999999"
    and ans: "fst (run_script R l c r) \<noteq> None"
    and agree: "\<And>w s now. (w, s, now) \<in> P \<Longrightarrow> s + 1000 * w \<le> rcall_server c \<Longrightarrow> now + w \<le> call_now d"
  shows "\<exists>r'. redis_Check (l, r) c = (fst (spec_check s d), (l, r')) \<and> scores_past (call_now d) see r' \<and>
    redis_rel W (call_now d) (Suc N) (insert (randomHex (rcall_random c)) U)
      (insert (call_windowSec d, rcall_server c, call_now d) P) see l r' (snd (spec_check s d))"
proof -
  let ?k = "call_apiKey d" and ?now = "call_now d" and ?w = "call_windowSec d" and ?id = "randomHex (rcall_random c)"
    and ?soft = "call_softLimit d" and ?hard = "call_hardLimit d" and ?T = "rcall_server c"
  let ?r = "serve_at R ?T r" and ?P = "insert (?w, ?T, ?now) P"
  have sm: "small ?now" "small ?w" "small ?soft" "small ?hard" "?soft \<le> ?hard"
    and dl: "rcall_delivery c = Delivered" and wk: "?w = W ?k"
    using ok clk by (auto simp: redis_call_ok_def c Let_def clock_ok_def)
  have fr: "frozen s = redisBurstFreeze l" using rel by (simp add: redis_rel_def)
  note X = redis_lawsD(2) [OF L]
  have vr: "view_rel (W k) ?now N U P (snd (see ?r) k) (admissions s k)" for k
    using rel agree by (intro view_rel_later [OF X _ le]) (auto simp: redis_rel_def)
  have "snd (see ?r) k = snd (see r) k \<or> snd (see ?r) k = no_key" for k using X unfolding expiry_law_def by blast
  then have old: "\<forall>p \<in> set (fst (snd (see ?r) k)). snd p \<le> ?now" for k
    using past le unfolding scores_past_def no_key_def by (metis empty_iff fst_conv list.set(1) order_trans)
  obtain V where see: "see ?r = (?T, V)" using X unfolding expiry_law_def by (metis prod.collapse)
  define v where "v = zrem_view 0 (?now - ?w) (V ?k)"
  have vv: "view_rel ?w ?now N U P v (admissions s ?k)" and cnt: "int (length (fst v)) = in_window ?w ?now (admissions s ?k)"
    using view_rel_pruned [OF vr [of ?k]] by (simp_all add: v_def see wk)
  have vo: "\<forall>p \<in> set (fst v). snd p \<le> ?now" using old [of ?k] by (auto simp: v_def see zrem_pruned pruned_def)
  let ?n = "in_window ?w ?now (admissions s ?k)"
  have n: "small ?n" using vv cnt N by (auto simp: view_rel_def small_def)
  obtain out r' where run: "lua_script R (rl_key ?k) (bill_key (rcall_month c @ '':'' @ ?k)) (streamEvents l) ?now ?w ?soft ?hard ?id ?k
      (call_tier d) (if redisBurstFreeze l then 1 else 0) ?r = (Some out, r')"
    using ans by (simp add: run_script_def dl billing_key_def c [symmetric] Let_def) (metis option.collapse prod.collapse)
  note eff = lua_script_effect [OF L sm(1-4) see v_def cnt [symmetric] n run]
  have res: "redis_Check (l, r) c = (parse_reply (script_reply ?n ?soft ?hard (frozen s)), (l, r'))"
    using run eff(1) fr
    by (simp add: redis_Check_def run_script_def cl dl billing_key_def c [symmetric] script_reply_def Let_def)
  have w: "wrap64 (?hard - ?soft) = ?hard - ?soft" using sm small_in_i64 by (auto intro!: wrap64_id)
  have same: "parse_reply (script_reply ?n ?soft ?hard (frozen s)) = fst (spec_check s d)"
    unfolding parse_script_reply [OF n sm(3-5)] using sm(5) by (auto simp: spec_check_def admits_def Let_def w)
  have see': "snd (see r') k = (if k \<noteq> ?k then V k else if admits s d then admitted_view ?T ?w ?id ?now v else v)" for k
    using eff(2) fr by (auto simp: admits_def Let_def)
  have "view_rel (W k) ?now (Suc N) (insert ?id U) ?P (snd (see r') k) (admissions (snd (spec_check s d)) k)" for k
  proof (cases "k = ?k \<and> admits s d")
    case True
    then show ?thesis
      using view_rel_admitted [OF vv vo _ _ new, of ?T] sm by (simp add: see' wk [symmetric] spec_check_def Let_def small_def)
  next
    case False
    with vv vr [of k] have "view_rel (W k) ?now N U P (snd (see r') k) (admissions s k)" by (auto simp: see' see wk)
    from view_rel_weaken [OF this, of "Suc N" "insert ?id U" ?P] False show ?thesis by (auto simp: spec_check_def Let_def)
  qed
  moreover have "scores_past ?now see r'"
    unfolding scores_past_def
  proof (intro allI ballI)
    fix k p assume "p \<in> set (fst (snd (see r') k))"
    moreover have "?id \<notin> fst ` set (fst v)" using vv new by (auto simp: view_rel_def)
    ultimately show "snd p \<le> ?now" using vo old [of k]
      by (auto simp: see' see admitted_view_def expire_view_def zadd_view_def no_key_def gm_set_new split: if_splits)
  qed
  ultimately show ?thesis using res same fr by (auto simp: redis_rel_def spec_check_def Let_def)
qed

lemma redis_run_refines:
  assumes L: "redis_laws R see" and cl: "client l = Some R"
    and "redis_rel W t N U P see l r s" and "scores_past t see r" and "clock_ok W (map rcall_check cs)"
    and "\<forall>c \<in> set cs. t \<le> call_now (rcall_check c)" and "\<forall>c \<in> set cs. redis_call_ok c"
    and "distinct (map (randomHex \<circ> rcall_random) cs)"
    and "\<forall>c \<in> set cs. randomHex (rcall_random c) \<notin> U"
    and "int N + int (length cs) < 100000000000000"
    and "clocks_agree cs" and "answered R (l, r) cs"
    and "\<forall>(w, s, now) \<in> P. \<forall>c \<in> set cs. s + 1000 * w \<le> rcall_server c \<longrightarrow> now + w \<le> call_now (rcall_check c)"
  shows "fst (run_ops redis_Check (l, r) cs) = fst (run_ops spec_check s (map rcall_check cs))"
  using assms(3-)
proof (induction cs arbitrary: t N U P r s)
  case Nil
  then show ?case by simp
next
  case (Cons c cs)
  let ?d = "rcall_check c" and ?id = "randomHex (rcall_random c)"
  let ?P = "insert (call_windowSec ?d, rcall_server c, call_now ?d) P"
  from Cons.prems(3) have ok: "clock_ok W [?d]" "clock_ok W (map rcall_check cs)"
    and later: "\<forall>c \<in> set cs. call_now ?d \<le> call_now (rcall_check c)"
    using clock_ok_Cons [of W ?d "map rcall_check cs"] by auto
  have "\<exists>r'. redis_Check (l, r) c = (fst (spec_check s ?d), (l, r')) \<and> scores_past (call_now ?d) see r' \<and>
    redis_rel W (call_now ?d) (Suc N) (insert ?id U) ?P see l r' (snd (spec_check s ?d))"
    using Cons.prems by (intro redis_Check_step [OF L cl Cons.prems(1,2) refl ok(1)]) auto
  then obtain r' where step: "redis_Check (l, r) c = (fst (spec_check s ?d), (l, r'))" and past: "scores_past (call_now ?d) see r'"
    and rel: "redis_rel W (call_now ?d) (Suc N) (insert ?id U) ?P see l r' (snd (spec_check s ?d))" by blast
  have agree: "clocks_agree cs" "\<forall>(w, s, now) \<in> ?P. \<forall>c \<in> set cs. s + 1000 * w \<le> rcall_server c \<longrightarrow> now + w \<le> call_now (rcall_check c)"
    using Cons.prems(9,11) by (auto simp: clocks_agree_def)
  have "fst (run_ops redis_Check (l, r') cs) = fst (run_ops spec_check (snd (spec_check s ?d)) (map rcall_check cs))"
    using Cons.prems step by (intro Cons.IH [OF rel past ok(2) later _ _ _ _ agree(1) _ agree(2)]) (auto simp: image_iff)
  with step show ?case by (simp add: run_ops_Cons del: run_ops.simps(2))
qed

section \<open>Properties\<close>


text \<open>A server for the witnesses: its clock, its sorted sets with their expiry, and its hash fields.\<close>

type_synonym toy_state = "int \<times> (string \<Rightarrow> zset_view) \<times> (string \<Rightarrow> int option)"

definition toy_empty :: toy_state where
  "toy_empty = (0, \<lambda>_. no_key, \<lambda>_. None)"

definition toy_units :: "int option \<Rightarrow> int" where
  "toy_units v = (case v of None \<Rightarrow> 0 | Some n \<Rightarrow> n)"

definition toy_redis :: "toy_state redis" where
  "toy_redis =
     \<lparr>serve_at = (\<lambda>t (_, V, u). (t, \<lambda>k. case snd (V k) of Some d \<Rightarrow> if d \<le> t then no_key else V k | None \<Rightarrow> V k, u)),
      ZREMRANGEBYSCORE = (\<lambda>k lo hi (t, V, u). (Some 0, (t, V(k := zrem_view lo hi (V k)), u))),
      ZCARD = (\<lambda>k (t, V, u). (Some (int (length (fst (V k)))), (t, V, u))),
      ZADD = (\<lambda>k s m (t, V, u). (Some 1, (t, V(k := zadd_view s m (V k)), u))),
      EXPIRE = (\<lambda>k w (t, V, u). (Some 1, (t, V(k := expire_view t w (V k)), u))),
      HINCRBY = (\<lambda>k f i (t, V, u). (Some (toy_units (u k) + i), (t, V, u(k := Some (toy_units (u k) + i))))),
      XADD = (\<lambda>k kvs r. (Some 0, r)),
      HGET = (\<lambda>k f (t, V, u). case u k of None \<Rightarrow> RNil | Some n \<Rightarrow> RStr (show_int n)),
      KEYS = (\<lambda>p r. Some []),
      lua_number = (\<lambda>x. x), lua_tostring = show_int\<rparr>"

definition toy_see :: "toy_state \<Rightarrow> redis_view" where
  "toy_see r = (fst r, \<lambda>a. fst (snd r) (rl_key a))"

lemma toy_redis_laws: "redis_laws toy_redis toy_see"
proof -
  have "number_laws toy_redis" by (simp add: number_laws_def toy_redis_def)
  moreover have "expiry_law toy_redis toy_see"
    by (auto simp: expiry_law_def toy_redis_def toy_see_def split: option.split)
  ultimately show ?thesis
    by (auto simp: redis_laws_def does_def toy_redis_def toy_see_def fun_eq_iff)
qed

lemma toy_answers: "rcall_delivery c = Delivered \<Longrightarrow> fst (run_script toy_redis l c r) \<noteq> None"
  by (simp add: run_script_def lua_script_def rcall_def toy_redis_def Let_def split: prod.split)

lemma toy_answered: "\<forall>c \<in> set cs. rcall_delivery c = Delivered \<Longrightarrow> answered toy_redis lr cs"
  by (induction cs arbitrary: lr) (simp_all add: toy_answers)

definition sample_rcall :: "i64 \<Rightarrow> redis_call" where
  "sample_rcall t = \<lparr>rcall_check = sample_call t, rcall_random = [char_of (nat t)], rcall_month = ''2025-01'',
     rcall_delivery = Delivered, rcall_later = t, rcall_server = 1000 * t\<rparr>"


text \<open>
  C31. Fallback. The in-memory limiter decides, for the same key and limits, exactly when the client is absent, the script
  gave no reply (the call failed, or a command raised), or the reply has less than six elements; then only its state
  changes in the gateway. Any other reply is taken as it is, and leaves the in-memory limiter alone. And while the
  global burst freeze is on, no check that falls back is admitted as a \<open>BURST\<close>.
\<close>

definition falls_back :: "'r RedisLimiter \<Rightarrow> 'r \<Rightarrow> redis_call \<Rightarrow> bool" where
  "falls_back l r c =
     (case client l of
        None \<Rightarrow> True
      | Some R \<Rightarrow> (case fst (run_script R l c r) of None \<Rightarrow> True | Some res \<Rightarrow> length res < 6))"

theorem redis_fallback:
  "(falls_back l r c \<longrightarrow>
      (let m = mem_Check (memFallback l) ((rcall_check c)\<lparr>call_now := rcall_later c\<rparr>)
       in fst (redis_Check (l, r) c) = fst m \<and> fst (snd (redis_Check (l, r) c)) = l\<lparr>memFallback := snd m\<rparr>)) \<and>
   (\<not> falls_back l r c \<longrightarrow>
      (\<exists>R res. client l = Some R \<and> fst (run_script R l c r) = Some res \<and> fst (redis_Check (l, r) c) = parse_reply res \<and>
         fst (snd (redis_Check (l, r) c)) = l)) \<and>
   (falls_back (redis_SetGlobalBurstFreeze True l) r c \<longrightarrow>
      Status (fst (redis_Check (redis_SetGlobalBurstFreeze True l, r) c)) \<noteq> ''BURST'')"
proof -
  have fb: "fst (redis_Check (l', r) c) = fst (mem_Check (memFallback l') ((rcall_check c)\<lparr>call_now := rcall_later c\<rparr>)) \<and>
      fst (snd (redis_Check (l', r) c)) = l'\<lparr>memFallback := snd (mem_Check (memFallback l') ((rcall_check c)\<lparr>call_now := rcall_later c\<rparr>))\<rparr>"
    if "falls_back l' r c" for l' :: "'a RedisLimiter"
    using that by (auto simp: redis_Check_def falls_back_def fallback_Check_def Let_def split: prod.splits option.splits)
  have "mem_IsGlobalBurstFrozen (memFallback (redis_SetGlobalBurstFreeze True l))"
    by (simp add: redis_SetGlobalBurstFreeze_def mem.frozen_set)
  with fb [of "redis_SetGlobalBurstFreeze True l"]
  have "falls_back (redis_SetGlobalBurstFreeze True l) r c \<longrightarrow>
      Status (fst (redis_Check (redis_SetGlobalBurstFreeze True l, r) c)) \<noteq> ''BURST''"
    using mem.no_burst_frozen by simp
  moreover have "\<not> falls_back l r c \<longrightarrow>
      (\<exists>R res. client l = Some R \<and> fst (run_script R l c r) = Some res \<and> fst (redis_Check (l, r) c) = parse_reply res \<and>
         fst (snd (redis_Check (l, r) c)) = l)"
    by (auto simp: redis_Check_def falls_back_def Let_def split: prod.splits option.splits)
  ultimately show ?thesis using fb [of l] by (simp add: Let_def)
qed

text \<open>A peer that answers with three elements.\<close>

theorem redis_fallback_witness:
  "Status (fst (redis_Check (NewLimiter (Some toy_redis) [], toy_empty)
     ((sample_rcall 100)\<lparr>rcall_delivery := OtherReply [''BURST'', ''1'', ''1'']\<rparr>))) = ''NORMAL''"
proof -
  let ?c = "(sample_rcall 100)\<lparr>rcall_delivery := OtherReply [''BURST'', ''1'', ''1'']\<rparr>"
  have "Status (fst (mem_Check NewInMemoryLimiter (sample_call 100))) = ''NORMAL''" by code_simp
  moreover have "falls_back (NewLimiter (Some toy_redis) []) toy_empty ?c"
    by (simp add: falls_back_def NewLimiter_def run_script_def Let_def)
  ultimately show ?thesis
    using redis_fallback [of "NewLimiter (Some toy_redis) []" toy_empty ?c]
    by (simp add: sample_rcall_def NewLimiter_def sample_call_def Let_def)
qed

text \<open>
  Burst admissions of the fallback are not billed while a Redis client is configured. A check
  that the network did not deliver can be admitted as \<open>BURST\<close> by the in-memory limiter, and yet
  the overage units that \<open>GetOverageUnits\<close> returns, and that the gateway stores, are unchanged.
\<close>

theorem redis_fallback_unbilled:
  assumes "client l = Some R" and "rcall_delivery c = NotSent"
  shows "redis_GetOverageUnits (snd (redis_Check (l, r) c)) month k = redis_GetOverageUnits (l, r) month k"
  using assms
  by (simp add: redis_Check_def run_script_def fallback_Check_def redis_GetOverageUnits_def Let_def
      split: prod.split)

definition sample_limiter :: "toy_state RedisLimiter" where
  "sample_limiter = (NewLimiter (Some toy_redis) [])
     \<lparr>memFallback := NewInMemoryLimiter\<lparr>windows := [(''k'', [100])]\<rparr>\<rparr>"

theorem redis_fallback_unbilled_witness:
  "let out = redis_Check (sample_limiter, toy_empty) ((sample_rcall 110)\<lparr>rcall_delivery := NotSent\<rparr>)
   in Status (fst out) = ''BURST'' \<and> redis_GetOverageUnits (snd out) ''2025-01'' ''k'' = (0, None)"
proof -
  have cl: "client sample_limiter = Some toy_redis" by (simp add: sample_limiter_def NewLimiter_def)
  have "Status (fst (mem_Check (memFallback sample_limiter) (sample_call 110))) = ''BURST''" by code_simp
  then have "Status (fst (redis_Check (sample_limiter, toy_empty) ((sample_rcall 110)\<lparr>rcall_delivery := NotSent\<rparr>))) = ''BURST''"
    by (auto simp: redis_Check_def run_script_def fallback_Check_def cl sample_rcall_def sample_call_def Let_def
        split: prod.split)
  moreover have "redis_GetOverageUnits (sample_limiter, toy_empty) ''2025-01'' ''k'' = (0, None)"
    by (simp add: redis_GetOverageUnits_def cl toy_redis_def toy_empty_def Let_def)
  ultimately show ?thesis
    using redis_fallback_unbilled [OF cl, of "(sample_rcall 110)\<lparr>rcall_delivery := NotSent\<rparr>" toy_empty]
    by (simp add: Let_def)
qed

end
