(* ===== verification/Cache.thy ===== *)
theory Cache
  imports Go_Strings
begin

text \<open>
  \<^verbatim>\<open>internal/cache/cache.go\<close>, lines 31 to 142: the L1 smart fallback cache.

  Every method runs under the cache's mutex and is one step here; the clock reading is an
  argument. \<open>Set\<close> stores deep copies, so an entry is a value. \<open>stopCh\<close> is the flag whether
  the stop channel is closed. The lemmas show what a read sees after a write and after an
  eviction: an entry stays readable through \<open>Get\<close> for two hours past its expiry, through
  \<open>GetLive\<close> only until its expiry.
\<close>

section \<open>Definitions\<close>

record CacheEntry =
  StatusCode :: i64
  Header :: http_header
  Body :: bytes
  ExpiresAt :: gotime
  CachedAt :: gotime

definition IsExpired :: "gotime \<Rightarrow> CacheEntry \<Rightarrow> bool" where
  "IsExpired t e \<longleftrightarrow> t > ExpiresAt e"

record SmartCache =
  entries :: "(string, CacheEntry) gomap"
  stopCh :: bool

text \<open>The second component says whether the cleanup goroutine is started.\<close>

definition NewSmartCache :: "i64 \<Rightarrow> SmartCache \<times> bool" where
  "NewSmartCache cleanupInterval = (\<lparr>entries = [], stopCh = False\<rparr>, cleanupInterval > 0)"

definition cache_Close :: "SmartCache \<Rightarrow> SmartCache" where
  "cache_Close sc = (if stopCh sc then sc else sc\<lparr>stopCh := True\<rparr>)"

definition EvictExpired :: "gotime \<Rightarrow> SmartCache \<Rightarrow> SmartCache" where
  "EvictExpired t sc =
     sc\<lparr>entries := gm_range_delete (\<lambda>k v. time_sub t (ExpiresAt v) > 2 * hour)
          (entries sc) (entries sc)\<rparr>"

text \<open>
  \<open>cleanupLoop\<close> over the rounds of its \<open>select\<close>: each round either takes the closed stop
  channel (\<open>stopped\<close>) and returns, or takes a tick at time \<open>t\<close> and evicts.
\<close>

fun cleanupLoop :: "(gotime \<times> bool) list \<Rightarrow> SmartCache \<Rightarrow> SmartCache" where
  "cleanupLoop [] sc = sc"
| "cleanupLoop ((t, stopped) # ticks) sc =
     (if stopped then sc else cleanupLoop ticks (EvictExpired t sc))"

definition cache_Set ::
  "gotime \<Rightarrow> string \<Rightarrow> i64 \<Rightarrow> http_header \<Rightarrow> bytes \<Rightarrow> i64 \<Rightarrow> SmartCache \<Rightarrow> SmartCache" where
  "cache_Set t key statusCode header body ttl sc =
     (let headerCopy = gm_copy header [];
          bodyCopy = body
      in sc\<lparr>entries := gm_set key
           \<lparr>StatusCode = statusCode, Header = headerCopy, Body = bodyCopy,
            ExpiresAt = t + ttl, CachedAt = t\<rparr> (entries sc)\<rparr>)"

definition cache_Get :: "string \<Rightarrow> SmartCache \<Rightarrow> CacheEntry option" where
  "cache_Get key sc = map_of (entries sc) key"

definition GetLive :: "gotime \<Rightarrow> string \<Rightarrow> SmartCache \<Rightarrow> CacheEntry option" where
  "GetLive t key sc =
     (case cache_Get key sc of
        None \<Rightarrow> None
      | Some e \<Rightarrow> if IsExpired t e then None else Some e)"

definition cache_Len :: "SmartCache \<Rightarrow> nat" where
  "cache_Len sc = length (entries sc)"

definition cache_wf :: "SmartCache \<Rightarrow> bool" where
  "cache_wf sc \<longleftrightarrow> gm_wf (entries sc)"

section \<open>Reads after writes\<close>

lemma cache_wf_New: "cache_wf (fst (NewSmartCache i))"
  by (simp add: cache_wf_def NewSmartCache_def)

lemma cache_wf_Set: "cache_wf sc \<Longrightarrow> cache_wf (cache_Set t k st h b ttl sc)"
  by (simp add: cache_wf_def cache_Set_def)

lemma cache_wf_Evict: "cache_wf sc \<Longrightarrow> cache_wf (EvictExpired t sc)"
  by (simp add: cache_wf_def EvictExpired_def)

lemmas cache_wf_ops = cache_wf_New cache_wf_Set cache_wf_Evict

lemma Get_Set: "cache_Get k' (cache_Set t k st h b ttl sc) =
    (if k' = k then Some \<lparr>StatusCode = st, Header = gm_copy h [], Body = b,
       ExpiresAt = t + ttl, CachedAt = t\<rparr> else cache_Get k' sc)"
  by (simp add: cache_Get_def cache_Set_def Let_def)

lemma Get_Evict: "cache_wf sc \<Longrightarrow> cache_Get k (EvictExpired t sc) =
    (case cache_Get k sc of
       None \<Rightarrow> None
     | Some e \<Rightarrow> if time_sub t (ExpiresAt e) > 2 * hour then None else Some e)"
  by (simp add: cache_Get_def EvictExpired_def cache_wf_def gm_range_delete_self)

lemma time_sub_le: "t \<le> u + d \<Longrightarrow> in_i64 d \<Longrightarrow> time_sub t u \<le> d"
  by (auto simp: time_sub_def sat64_def in_i64_def)

lemma cleanup_keeps:
  assumes "cache_wf sc" and "cache_Get k sc = Some e"
    and "\<forall>(t, stopped) \<in> set ticks. t \<le> ExpiresAt e + 2 * hour"
  shows "cache_Get k (cleanupLoop ticks sc) = Some e"
  using assms
proof (induction ticks sc rule: cleanupLoop.induct)
  case (2 t stopped ticks sc)
  show ?case
  proof (cases stopped)
    case False
    have "time_sub t (ExpiresAt e) \<le> 2 * hour"
      using "2.prems"(3) by (intro time_sub_le) (auto simp: hour_def in_i64_def)
    with "2.prems" have "cache_Get k (EvictExpired t sc) = Some e"
      by (simp add: Get_Evict)
    with "2.IH" [OF False cache_wf_Evict] "2.prems" False show ?thesis by simp
  qed (use "2.prems" in simp)
qed simp

section \<open>Properties\<close>

text \<open>
  C15. Stale fallback availability. After \<open>Set\<close> at time \<open>t\<close> with lifetime \<open>ttl\<close>, whatever the
  cleanup loop does at ticks up to two hours past the expiry, \<open>Get\<close> still returns the stored
  status, headers and body; \<open>GetLive\<close> returns the entry exactly until the expiry; and an
  eviction more than two hours past the expiry removes it.
\<close>

theorem cache_stale_available:
  assumes "cache_wf sc" and "\<forall>(u, stopped) \<in> set ticks. u \<le> t + ttl + 2 * hour"
  shows "(\<exists>e. cache_Get k (cleanupLoop ticks (cache_Set t k st h b ttl sc)) = Some e \<and>
       StatusCode e = st \<and> Header e = gm_copy h [] \<and> Body e = b \<and>
       (\<forall>u. GetLive u k (cleanupLoop ticks (cache_Set t k st h b ttl sc)) =
          (if u \<le> t + ttl then Some e else None))) \<and>
     (\<forall>u. t + ttl + 2 * hour < u \<longrightarrow>
       cache_Get k (EvictExpired u (cache_Set t k st h b ttl sc)) = None)"
proof
  let ?e = "\<lparr>StatusCode = st, Header = gm_copy h [], Body = b,
    ExpiresAt = t + ttl, CachedAt = t\<rparr>"
  have "cache_Get k (cleanupLoop ticks (cache_Set t k st h b ttl sc)) = Some ?e"
    using assms by (intro cleanup_keeps) (simp_all add: cache_wf_Set Get_Set)
  then show "\<exists>e. cache_Get k (cleanupLoop ticks (cache_Set t k st h b ttl sc)) = Some e \<and>
       StatusCode e = st \<and> Header e = gm_copy h [] \<and> Body e = b \<and>
       (\<forall>u. GetLive u k (cleanupLoop ticks (cache_Set t k st h b ttl sc)) =
          (if u \<le> t + ttl then Some e else None))"
    by (simp add: GetLive_def IsExpired_def)
  show "\<forall>u. t + ttl + 2 * hour < u \<longrightarrow>
       cache_Get k (EvictExpired u (cache_Set t k st h b ttl sc)) = None"
    using assms(1)
    by (simp add: Get_Evict cache_wf_Set Get_Set time_sub_def sat64_def hour_def)
qed

theorem cache_stale_available_witness:
  "map_option Body (cache_Get ''GET:/a'' (cleanupLoop [(5000, False), (6000, False)]
     (cache_Set 1000 ''GET:/a'' 200 [] ''ok'' 300 (fst (NewSmartCache 60))))) = Some ''ok''"
  using cache_stale_available [OF cache_wf_New [of 60],
      where ticks = "[(5000, False), (6000, False)]" and t = 1000 and ttl = 300
        and k = "''GET:/a''" and st = 200 and h = "[]" and b = "''ok''"]
  by (auto simp: hour_def)

end
