(* ===== verification/Circuit_Breaker.thy ===== *)
theory Circuit_Breaker
  imports Go_Strings
begin

text \<open>
  \<^verbatim>\<open>internal/cache/cache.go\<close>, lines 10 to 29 and 144 to 266: the upstream circuit breaker.

  \<^item> \<open>CircuitBreaker\<close> is the struct; the clock reading each method makes is an argument.
  \<^item> Every method body runs under the mutex and is one step, except that \<open>AllowRequest\<close>
    reads the atomic cutoff flag before it takes the lock. \<open>cb_step\<close> therefore has two rules for
    it, so that other goroutines may act in between; \<open>AllowRequest\<close> itself is the call without
    interference.
  \<^item> \<open>cb_ok\<close> is the invariant of all reachable states. The further theorems give the trip
    condition, the recovery path, the precedence of the emergency cutoff, and two weaknesses of
    the half-open state.
\<close>

section \<open>Definitions\<close>

datatype CircuitState = CircuitClosed | CircuitHalfOpen | CircuitOpen

fun state_String :: "CircuitState \<Rightarrow> string" where
  "state_String CircuitClosed = ''CLOSED''"
| "state_String CircuitHalfOpen = ''HALF-OPEN''"
| "state_String CircuitOpen = ''OPEN''"

record CircuitBreaker =
  cb_state :: CircuitState
  consecutiveFailures :: i64
  consecutiveSuccesses :: i64
  failureThreshold :: i64
  cooldown :: i64
  latencyThreshold :: i64
  lastStateChange :: gotime
  emergencyCutoff :: bool
  halfOpenProbing :: bool

definition NewCircuitBreaker :: "i64 \<Rightarrow> i64 \<Rightarrow> i64 \<Rightarrow> gotime \<Rightarrow> CircuitBreaker" where
  "NewCircuitBreaker failThreshold latThreshold cool t =
     (let failThreshold = (if failThreshold \<le> 0 then 3 else failThreshold);
          cool = (if cool \<le> 0 then 10 * second else cool);
          latThreshold = (if latThreshold \<le> 0 then 1000 * millisecond else latThreshold)
      in \<lparr>cb_state = CircuitClosed, consecutiveFailures = 0, consecutiveSuccesses = 0,
          failureThreshold = failThreshold, cooldown = cool, latencyThreshold = latThreshold,
          lastStateChange = t, emergencyCutoff = False, halfOpenProbing = False\<rparr>)"

definition SetEmergencyCutoff :: "bool \<Rightarrow> CircuitBreaker \<Rightarrow> CircuitBreaker" where
  "SetEmergencyCutoff enabled cb = cb\<lparr>emergencyCutoff := enabled\<rparr>"

definition IsEmergencyCutoff :: "CircuitBreaker \<Rightarrow> bool" where
  "IsEmergencyCutoff cb = emergencyCutoff cb"

text \<open>The part of \<open>AllowRequest\<close> that runs under the mutex.\<close>

definition AllowRequest_locked ::
  "gotime \<Rightarrow> CircuitBreaker \<Rightarrow> (bool \<times> CircuitState) \<times> CircuitBreaker" where
  "AllowRequest_locked t cb =
     (case cb_state cb of
        CircuitClosed \<Rightarrow> ((True, CircuitClosed), cb)
      | CircuitOpen \<Rightarrow>
          if time_sub t (lastStateChange cb) \<ge> cooldown cb then
            ((True, CircuitHalfOpen),
             cb\<lparr>cb_state := CircuitHalfOpen, lastStateChange := t, consecutiveSuccesses := 0,
                consecutiveFailures := 0, halfOpenProbing := True\<rparr>)
          else ((False, CircuitOpen), cb)
      | CircuitHalfOpen \<Rightarrow>
          if \<not> halfOpenProbing cb then ((True, CircuitHalfOpen), cb\<lparr>halfOpenProbing := True\<rparr>)
          else ((False, CircuitHalfOpen), cb))"

definition AllowRequest ::
  "gotime \<Rightarrow> CircuitBreaker \<Rightarrow> (bool \<times> CircuitState) \<times> CircuitBreaker" where
  "AllowRequest t cb =
     (if emergencyCutoff cb then ((False, CircuitOpen), cb) else AllowRequest_locked t cb)"

definition RecordSuccess :: "gotime \<Rightarrow> CircuitBreaker \<Rightarrow> CircuitBreaker" where
  "RecordSuccess t cb =
     (if cb_state cb = CircuitHalfOpen then
        let cb = cb\<lparr>consecutiveSuccesses := wrap64 (consecutiveSuccesses cb + 1),
                    halfOpenProbing := False\<rparr>
        in if consecutiveSuccesses cb \<ge> 2
           then cb\<lparr>cb_state := CircuitClosed, consecutiveFailures := 0, lastStateChange := t\<rparr>
           else cb
      else if cb_state cb = CircuitClosed then cb\<lparr>consecutiveFailures := 0\<rparr>
      else cb)"

definition RecordFailure :: "i64 \<Rightarrow> gotime \<Rightarrow> CircuitBreaker \<Rightarrow> CircuitBreaker" where
  "RecordFailure latency t cb =
     (let cb = cb\<lparr>consecutiveFailures := wrap64 (consecutiveFailures cb + 1),
                  halfOpenProbing := False\<rparr>
      in if cb_state cb = CircuitHalfOpen
         then cb\<lparr>cb_state := CircuitOpen, lastStateChange := t\<rparr>
         else if consecutiveFailures cb \<ge> failureThreshold cb \<or>
                 (latency > 0 \<and> latency \<ge> latencyThreshold cb)
         then cb\<lparr>cb_state := CircuitOpen, lastStateChange := t\<rparr>
         else cb)"

definition GetState :: "CircuitBreaker \<Rightarrow> CircuitState" where
  "GetState cb = (if emergencyCutoff cb then CircuitOpen else cb_state cb)"

definition LatencyThreshold :: "CircuitBreaker \<Rightarrow> i64" where
  "LatencyThreshold cb = latencyThreshold cb"

subsection \<open>Interleaved calls\<close>

text \<open>
  A system state: the breaker, the clock, and the number of goroutines that have read a false
  cutoff flag in \<open>AllowRequest\<close> and not yet taken the lock.
\<close>

record cb_sys =
  breaker :: CircuitBreaker
  clock :: gotime
  waiting :: nat

inductive cb_step :: "cb_sys \<Rightarrow> cb_sys \<Rightarrow> bool" where
  tick: "clock s \<le> t \<Longrightarrow> cb_step s (s\<lparr>clock := t\<rparr>)"
| allow_load: "\<not> emergencyCutoff (breaker s) \<Longrightarrow> cb_step s (s\<lparr>waiting := Suc (waiting s)\<rparr>)"
| allow_lock: "waiting s = Suc n \<Longrightarrow>
    cb_step s (s\<lparr>waiting := n, breaker := snd (AllowRequest_locked (clock s) (breaker s))\<rparr>)"
| success: "cb_step s (s\<lparr>breaker := RecordSuccess (clock s) (breaker s)\<rparr>)"
| failure: "cb_step s (s\<lparr>breaker := RecordFailure latency (clock s) (breaker s)\<rparr>)"
| cutoff: "cb_step s (s\<lparr>breaker := SetEmergencyCutoff b (breaker s)\<rparr>)"

definition cb_init :: "cb_sys \<Rightarrow> bool" where
  "cb_init s \<longleftrightarrow> waiting s = 0 \<and>
     (\<exists>n l c. in_i64 n \<and> breaker s = NewCircuitBreaker n l c (clock s))"

text \<open>The calls one client makes in sequence, with the verdict of \<open>AllowRequest\<close>.\<close>

datatype cb_op = Allow gotime | Success gotime | Failure i64 gotime | Cutoff bool

fun cb_apply :: "CircuitBreaker \<Rightarrow> cb_op \<Rightarrow> bool option \<times> CircuitBreaker" where
  "cb_apply cb (Allow t) = (case AllowRequest t cb of ((a, st), cb') \<Rightarrow> (Some a, cb'))"
| "cb_apply cb (Success t) = (None, RecordSuccess t cb)"
| "cb_apply cb (Failure l t) = (None, RecordFailure l t cb)"
| "cb_apply cb (Cutoff b) = (None, SetEmergencyCutoff b cb)"

section \<open>The invariant\<close>

definition cb_ok :: "CircuitBreaker \<Rightarrow> bool" where
  "cb_ok cb \<longleftrightarrow>
     0 < failureThreshold cb \<and> in_i64 (failureThreshold cb) \<and>
     0 < cooldown cb \<and> 0 < latencyThreshold cb \<and>
     (halfOpenProbing cb \<longrightarrow> cb_state cb = CircuitHalfOpen) \<and>
     (cb_state cb = CircuitClosed \<longrightarrow>
        0 \<le> consecutiveFailures cb \<and> consecutiveFailures cb < failureThreshold cb) \<and>
     (cb_state cb = CircuitHalfOpen \<longrightarrow>
        consecutiveFailures cb = 0 \<and> 0 \<le> consecutiveSuccesses cb \<and> consecutiveSuccesses cb < 2)"

lemma cb_ok_New: "in_i64 n \<Longrightarrow> cb_ok (NewCircuitBreaker n l c t)"
  by (auto simp: cb_ok_def NewCircuitBreaker_def Let_def second_def millisecond_def in_i64_def)

lemma cb_ok_Allow_locked: "cb_ok cb \<Longrightarrow> cb_ok (snd (AllowRequest_locked t cb))"
  by (auto simp: cb_ok_def AllowRequest_locked_def split: CircuitState.splits)

lemma cb_ok_Allow: "cb_ok cb \<Longrightarrow> cb_ok (snd (AllowRequest t cb))"
  by (simp add: AllowRequest_def cb_ok_Allow_locked)

lemma cb_ok_Success: "cb_ok cb \<Longrightarrow> cb_ok (RecordSuccess t cb)"
  by (auto simp: cb_ok_def RecordSuccess_def Let_def in_i64_def i64_simps)

lemma cb_ok_Failure: "cb_ok cb \<Longrightarrow> cb_ok (RecordFailure l t cb)"
  by (cases "cb_state cb") (auto simp: cb_ok_def RecordFailure_def Let_def i64_simps)

lemma cb_ok_Cutoff: "cb_ok cb \<Longrightarrow> cb_ok (SetEmergencyCutoff b cb)"
  by (simp add: cb_ok_def SetEmergencyCutoff_def)

lemmas cb_ok_ops = cb_ok_New cb_ok_Allow_locked cb_ok_Allow cb_ok_Success cb_ok_Failure cb_ok_Cutoff

interpretation cb: inv_system cb_init cb_step "\<lambda>s. cb_ok (breaker s)"
proof
  show "cb_ok (breaker s)" if "cb_init s" for s
    using that by (auto simp: cb_init_def cb_ok_New)
  show "cb_ok (breaker t)" if "cb_step s t" and "cb_ok (breaker s)" for s t
    using that by (induction rule: cb_step.induct) (simp_all add: cb_ok_ops)
qed

section \<open>Runs\<close>

definition quick :: "CircuitBreaker \<Rightarrow> i64 \<Rightarrow> bool" where
  "quick cb l \<longleftrightarrow> \<not> (l > 0 \<and> l \<ge> latencyThreshold cb)"

lemma RecordFailure_closed:
  assumes "cb_ok cb" and "cb_state cb = CircuitClosed" and "quick cb l"
  shows "consecutiveFailures (RecordFailure l t cb) = consecutiveFailures cb + 1"
    and "failureThreshold (RecordFailure l t cb) = failureThreshold cb"
    and "latencyThreshold (RecordFailure l t cb) = latencyThreshold cb"
    and "cb_state (RecordFailure l t cb) =
      (if consecutiveFailures cb + 1 < failureThreshold cb then CircuitClosed else CircuitOpen)"
  using assms by (auto simp: RecordFailure_def Let_def cb_ok_def quick_def i64_simps)

lemma RecordFailure_open: "cb_state cb = CircuitOpen \<Longrightarrow> cb_state (RecordFailure l t cb) = CircuitOpen"
  by (simp add: RecordFailure_def Let_def)

lemma failures_from_open:
  "cb_state cb = CircuitOpen \<Longrightarrow>
     cb_state (snd (run_ops cb_apply cb (map (\<lambda>(l, t). Failure l t) fs))) = CircuitOpen"
  by (induction fs arbitrary: cb) (auto simp: run_ops_Cons RecordFailure_open simp del: run_ops.simps(2))

text \<open>A breaker that waits for its probe rejects every request, whatever the time.\<close>

definition probe_lost :: "CircuitBreaker \<Rightarrow> bool" where
  "probe_lost cb \<longleftrightarrow> cb_state cb = CircuitHalfOpen \<and> halfOpenProbing cb"

fun no_report :: "cb_op \<Rightarrow> bool" where
  "no_report (Allow t) = True"
| "no_report (Cutoff b) = True"
| "no_report _ = False"

lemma probe_lost_apply:
  "probe_lost cb \<Longrightarrow> no_report op \<Longrightarrow>
     fst (cb_apply cb op) \<noteq> Some True \<and> probe_lost (snd (cb_apply cb op))"
  by (cases op)
    (auto simp: probe_lost_def AllowRequest_def AllowRequest_locked_def SetEmergencyCutoff_def)

text \<open>While a probe is in flight.\<close>

definition probing :: "CircuitBreaker \<Rightarrow> bool" where
  "probing cb \<longleftrightarrow> probe_lost cb \<and> \<not> emergencyCutoff cb"

lemma probing_rejects: "probing cb \<Longrightarrow> run_ops cb_apply cb (map Allow ts) = (replicate (length ts) (Some False), cb)"
  by (induction ts)
    (simp_all add: probing_def probe_lost_def AllowRequest_def AllowRequest_locked_def)

section \<open>Properties\<close>

text \<open>
  C16. Invariant of every reachable state under interleaved calls (with the cutoff flag read
  before the lock): the configured limits are positive, a probe is marked only in HALF-OPEN, a
  CLOSED breaker has fewer failures on record than the threshold, a HALF-OPEN breaker has no
  failure and at most one success on record.
\<close>

theorem cb_reachable_ok: "reachable cb_init cb_step s \<Longrightarrow> cb_ok (breaker s)"
  by (rule cb.reachable_inv)

theorem cb_reachable_ok_witness:
  "cb_ok (SetEmergencyCutoff True (RecordFailure 5 7 (NewCircuitBreaker 3 0 0 7)))"
proof -
  let ?s = "\<lparr>breaker = NewCircuitBreaker 3 0 0 7, clock = 7, waiting = 0\<rparr>"
  have "reachable cb_init cb_step ?s"
    unfolding cb_init_def
    by (rule reachable.start, rule conjI, simp, rule exI [of _ 3], rule exI [of _ 0],
        rule exI [of _ 0]) (simp add: in_i64_def)
  from reachable.move [OF this cb_step.failure]
  have "reachable cb_init cb_step (?s\<lparr>breaker := RecordFailure 5 7 (NewCircuitBreaker 3 0 0 7)\<rparr>)"
    by simp
  from cb_reachable_ok [OF reachable.move [OF this cb_step.cutoff [where b = True]]]
  show ?thesis by simp
qed

text \<open>
  C3. Trip condition. From a CLOSED breaker with no failure on record, a run of reported failures
  none of which exceeds the latency threshold opens the breaker exactly when the run is at least
  as long as the failure threshold.
\<close>

theorem cb_trips_at_threshold:
  assumes "cb_ok cb" and "cb_state cb = CircuitClosed" and "consecutiveFailures cb = 0"
    and "\<forall>(l, t) \<in> set fs. quick cb l"
  shows "cb_state (snd (run_ops cb_apply cb (map (\<lambda>(l, t). Failure l t) fs))) =
     (if int (length fs) < failureThreshold cb then CircuitClosed else CircuitOpen)"
proof -
  have "cb_ok cb \<Longrightarrow> cb_state cb = CircuitClosed \<Longrightarrow> \<forall>(l, t) \<in> set fs. quick cb l \<Longrightarrow>
     cb_state (snd (run_ops cb_apply cb (map (\<lambda>(l, t). Failure l t) fs))) =
     (if consecutiveFailures cb + int (length fs) < failureThreshold cb
      then CircuitClosed else CircuitOpen)" for cb
  proof (induction fs arbitrary: cb)
    case Nil
    then show ?case by (simp add: cb_ok_def)
  next
    case (Cons f fs)
    obtain l t where f: "f = (l, t)" by (cases f)
    let ?cb = "RecordFailure l t cb"
    note now = RecordFailure_closed [OF Cons.prems(1,2), of l t]
    show ?case
    proof (cases "consecutiveFailures cb + 1 < failureThreshold cb")
      case True
      have "\<forall>(l, t) \<in> set fs. quick ?cb l"
        using Cons.prems(3) now(3) f by (auto simp: quick_def)
      with Cons.IH [of ?cb] cb_ok_Failure [OF Cons.prems(1)] now True Cons.prems(3)
      show ?thesis by (simp add: f run_ops_Cons del: run_ops.simps(2))
    next
      case False
      with now(4) Cons.prems(3) f have "cb_state ?cb = CircuitOpen" by simp
      with failures_from_open [of ?cb fs] False show ?thesis
        by (simp add: f run_ops_Cons del: run_ops.simps(2))
    qed
  qed
  from this [OF assms(1,2,4)] assms(3) show ?thesis by simp
qed

theorem cb_trips_at_threshold_witness:
  "cb_state (snd (run_ops cb_apply (NewCircuitBreaker 3 0 0 0)
     (map (\<lambda>(l, t). Failure l t) [(10, 1), (10, 2), (10, 3)]))) = CircuitOpen"
  using cb_trips_at_threshold [of "NewCircuitBreaker 3 0 0 0" "[(10, 1), (10, 2), (10, 3)]"]
    cb_ok_New [of 3 0 0 0]
  by (simp add: NewCircuitBreaker_def quick_def in_i64_def second_def millisecond_def)

text \<open>
  C17. Isolation and recovery. An OPEN breaker rejects every request until the cooldown has passed
  and is not changed by it. The first request at or after the cooldown is admitted as a probe, and until it reports
  every other request is rejected and changes nothing, however many there are and whenever they come; the same holds for the
  second probe, which is admitted after the first has reported success. The second
  success closes the breaker with an empty failure
  record, while one reported failure opens it again.
\<close>

theorem cb_open_and_recovery:
  assumes "cb_ok cb" and "cb_state cb = CircuitOpen" and "\<not> emergencyCutoff cb"
  shows "(time_sub t (lastStateChange cb) < cooldown cb \<longrightarrow>
            AllowRequest t cb = ((False, CircuitOpen), cb)) \<and>
     (cooldown cb \<le> time_sub t (lastStateChange cb) \<longrightarrow>
        fst (AllowRequest t cb) = (True, CircuitHalfOpen) \<and>
        run_ops cb_apply (snd (AllowRequest t cb)) (map Allow ts) =
          (replicate (length ts) (Some False), snd (AllowRequest t cb)) \<and>
        fst (run_ops cb_apply cb ([Allow t, Success u, Allow v] @ map Allow ts)) =
          [Some True, None, Some True] @ replicate (length ts) (Some False) \<and>
        fst (run_ops cb_apply cb [Allow t, Success u, Allow v, Success w]) =
          [Some True, None, Some True, None] \<and>
        cb_state (snd (run_ops cb_apply cb [Allow t, Success u, Allow v, Success w])) = CircuitClosed \<and>
        consecutiveFailures (snd (run_ops cb_apply cb [Allow t, Success u, Allow v, Success w])) = 0 \<and>
        cb_state (snd (run_ops cb_apply cb [Allow t, Failure l u])) = CircuitOpen)"
proof -
  have probe: "probing (snd (AllowRequest t cb))" "probing (snd (run_ops cb_apply cb [Allow t, Success u, Allow v]))"
    if "cooldown cb \<le> time_sub t (lastStateChange cb)"
    using assms that
    by (simp_all add: probing_def probe_lost_def AllowRequest_def AllowRequest_locked_def RecordSuccess_def Let_def wrap64_def)
  have three: "fst (run_ops cb_apply cb [Allow t, Success u, Allow v]) = [Some True, None, Some True]"
    if "cooldown cb \<le> time_sub t (lastStateChange cb)"
    using assms that by (simp add: AllowRequest_def AllowRequest_locked_def RecordSuccess_def Let_def wrap64_def)
  show ?thesis
    unfolding run_ops_append using assms probing_rejects [OF probe(1)] probing_rejects [OF probe(2)] three
    by (auto simp: AllowRequest_def AllowRequest_locked_def RecordSuccess_def RecordFailure_def Let_def wrap64_def)
qed

theorem cb_open_and_recovery_witness:
  "cb_state (snd (run_ops cb_apply (RecordFailure 0 5 (NewCircuitBreaker 1 0 20 0))
     [Allow 25, Success 26, Allow 27, Success 28])) = CircuitClosed \<and>
   fst (run_ops cb_apply (RecordFailure 0 5 (NewCircuitBreaker 1 0 20 0)) [Allow 25, Success 26, Allow 27, Allow 28]) =
     [Some True, None, Some True, Some False]"
proof -
  let ?cb = "RecordFailure 0 5 (NewCircuitBreaker 1 0 20 0)"
  have ok: "cb_ok ?cb" by (intro cb_ok_ops) (simp add: in_i64_def)
  have open_: "cb_state ?cb = CircuitOpen" and "\<not> emergencyCutoff ?cb"
    and "cooldown ?cb \<le> time_sub 25 (lastStateChange ?cb)"
    by code_simp+
  with cb_open_and_recovery [OF ok, of 25 "[28]" 26 27 28] show ?thesis by simp
qed

text \<open>
  The emergency cutoff takes precedence: while it is set \<open>AllowRequest\<close> rejects in every
  state and changes nothing, and \<open>GetState\<close> reports OPEN; clearing it restores the breaker's
  own state.
\<close>

theorem cb_cutoff_precedence:
  "AllowRequest t (SetEmergencyCutoff True cb) = ((False, CircuitOpen), SetEmergencyCutoff True cb) \<and>
   GetState (SetEmergencyCutoff True cb) = CircuitOpen \<and>
   GetState (SetEmergencyCutoff False (SetEmergencyCutoff True cb)) = cb_state cb"
  by (simp add: AllowRequest_def SetEmergencyCutoff_def GetState_def)

text \<open>
  A lost probe blocks for ever. When the half-open probe has been admitted and neither
  \<open>RecordSuccess\<close> nor \<open>RecordFailure\<close> is called for it, every later \<open>AllowRequest\<close> is
  rejected, at any time and whatever is done with the emergency cutoff: HALF-OPEN has no timeout.
\<close>

theorem cb_lost_probe_blocks:
  assumes "cb_state cb = CircuitHalfOpen" and "halfOpenProbing cb" and "list_all no_report ops"
  shows "Some True \<notin> set (fst (run_ops cb_apply cb ops))"
proof -
  have "probe_lost cb" using assms(1,2) by (simp add: probe_lost_def)
  then show ?thesis
    using assms(3)
  proof (induction ops arbitrary: cb)
    case (Cons op ops)
    with probe_lost_apply [OF Cons.prems(1), of op] show ?case
      by (auto simp: run_ops_Cons simp del: run_ops.simps(2))
  qed simp
qed

theorem cb_lost_probe_blocks_witness:
  "Some True \<notin> set (fst (run_ops cb_apply
     (snd (AllowRequest 100 (RecordFailure 0 5 (NewCircuitBreaker 1 0 20 0))))
     [Allow 1000, Cutoff True, Cutoff False, Allow 1000000000000]))"
proof (rule cb_lost_probe_blocks)
  show "cb_state (snd (AllowRequest 100 (RecordFailure 0 5 (NewCircuitBreaker 1 0 20 0)))) =
      CircuitHalfOpen"
    by code_simp
  show "halfOpenProbing (snd (AllowRequest 100 (RecordFailure 0 5 (NewCircuitBreaker 1 0 20 0))))"
    by code_simp
qed simp

text \<open>
  Overlapping probes. HALF-OPEN means to let one probe through at a time, but a success
  reported late, by a request that was admitted while the breaker was CLOSED, clears the mark of
  the probe in flight: the next request is admitted although the first probe has not reported.
\<close>

theorem cb_overlapping_probes:
  assumes "cb_ok cb" and "cb_state cb = CircuitOpen" and "\<not> emergencyCutoff cb"
    and "cooldown cb \<le> time_sub t (lastStateChange cb)"
  shows "fst (run_ops cb_apply cb [Allow t, Allow u, Success late, Allow v]) =
     [Some True, Some False, None, Some True]"
  using assms
  by (simp add: AllowRequest_def AllowRequest_locked_def RecordSuccess_def Let_def wrap64_def)

theorem cb_overlapping_probes_witness:
  "fst (run_ops cb_apply (RecordFailure 0 5 (NewCircuitBreaker 1 0 20 0))
     [Allow 25, Allow 26, Success 27, Allow 28]) = [Some True, Some False, None, Some True]"
proof (rule cb_overlapping_probes)
  show "cb_ok (RecordFailure 0 5 (NewCircuitBreaker 1 0 20 0))"
    by (intro cb_ok_ops) (simp add: in_i64_def)
qed code_simp+

end
