(* ===== verification/Go_Json.thy ===== *)
theory Go_Json
  imports Go_Strings Base64 "HOL-Library.List_Lexorder"
begin

text \<open>
  \<open>json.Marshal\<close> of Go's \<open>encoding/json\<close>, for the shapes the program encodes: \<open>json\<close> is the
  tree a Go value maps to (struct fields in the order of their declaration, \<open>omitempty\<close> fields
  left out by the caller, map keys sorted) and \<open>json_bytes\<close> its bytes, with Go's escaping:
  quotes, backslashes and control characters, the HTML characters \<open><\<close>, \<open>>\<close> and \<open>&\<close>, the line
  separators U+2028 and U+2029, and U+FFFD in place of bytes that are not UTF-8.

  Shown: an encoded string is printable, keeps no raw quote inside and so always ends where
  the encoder closes it.
\<close>

section \<open>Definitions\<close>

datatype json =
    JNull
  | JBool bool
  | JInt int
  | JStr string
  | JArr "json list"
  | JObj "(string \<times> json) list"

text \<open>The length of the valid UTF-8 sequence of a non-ASCII rune at the head, if there is one.\<close>

definition cont :: "nat \<Rightarrow> nat \<Rightarrow> char \<Rightarrow> bool" where
  "cont lo hi c \<longleftrightarrow> lo \<le> of_char c \<and> of_char c \<le> hi"

fun utf8_len :: "string \<Rightarrow> nat option" where
  "utf8_len [] = None"
| "utf8_len (a # s) =
     (let b = (of_char a :: nat);
          tail = (\<lambda>n lo hi.
            if n \<le> length s \<and> cont lo hi (s ! 0) \<and> list_all (cont 0x80 0xBF) (take (n - 1) (drop 1 s))
            then Some (n + 1) else None)
      in if 0xC2 \<le> b \<and> b \<le> 0xDF then tail 1 0x80 0xBF
         else if b = 0xE0 then tail 2 0xA0 0xBF
         else if b = 0xED then tail 2 0x80 0x9F
         else if 0xE1 \<le> b \<and> b \<le> 0xEF then tail 2 0x80 0xBF
         else if b = 0xF0 then tail 3 0x90 0xBF
         else if 0xF1 \<le> b \<and> b \<le> 0xF3 then tail 3 0x80 0xBF
         else if b = 0xF4 then tail 3 0x80 0x8F
         else None)"

definition html_safe :: "nat \<Rightarrow> bool" where
  "html_safe b \<longleftrightarrow> 0x20 \<le> b \<and> b < 0x80 \<and> b \<noteq> 0x22 \<and> b \<noteq> 0x5C \<and> b \<noteq> 0x3C \<and> b \<noteq> 0x3E \<and> b \<noteq> 0x26"

definition backslash :: char where "backslash = CHR 0x5C"
definition dquote :: char where "dquote = CHR 0x22"

text \<open>The escape of an ASCII byte that is not safe.\<close>

definition escape_ascii :: "char \<Rightarrow> string" where
  "escape_ascii c =
     (let b = (of_char c :: nat)
      in if b = 0x22 \<or> b = 0x5C then [backslash, c]
         else if b = 0x08 then [backslash, CHR ''b'']
         else if b = 0x0C then [backslash, CHR ''f'']
         else if b = 0x0A then [backslash, CHR ''n'']
         else if b = 0x0D then [backslash, CHR ''r'']
         else if b = 0x09 then [backslash, CHR ''t'']
         else [backslash] @ ''u00'' @ hex_encode [c])"

text \<open>One step of the encoder: how many bytes it consumes and what it writes.\<close>

definition escape_head :: "char \<Rightarrow> string \<Rightarrow> nat \<times> string" where
  "escape_head c s =
     (if of_char c < (0x80 :: nat) then (1, if html_safe (of_char c) then [c] else escape_ascii c)
      else (case utf8_len (c # s) of
              None \<Rightarrow> (1, [backslash] @ ''ufffd'')
            | Some n \<Rightarrow>
                let r = take n (c # s)
                in (n, if r = [CHR 0xE2, CHR 0x80, CHR 0xA8] then [backslash] @ ''u2028''
                       else if r = [CHR 0xE2, CHR 0x80, CHR 0xA9] then [backslash] @ ''u2029''
                       else r)))"

function escape :: "string \<Rightarrow> string" where
  "escape [] = []"
| "escape (c # s) =
     (case escape_head c s of (n, out) \<Rightarrow> out @ escape (drop (n - 1) s))"
  by pat_completeness auto
termination
  by (relation "measure length") auto

definition json_string :: "string \<Rightarrow> string" where
  "json_string s = [dquote] @ escape s @ [dquote]"

fun json_bytes :: "json \<Rightarrow> bytes" where
  "json_bytes JNull = ''null''"
| "json_bytes (JBool b) = (if b then ''true'' else ''false'')"
| "json_bytes (JInt n) = show_int n"
| "json_bytes (JStr s) = json_string s"
| "json_bytes (JArr js) = ''['' @ join (map json_bytes js) '','' @ '']''"
| "json_bytes (JObj kvs) =
     ''{'' @ join (map (\<lambda>(k, v). json_string k @ '':'' @ json_bytes v) kvs) '','' @ ''}''"

text \<open>A field with \<open>omitempty\<close>, and a string map: keys in byte order.\<close>

definition omit_empty :: "string \<Rightarrow> string \<Rightarrow> (string \<times> json) list" where
  "omit_empty k v = (if v = [] then [] else [(k, JStr v)])"

definition json_map :: "(string, string) gomap \<Rightarrow> json" where
  "json_map m = JObj (map (\<lambda>(k, v). (k, JStr v)) (sort_key (\<lambda>(k, v). map (of_char :: char \<Rightarrow> nat) k) m))"

section \<open>Encoded strings are closed by their own quote\<close>

text \<open>
  A reader of a JSON string: it stops at the first quote that no backslash escapes, returning what
  is after it.
\<close>

fun skip_string :: "string \<Rightarrow> string option" where
  "skip_string [] = None"
| "skip_string (c # s) =
     (if c = dquote then Some s
      else if c = backslash then (case s of [] \<Rightarrow> None | _ # s' \<Rightarrow> skip_string s')
      else skip_string s)"

definition plain :: "char \<Rightarrow> bool" where
  "plain c \<longleftrightarrow> c \<noteq> dquote \<and> c \<noteq> backslash"

lemma skip_plain: "list_all plain p \<Longrightarrow> skip_string (p @ s) = skip_string s"
  by (induction p) (simp_all add: plain_def)

lemma skip_escaped: "skip_string ([backslash, c] @ s) = skip_string s"
  by (simp add: backslash_def dquote_def)

lemma plain_high: "128 \<le> (of_char c :: nat) \<Longrightarrow> plain c"
  by (auto simp: plain_def dquote_def backslash_def)

lemma plain_safe: "html_safe (of_char c) \<Longrightarrow> plain c"
  by (auto simp: plain_def dquote_def backslash_def html_safe_def)

lemma plain_hex: "list_all plain (hex_encode b)"
proof -
  have no: "hex_val dquote = None" "hex_val backslash = None" by code_simp+
  have "plain c" if c: "c \<in> set (hex_encode b)" for c
  proof -
    obtain n where "n < 16" "c = hex_digit n" using hex_encode_chars [OF c] by blast
    then have "hex_val c = Some n" by simp
    with no show ?thesis by (auto simp: plain_def)
  qed
  then show ?thesis by (simp add: list_all_iff)
qed

lemma escape_ascii_skip: "skip_string (escape_ascii c @ s) = skip_string s"
proof -
  have "skip_string (([backslash, CHR ''u''] @ (''00'' @ hex_encode [c])) @ s) = skip_string s"
    unfolding append_assoc skip_escaped
    using skip_plain [of "''00'' @ hex_encode [c]" s] plain_hex [of "[c]"]
    by (simp add: plain_def dquote_def backslash_def)
  then show ?thesis
    using skip_escaped by (auto simp: escape_ascii_def Let_def simp del: skip_string.simps)
qed

lemma utf8_tail:
  assumes "utf8_len (c # s) = Some n"
  shows "1 \<le> n \<and> n \<le> length (c # s) \<and> list_all (\<lambda>x. 128 \<le> (of_char x :: nat)) (take (n - 1) s)"
proof -
  have *: "list_all (\<lambda>x. 128 \<le> (of_char x :: nat)) (take m s)"
    if "m \<le> length s" "0 < m" "cont lo hi (s ! 0)" "128 \<le> lo" "list_all (cont 128 191) (take (m - 1) (drop 1 s))"
    for m lo hi
  proof (cases s)
    case (Cons a t)
    with that show ?thesis by (cases m) (auto simp: cont_def list_all_iff)
  qed (use that in simp)
  show ?thesis
    using assms
    by (auto simp: Let_def split: if_splits intro: * simp del: One_nat_def)
qed

lemma escape_head_skip:
  assumes "escape_head c s = (n, out)"
  shows "skip_string (out @ t) = skip_string t"
proof (cases "of_char c < (128 :: nat)")
  case True
  with assms show ?thesis
    using skip_plain [of "[c]" t] plain_safe [of c] escape_ascii_skip [of c t]
    by (auto simp: escape_head_def simp del: skip_string.simps split: if_splits)
next
  case False
  have u: "skip_string ([backslash, CHR ''u''] @ p @ t) = skip_string t"
    if "p \<in> {''fffd'', ''2028'', ''2029''}" for p
    unfolding skip_escaped using that skip_plain [of p t]
    by (auto simp: plain_def dquote_def backslash_def)
  show ?thesis
  proof (cases "utf8_len (c # s)")
    case None
    with False assms u [of "''fffd''"] show ?thesis by (auto simp: escape_head_def simp del: skip_string.simps)
  next
    case (Some k)
    have "list_all plain (take k (c # s))"
      using utf8_tail [OF Some] False plain_high by (cases k) (auto simp: list_all_iff)
    from skip_plain [OF this] u [of "''2028''"] u [of "''2029''"] Some False assms show ?thesis
      by (auto simp: escape_head_def Let_def simp del: skip_string.simps split: if_splits)
  qed
qed

lemma escape_skip: "skip_string (escape s @ dquote # t) = Some t"
proof (induction s rule: escape.induct)
  case 1
  show ?case by simp
next
  case (2 c s)
  obtain n out where h: "escape_head c s = (n, out)" by fastforce
  with "2.IH" [OF h [symmetric]] escape_head_skip [OF h] show ?case by simp
qed

text \<open>
  No injection through string values. Whatever bytes a field holds (a key, a tier or a title
  chosen by a client), a JSON reader that meets its encoding leaves the string exactly at the
  quote the encoder wrote: the rest of the document is read as the encoder meant it.
\<close>

theorem json_string_closed:
  "json_string s @ t = dquote # escape s @ dquote # t \<and> skip_string (escape s @ dquote # t) = Some t"
  using escape_skip by (simp add: json_string_def)

end
