(* ===== verification/Webhook_Adapters.thy ===== *)
theory Webhook_Adapters
  imports Go_Json
begin

text \<open>
  \<^verbatim>\<open>internal/webhook/adapters.go\<close>: the event type and its encodings for the three kinds of sink.

  The payload structs are records; \<open>json_of_\<dots>\<close> gives the tree that \<open>json.Marshal\<close> encodes
  (field names from the struct tags, \<open>omitempty\<close> fields left out), \<open>json_bytes\<close> of
  \<open>Go_Json\<close> its bytes. Encoding these types cannot fail. The order in which Go visits the
  metadata map is an argument, \<open>order\<close>: its keys in the order of the visit.

  Shown: what each adapter puts into the payload for every event: severity colour, channel
  routing and one field per non-empty attribute.
\<close>

section \<open>Definitions\<close>

record UniversalEvent =
  EventID :: string
  ev_EventType :: string
  APIKey :: string
  ev_Tier :: string
  Timestamp :: i64
  Title :: string
  Description :: string
  Channel :: string
  ev_Signature :: string
  Metadata :: "(string, string) gomap"

record DiscordEmbedField =
  Name :: string
  Value :: string
  Inline :: bool

record DiscordFooter =
  foot_Text :: string

record DiscordEmbed =
  emb_Title :: string
  emb_Description :: string
  Color :: i64
  Fields :: "DiscordEmbedField list"
  Footer :: DiscordFooter

record DiscordPayload =
  Username :: string
  AvatarURL :: string
  Embeds :: "DiscordEmbed list"

record SlackText =
  st_Type :: string
  st_Text :: string

record SlackBlock =
  blk_Type :: string
  blk_Text :: "SlackText option"
  blk_Fields :: "SlackText list"

record SlackPayload =
  sl_Channel :: string
  Blocks :: "SlackBlock list"

subsection \<open>JSON trees\<close>

definition json_of_event :: "UniversalEvent \<Rightarrow> json" where
  "json_of_event e =
     JObj ([(''event_id'', JStr (EventID e)), (''event_type'', JStr (ev_EventType e)),
            (''api_key'', JStr (APIKey e)), (''tier'', JStr (ev_Tier e)), (''timestamp'', JInt (Timestamp e)),
            (''title'', JStr (Title e)), (''description'', JStr (Description e))]
        @ omit_empty ''channel'' (Channel e) @ omit_empty ''signature'' (ev_Signature e)
        @ (if Metadata e = [] then [] else [(''metadata'', json_map (Metadata e))]))"

definition json_of_field :: "DiscordEmbedField \<Rightarrow> json" where
  "json_of_field f = JObj [(''name'', JStr (Name f)), (''value'', JStr (Value f)), (''inline'', JBool (Inline f))]"

definition json_of_embed :: "DiscordEmbed \<Rightarrow> json" where
  "json_of_embed e =
     JObj [(''title'', JStr (emb_Title e)), (''description'', JStr (emb_Description e)), (''color'', JInt (Color e)),
           (''fields'', JArr (map json_of_field (Fields e))), (''footer'', JObj [(''text'', JStr (foot_Text (Footer e)))])]"

definition json_of_discord :: "DiscordPayload \<Rightarrow> json" where
  "json_of_discord p =
     JObj ([(''username'', JStr (Username p))] @ omit_empty ''avatar_url'' (AvatarURL p)
        @ [(''embeds'', JArr (map json_of_embed (Embeds p)))])"

definition json_of_text :: "SlackText \<Rightarrow> json" where
  "json_of_text t = JObj [(''type'', JStr (st_Type t)), (''text'', JStr (st_Text t))]"

definition json_of_block :: "SlackBlock \<Rightarrow> json" where
  "json_of_block b =
     JObj ([(''type'', JStr (blk_Type b))]
        @ (case blk_Text b of None \<Rightarrow> [] | Some t \<Rightarrow> [(''text'', json_of_text t)])
        @ (if blk_Fields b = [] then [] else [(''fields'', JArr (map json_of_text (blk_Fields b)))]))"

definition json_of_slack :: "SlackPayload \<Rightarrow> json" where
  "json_of_slack p = JObj (omit_empty ''channel'' (sl_Channel p) @ [(''blocks'', JArr (map json_of_block (Blocks p)))])"

subsection \<open>The adapters\<close>

definition AdaptGeneric :: "UniversalEvent \<Rightarrow> bytes" where
  "AdaptGeneric event = json_bytes (json_of_event event)"

text \<open>The entries of the metadata map in the order of the visit.\<close>

definition visit :: "string list \<Rightarrow> (string, string) gomap \<Rightarrow> (string \<times> string) list" where
  "visit order m = List.map_filter (\<lambda>k. map_option (\<lambda>v. (k, v)) (map_of m k)) order"

text \<open>The UTF-8 bytes of the emoji and the space after it.\<close>

definition siren :: string where
  "siren = [CHR 0xF0, CHR 0x9F, CHR 0x9A, CHR 0xA8]"

definition shield :: string where
  "shield = [CHR 0xF0, CHR 0x9F, CHR 0x9B, CHR 0xA1, CHR 0xEF, CHR 0xB8, CHR 0x8F]"

definition discord_payload :: "string list \<Rightarrow> UniversalEvent \<Rightarrow> DiscordPayload" where
  "discord_payload order event =
     (let color = 0x3498DB;
          color = (if ev_EventType event = ''SECURITY_INCIDENT'' \<or> ev_EventType event = ''KILL_SWITCH'' then 0xE74C3C
                   else if ev_EventType event = ''BURST_OVERAGE'' then 0xF39C12 else color);
          fields =
            [\<lparr>Name = ''Event Type'', Value = ev_EventType event, Inline = True\<rparr>,
             \<lparr>Name = ''Tier'', Value = ev_Tier event, Inline = True\<rparr>,
             \<lparr>Name = ''API Key'', Value = APIKey event, Inline = True\<rparr>,
             \<lparr>Name = ''Timestamp'', Value = show_int (Timestamp event), Inline = True\<rparr>];
          fields = (if Channel event \<noteq> [] then fields @ [\<lparr>Name = ''Channel'', Value = Channel event, Inline = True\<rparr>]
                    else fields);
          fields = (if ev_Signature event \<noteq> []
                    then fields @ [\<lparr>Name = ''Signature'', Value = ev_Signature event, Inline = False\<rparr>] else fields);
          fields = fields @ map (\<lambda>(k, v). \<lparr>Name = k, Value = v, Inline = True\<rparr>) (visit order (Metadata event))
      in \<lparr>Username = ''AegisPulse Security Gate'', AvatarURL = [],
          Embeds = [\<lparr>emb_Title = siren @ '' AegisPulse Alert: '' @ Title event, emb_Description = Description event,
                     Color = color, Fields = fields,
                     Footer = \<lparr>foot_Text = ''AegisPulse Universal Webhook Engine''\<rparr>\<rparr>]\<rparr>)"

definition AdaptDiscord :: "string list \<Rightarrow> UniversalEvent \<Rightarrow> bytes" where
  "AdaptDiscord order event = json_bytes (json_of_discord (discord_payload order event))"

definition mrkdwn :: "string \<Rightarrow> string \<Rightarrow> SlackText" where
  "mrkdwn label text = \<lparr>st_Type = ''mrkdwn'', st_Text = ''*'' @ label @ '':*'' @ [CHR 0x0A] @ text\<rparr>"

definition slack_payload :: "string list \<Rightarrow> UniversalEvent \<Rightarrow> SlackPayload" where
  "slack_payload order event =
     (let channel = Channel event;
          channel = (if channel = [] \<and> (ev_EventType event = ''SECURITY_INCIDENT'' \<or> ev_EventType event = ''KILL_SWITCH'')
                     then ''#security-incidents'' else channel);
          fields = [mrkdwn ''Event'' (ev_EventType event), mrkdwn ''Tier'' (ev_Tier event),
                    mrkdwn ''API Key'' (APIKey event), mrkdwn ''Timestamp'' (show_int (Timestamp event))];
          fields = (if channel \<noteq> [] then fields @ [mrkdwn ''Channel'' channel] else fields);
          fields = (if ev_Signature event \<noteq> []
                    then fields @ [mrkdwn ''Signature'' ([CHR 0x60] @ ev_Signature event @ [CHR 0x60])] else fields);
          fields = fields @ map (\<lambda>(k, v). mrkdwn k v) (visit order (Metadata event))
      in \<lparr>sl_Channel = channel,
          Blocks =
            [\<lparr>blk_Type = ''header'',
              blk_Text = Some \<lparr>st_Type = ''plain_text'', st_Text = shield @ '' AegisPulse Alert: '' @ Title event\<rparr>,
              blk_Fields = []\<rparr>,
             \<lparr>blk_Type = ''section'', blk_Text = Some \<lparr>st_Type = ''mrkdwn'', st_Text = Description event\<rparr>,
              blk_Fields = []\<rparr>,
             \<lparr>blk_Type = ''section'', blk_Text = None, blk_Fields = fields\<rparr>]\<rparr>)"

definition AdaptSlack :: "string list \<Rightarrow> UniversalEvent \<Rightarrow> bytes" where
  "AdaptSlack order event = json_bytes (json_of_slack (slack_payload order event))"

text \<open>The switch on the sink type, in the engine and in the dead-letter queue.\<close>

definition adapt :: "string list \<Rightarrow> string \<Rightarrow> UniversalEvent \<Rightarrow> bytes" where
  "adapt order sinkType event =
     (if sinkType = ''discord'' then AdaptDiscord order event
      else if sinkType = ''slack'' then AdaptSlack order event
      else AdaptGeneric event)"

section \<open>Properties\<close>

lemma visit_set:
  assumes "distinct order" and "set order = dom (map_of m)"
  shows "distinct (map fst (visit order m)) \<and> set (visit order m) = {(k, v). map_of m k = Some v}"
proof -
  have some: "map_option (\<lambda>v. (k, v)) (map_of m k) = Some (k, the (map_of m k))" if "k \<in> set order" for k
    using that assms(2) by auto
  have "filter (\<lambda>k. map_option (\<lambda>v. (k, v)) (map_of m k) \<noteq> None) order = order"
    using some by (intro filter_True) auto
  then have "visit order m = map (\<lambda>k. (k, the (map_of m k))) order"
    unfolding visit_def List.map_filter_def by (auto simp: some)
  then show ?thesis using assms by (auto simp: comp_def)
qed

text \<open>
  What the sinks show. Whatever order Go visits the metadata in, the Discord embed has red for
  security events, amber for overages and blue otherwise, and both payloads carry every metadata
  entry exactly once after the fixed fields; a Slack message for a security event without a
  channel goes to the incident channel and its channel is also one of its fields.
\<close>

theorem adapters_complete:
  assumes "distinct order" and "set order = dom (map_of (Metadata e))"
  shows "(\<exists>emb. Embeds (discord_payload order e) = [emb] \<and>
      (Color emb = 0xE74C3C \<longleftrightarrow> ev_EventType e \<in> {''SECURITY_INCIDENT'', ''KILL_SWITCH''}) \<and>
      (Color emb = 0xF39C12 \<longleftrightarrow> ev_EventType e = ''BURST_OVERAGE'') \<and>
      (\<exists>ms. drop (4 + length (filter (\<lambda>s. s \<noteq> []) [Channel e, ev_Signature e])) (Fields emb) =
              map (\<lambda>(k, v). \<lparr>Name = k, Value = v, Inline = True\<rparr>) ms \<and>
            distinct (map fst ms) \<and> set ms = {(k, v). map_of (Metadata e) k = Some v})) \<and>
    (Channel e = [] \<and> ev_EventType e \<in> {''SECURITY_INCIDENT'', ''KILL_SWITCH''} \<longrightarrow>
      sl_Channel (slack_payload order e) = ''#security-incidents'' \<and>
      mrkdwn ''Channel'' ''#security-incidents'' \<in> set (blk_Fields (last (Blocks (slack_payload order e)))))"
  using visit_set [OF assms]
  by (auto simp: discord_payload_def slack_payload_def Let_def intro: exI [of _ "visit order (Metadata e)"])

definition sample_event :: UniversalEvent where
  "sample_event = \<lparr>EventID = ''evt_1'', ev_EventType = ''KILL_SWITCH'', APIKey = ''k'', ev_Tier = ''free'', Timestamp = 1000,
     Title = ''t'', Description = ''d'', Channel = [], ev_Signature = [], Metadata = [(''a'', ''1'')]\<rparr>"

theorem adapters_complete_witness:
  "sl_Channel (slack_payload [''a''] sample_event) = ''#security-incidents''"
  using adapters_complete [of "[''a'']" sample_event] by (simp add: sample_event_def)

end
