(* ===== verification/Webhook_DLQ.thy ===== *)
theory Webhook_DLQ
  imports Webhook_Adapters Crypto
begin

text \<open>
  \<^verbatim>\<open>internal/webhook/dlq.go\<close>: the dead-letter queue, kept in memory and appended to a Redis stream.

  The stream commands are the fields of \<open>dlq_stream\<close>, over a server state of arbitrary type. The
  HTTP client is an argument that answers a request. Timestamps are formatted in the machine's
  time zone, so their text is an argument; it is \<open>None\<close> for the years that \<open>MarshalJSON\<close>
  refuses. Decoding an item from the stream is an argument as well.

  Shown: a retry sends a signature that its receiver accepts, removes the item exactly on a 2xx
  answer and otherwise counts the failure; and that a delivered item, which stays in the stream,
  comes back when the queue is loaded again.
\<close>

section \<open>Definitions\<close>

record DLQItem =
  dlq_ID :: string
  Event :: UniversalEvent
  dlq_SinkType :: string
  dlq_TargetURL :: string
  Secret :: string
  RetryCount :: i64
  LastError :: string
  FailedAt :: gotime
  PayloadJSON :: bytes

record 's dlq_stream =
  XRANGE_all :: "string \<Rightarrow> 's \<Rightarrow> (string, string) gomap list option"
  XADD_dlq :: "string \<Rightarrow> (string, string) gomap \<Rightarrow> 's \<Rightarrow> bool \<times> 's"

record 's DLQManager =
  dlq_redis :: "'s dlq_stream option"
  streamDLQ :: string
  inMemory :: "(string, DLQItem) gomap"

definition NewDLQManager :: "'s dlq_stream option \<Rightarrow> string \<Rightarrow> 's DLQManager" where
  "NewDLQManager client stream =
     \<lparr>dlq_redis = client, streamDLQ = (if stream = [] then ''stream:gateway:dlq'' else stream), inMemory = []\<rparr>"

definition json_of_item :: "string \<Rightarrow> DLQItem \<Rightarrow> json" where
  "json_of_item failedAt i =
     JObj [(''id'', JStr (dlq_ID i)), (''event'', json_of_event (Event i)), (''sink_type'', JStr (dlq_SinkType i)),
           (''target_url'', JStr (dlq_TargetURL i)), (''secret'', JStr (Secret i)), (''retry_count'', JInt (RetryCount i)),
           (''last_error'', JStr (LastError i)), (''failed_at'', JStr failedAt),
           (''payload_json'', JStr (b64_encode (PayloadJSON i)))]"

text \<open>The loop over the stream's messages; one without item data or with other bytes is skipped.\<close>

fun load_loop :: "(bytes \<Rightarrow> DLQItem option) \<Rightarrow> (string, string) gomap list \<Rightarrow> (string, DLQItem) gomap \<Rightarrow> (string, DLQItem) gomap" where
  "load_loop decode [] m = m"
| "load_loop decode (values # msgs) m =
     (case Option.bind (map_of values ''item_data'') decode of
        Some item \<Rightarrow> load_loop decode msgs (gm_set (dlq_ID item) item m)
      | None \<Rightarrow> load_loop decode msgs m)"

definition LoadFromRedis :: "(bytes \<Rightarrow> DLQItem option) \<Rightarrow> 's DLQManager \<Rightarrow> 's \<Rightarrow> bool \<times> 's DLQManager" where
  "LoadFromRedis decode m s =
     (case dlq_redis m of
        None \<Rightarrow> (True, m)
      | Some R \<Rightarrow>
          (case XRANGE_all R (streamDLQ m) s of
             None \<Rightarrow> (False, m)
           | Some msgs \<Rightarrow> (True, m\<lparr>inMemory := load_loop decode msgs (inMemory m)\<rparr>)))"

text \<open>\<open>fmt\<close> is the text of a time; the result says whether encoding succeeded.\<close>

definition Enqueue :: "(gotime \<Rightarrow> string option) \<Rightarrow> 's DLQManager \<Rightarrow> 's \<Rightarrow> DLQItem \<Rightarrow> bool \<times> 's DLQManager \<times> 's" where
  "Enqueue fmt m s item =
     (let m = m\<lparr>inMemory := gm_set (dlq_ID item) item (inMemory m)\<rparr>
      in case fmt (FailedAt item) of
           None \<Rightarrow> (False, m, s)
         | Some failedAt \<Rightarrow>
             (case dlq_redis m of
                None \<Rightarrow> (True, m, s)
              | Some R \<Rightarrow>
                  (True, m, snd (XADD_dlq R (streamDLQ m)
                     [(''dlq_id'', dlq_ID item), (''item_data'', json_bytes (json_of_item failedAt item))] s))))"

definition GetPendingCount :: "'s DLQManager \<Rightarrow> i64" where
  "GetPendingCount m = wrap64 (int (length (inMemory m)))"

text \<open>\<open>List\<close> returns the items in the order of the visit.\<close>

definition dlq_List :: "string list \<Rightarrow> 's DLQManager \<Rightarrow> DLQItem list" where
  "dlq_List order m = List.map_filter (\<lambda>k. map_of (inMemory m) k) order"

subsection \<open>Retry\<close>

record http_req =
  req_url :: string
  req_header :: http_header
  req_body :: bytes

text \<open>A request cannot be built (a bad URL), fails on the network, or is answered.\<close>

datatype http_outcome = BuildError string | NetError string | HttpResp int bytes

datatype retry_error = ItemNotFound string | RetryBuildError string | RetryNetError string | RetryHttpError int

definition is_2xx :: "int \<Rightarrow> bool" where
  "is_2xx code \<longleftrightarrow> 200 \<le> code \<and> code < 300"

definition retry_secret :: "DLQItem \<Rightarrow> bytes" where
  "retry_secret item = (if Secret item = [] then ''aegis_default_webhook_secret'' else Secret item)"

definition retry_request :: "golib \<Rightarrow> i64 \<Rightarrow> DLQItem \<Rightarrow> bytes \<Rightarrow> http_req" where
  "retry_request lib now item payload =
     \<lparr>req_url = dlq_TargetURL item,
      req_header = hdr_set ''User-Agent'' ''AegisPulse-DLQ-Retry/1.0''
        (hdr_set ''X-Aegis-Signature'' (GenerateSignature lib payload (retry_secret item) now)
          (hdr_set ''Content-Type'' ''application/json'' [])),
      req_body = payload\<rparr>"

text \<open>\<open>order\<close> is the visit of the metadata; the third component is the request that was sent.\<close>

definition ReSignAndRetry ::
  "golib \<Rightarrow> i64 \<Rightarrow> string list \<Rightarrow> (http_req \<Rightarrow> http_outcome) \<Rightarrow> 's DLQManager \<Rightarrow> string
     \<Rightarrow> (bool \<times> retry_error option) \<times> 's DLQManager \<times> http_req option" where
  "ReSignAndRetry lib now order send m itemId =
     (case map_of (inMemory m) itemId of
        None \<Rightarrow> ((False, Some (ItemNotFound itemId)), m, None)
      | Some item \<Rightarrow>
          (let item = item\<lparr>Event := (Event item)\<lparr>Timestamp := now\<rparr>\<rparr>;
               payload = adapt order (dlq_SinkType item) (Event item);
               item = item\<lparr>PayloadJSON := payload\<rparr>;
               req = retry_request lib now item payload;
               store = (\<lambda>item. m\<lparr>inMemory := gm_set itemId item (inMemory m)\<rparr>)
           in case send req of
                BuildError e \<Rightarrow> ((False, Some (RetryBuildError e)), store item, None)
              | NetError e \<Rightarrow>
                  ((False, Some (RetryNetError e)),
                   store (item\<lparr>LastError := ''retry network error: '' @ e, RetryCount := wrap64 (RetryCount item + 1)\<rparr>),
                   Some req)
              | HttpResp code body \<Rightarrow>
                  if is_2xx code then ((True, None), m\<lparr>inMemory := gm_del itemId (inMemory m)\<rparr>, Some req)
                  else ((False, Some (RetryHttpError code)),
                        store (item\<lparr>LastError := ''HTTP '' @ show_int code @ '': '' @ body,
                                    RetryCount := wrap64 (RetryCount item + 1)\<rparr>),
                        Some req)))"

section \<open>Properties\<close>

text \<open>
  C20. Re-signed retries. For an item of the queue, the request sent carries a signature that a
  receiver with the item's secret accepts at the time of the retry, for the payload it carries. The retry succeeds exactly
  when the answer has a status from 200 to 299; then the item, and only it, is removed. When the network fails or the endpoint
  answers anything else, the item
  stays, with its retry count increased and the error recorded; every other item is
  untouched. An unknown id sends nothing and changes nothing.
\<close>

theorem resign_and_retry:
  assumes "gm_wf (inMemory m)" and "in_i64 now" and "now \<noteq> 0" and "0 \<le> tolerance" and "\<And>key msg. hmac_sha256 lib key msg \<noteq> []"
    and "ReSignAndRetry lib now order send m k = ((ok, err), m', req)"
  shows "case map_of (inMemory m) k of
      None \<Rightarrow> \<not> ok \<and> err = Some (ItemNotFound k) \<and> m' = m \<and> req = None
    | Some item \<Rightarrow>
        (\<forall>r. req = Some r \<longrightarrow>
          VerifySignature lib clk (req_body r) (hdr_get (req_header r) ''X-Aegis-Signature'') (retry_secret item) tolerance now
            = (True, None)) \<and>
        (ok \<longleftrightarrow> (\<exists>r code body. req = Some r \<and> send r = HttpResp code body \<and> 200 \<le> code \<and> code \<le> 299)) \<and>
        (ok \<longrightarrow> err = None \<and> map_of (inMemory m') k = None \<and> length (inMemory m') + 1 = length (inMemory m)) \<and>
        (\<not> ok \<longrightarrow> length (inMemory m') = length (inMemory m) \<and>
          (\<exists>item'. map_of (inMemory m') k = Some item' \<and> Timestamp (Event item') = now \<and>
            (case req of
               None \<Rightarrow> (\<exists>e. err = Some (RetryBuildError e)) \<and> RetryCount item' = RetryCount item \<and> LastError item' = LastError item
             | Some r \<Rightarrow> RetryCount item' = wrap64 (RetryCount item + 1) \<and>
                 (case send r of
                    NetError e \<Rightarrow> err = Some (RetryNetError e) \<and> LastError item' = ''retry network error: '' @ e
                  | HttpResp code body \<Rightarrow> err = Some (RetryHttpError code) \<and> LastError item' = ''HTTP '' @ show_int code @ '': '' @ body
                  | BuildError e \<Rightarrow> False)))) \<and>
        (\<forall>k'. k' \<noteq> k \<longrightarrow> map_of (inMemory m') k' = map_of (inMemory m) k')"
proof (cases "map_of (inMemory m) k")
  case None
  with assms(6) show ?thesis by (simp add: ReSignAndRetry_def)
next
  case (Some item)
  let ?item = "item\<lparr>Event := (Event item)\<lparr>Timestamp := now\<rparr>\<rparr>"
  let ?pay = "adapt order (dlq_SinkType ?item) (Event ?item)"
  let ?req = "retry_request lib now (?item\<lparr>PayloadJSON := ?pay\<rparr>) ?pay"
  have "fresh tolerance now now" using assms(4) by (simp add: fresh_def wrap64_def)
  then have sig: "VerifySignature lib clk ?pay (GenerateSignature lib ?pay (retry_secret item) now) (retry_secret item) tolerance now
      = (True, None)"
    using verify_generated [OF assms(2) assms(5) assms(3)] by simp
  have ck: "canonical_key ''User-Agent'' \<noteq> canonical_key ''X-Aegis-Signature''" by code_simp
  have "hdr_get (req_header ?req) ''X-Aegis-Signature'' = GenerateSignature lib ?pay (retry_secret item) now"
    using ck [symmetric] by (simp add: retry_request_def hdr_get_set retry_secret_def)
  then have acc: "VerifySignature lib clk (req_body ?req) (hdr_get (req_header ?req) ''X-Aegis-Signature'')
      (retry_secret item) tolerance now = (True, None)"
    using sig by (simp add: retry_request_def)
  have ne: "inMemory m \<noteq> []" using Some by auto
  show ?thesis
    using assms(6,1) Some acc ne
    by (auto simp: ReSignAndRetry_def Let_def is_2xx_def gm.len_put gm.len_del split: http_outcome.splits if_splits)
qed

definition sample_item :: DLQItem where
  "sample_item = \<lparr>dlq_ID = ''dlq_1'', Event = sample_event, dlq_SinkType = ''generic'', dlq_TargetURL = ''http://r'',
     Secret = ''s3cret'', RetryCount = 3, LastError = ''timeout'', FailedAt = 0, PayloadJSON = ''{}''\<rparr>"

definition sample_dlq :: "'s DLQManager" where
  "sample_dlq = \<lparr>dlq_redis = None, streamDLQ = ''dlq'', inMemory = [(''dlq_1'', sample_item)]\<rparr>"

theorem resign_and_retry_witness:
  "map_of (inMemory (fst (snd (ReSignAndRetry toy_lib 1000 [''a''] (\<lambda>r. HttpResp 204 []) (sample_dlq :: unit DLQManager) ''dlq_1'')))) ''dlq_1'' = None"
proof -
  obtain ok err m' req where out:
    "ReSignAndRetry toy_lib 1000 [''a''] (\<lambda>r. HttpResp 204 []) (sample_dlq :: unit DLQManager) ''dlq_1'' = ((ok, err), m', req)"
    by (metis prod.exhaust)
  have "map_of (inMemory (sample_dlq :: unit DLQManager)) ''dlq_1'' = Some sample_item" by (simp add: sample_dlq_def)
  moreover have "ok" using out by (simp add: ReSignAndRetry_def sample_dlq_def Let_def is_2xx_def)
  ultimately show ?thesis
    using resign_and_retry [OF _ _ _ _ _ out, of 60 0] out
    by (simp add: sample_dlq_def gm_wf_def in_i64_def toy_lib_def)
qed

text \<open>
  Delivered items come back. Enqueueing appends an item to the Redis stream, a successful
  retry removes it from memory only: loading the queue from the stream, as the gateway does at
  start, brings the delivered item back. Assumed of Redis: what was appended is in the range
  read, after what was there; and of the decoder that it inverts the encoder on this item.
\<close>

theorem delivered_item_returns:
  assumes "dlq_redis m = Some R" and "fmt (FailedAt item) = Some ts"
    and "\<And>k vs s msgs. XRANGE_all R k s = Some msgs \<Longrightarrow> XRANGE_all R k (snd (XADD_dlq R k vs s)) = Some (msgs @ [vs])"
    and "decode (json_bytes (json_of_item ts item)) = Some item" and "XRANGE_all R (streamDLQ m) s = Some msgs"
    and "Enqueue fmt m s item = (ok, m', s')"
    and "ReSignAndRetry lib now order send m' (dlq_ID item) = ((True, None), m'', req)"
  shows "map_of (inMemory m'') (dlq_ID item) = None \<and>
    map_of (inMemory (snd (LoadFromRedis decode m'' s'))) (dlq_ID item) = Some item"
proof -
  have m': "dlq_redis m' = Some R" "streamDLQ m' = streamDLQ m"
    and s': "XRANGE_all R (streamDLQ m) s' =
      Some (msgs @ [[(''dlq_id'', dlq_ID item), (''item_data'', json_bytes (json_of_item ts item))]])"
    using assms(1,2,5,6) assms(3) [OF assms(5)] by (auto simp: Enqueue_def)
  have m'': "dlq_redis m'' = Some R" "streamDLQ m'' = streamDLQ m" "map_of (inMemory m'') (dlq_ID item) = None"
    using assms(7) m' by (auto simp: ReSignAndRetry_def Let_def split: option.splits http_outcome.splits if_splits)
  have loop: "load_loop decode (ms @ [vs]) mm = load_loop decode [vs] (load_loop decode ms mm)" for ms vs mm
    by (induction decode ms mm rule: load_loop.induct) (auto split: option.split)
  show ?thesis using m'' s' assms(4) by (simp add: LoadFromRedis_def loop)
qed

text \<open>A stream for the witness: the list of the appended messages.\<close>

definition toy_stream :: "(string, string) gomap list dlq_stream" where
  "toy_stream = \<lparr>XRANGE_all = (\<lambda>k s. Some s), XADD_dlq = (\<lambda>k vs s. (True, s @ [vs]))\<rparr>"

theorem delivered_item_returns_witness:
  "\<exists>(m'' :: (string, string) gomap list DLQManager) s'. map_of (inMemory m'') ''dlq_1'' = None \<and>
     map_of (inMemory (snd (LoadFromRedis (\<lambda>d. Some sample_item) m'' s'))) ''dlq_1'' = Some sample_item"
proof -
  let ?m = "NewDLQManager (Some toy_stream) ''dlq''"
  obtain ok m' s' where enq: "Enqueue (\<lambda>t. Some ''t'') ?m [] sample_item = (ok, m', s')" by (metis prod.exhaust)
  then have mem: "inMemory m' = [(''dlq_1'', sample_item)]"
    by (auto simp: Enqueue_def NewDLQManager_def sample_item_def gm_set_def Let_def)
  obtain m'' req where retry: "ReSignAndRetry toy_lib 1000 [] (\<lambda>r. HttpResp 200 []) m' ''dlq_1'' = ((True, None), m'', req)"
    using mem by (simp add: ReSignAndRetry_def Let_def is_2xx_def)
  have "dlq_ID sample_item = ''dlq_1''" by (simp add: sample_item_def)
  with retry have "ReSignAndRetry toy_lib 1000 [] (\<lambda>r. HttpResp 200 []) m' (dlq_ID sample_item) = ((True, None), m'', req)" by simp
  from delivered_item_returns [of ?m toy_stream "\<lambda>t. Some ''t''" sample_item "''t''" "\<lambda>d. Some sample_item" "[]" "[]",
      OF _ _ _ _ _ enq this] show ?thesis
    by (auto simp: NewDLQManager_def toy_stream_def sample_item_def)
qed

end
