(* ===== verification/Metrics.thy ===== *)
theory Metrics
  imports Go_Float Go_Strings
begin

text \<open>
  \<^verbatim>\<open>internal/metrics/metrics.go\<close>: the counters behind the dashboards and the latency window.

  The Prometheus client is a library the source only calls: each call on one of its collectors is
  recorded in \<open>prom\<close>, in order. The internal counters are int64 atomics and wrap. The methods
  take one lock at most, so each is one atomic step.

  \<open>float64\<close> is made a linear order, the order of \<open>sort.Float64s\<close> (NaN first). Shown: the window
  never holds more than the last 100 samples, and the percentiles never index out of range, are
  samples of the window and are in order.
\<close>

section \<open>Definitions\<close>

subsection \<open>The order of sort.Float64s\<close>

fun f_rank :: "float64 \<Rightarrow> nat" where
  "f_rank NaN = 0"
| "f_rank NInf = 1"
| "f_rank (Fin q) = 2"
| "f_rank PInf = 3"

fun f_rat :: "float64 \<Rightarrow> rat" where
  "f_rat (Fin q) = q"
| "f_rat _ = 0"

instantiation float64 :: linorder
begin

definition less_eq_float64 :: "float64 \<Rightarrow> float64 \<Rightarrow> bool" where
  "less_eq_float64 x y \<longleftrightarrow> f_rank x < f_rank y \<or> (f_rank x = f_rank y \<and> f_rat x \<le> f_rat y)"

definition less_float64 :: "float64 \<Rightarrow> float64 \<Rightarrow> bool" where
  "less_float64 x y \<longleftrightarrow> f_rank x < f_rank y \<or> (f_rank x = f_rank y \<and> f_rat x < f_rat y)"

instance
proof
  fix x y z :: float64
  show "x < y \<longleftrightarrow> x \<le> y \<and> \<not> y \<le> x" by (auto simp: less_eq_float64_def less_float64_def)
  show "x \<le> x" by (simp add: less_eq_float64_def)
  show "x \<le> y \<Longrightarrow> y \<le> z \<Longrightarrow> x \<le> z" by (auto simp: less_eq_float64_def)
  show "x \<le> y \<Longrightarrow> y \<le> x \<Longrightarrow> x = y" by (cases x; cases y) (auto simp: less_eq_float64_def)
  show "x \<le> y \<or> y \<le> x" by (auto simp: less_eq_float64_def)
qed

end

subsection \<open>Metrics\<close>

datatype prom_call =
    RequestsTotalInc string string
  | BurstOveragesInc string string
  | UpstreamLatencyObserve float64
  | ReplayBlockedInc string
  | CacheFallbackInc
  | BreakerStateReset
  | BreakerStateSet string float64
  | DLQPendingSet float64
  | RevenueSet float64
  | RedisMemorySet float64

record Metrics =
  prom :: "prom_call list"
  normalCount :: i64
  burstCount :: i64
  blockedCount :: i64
  replayBlocked :: i64
  cacheFallbacks :: i64
  dlqPending :: i64
  redisMemory :: i64
  recentLatencies :: "float64 list"

definition NewMetrics :: Metrics where
  "NewMetrics = \<lparr>prom = [], normalCount = 0, burstCount = 0, blockedCount = 0, replayBlocked = 0,
     cacheFallbacks = 0, dlqPending = 0, redisMemory = 0, recentLatencies = []\<rparr>"

definition emit :: "prom_call \<Rightarrow> Metrics \<Rightarrow> Metrics" where
  "emit p m = m\<lparr>prom := prom m @ [p]\<rparr>"

definition RecordRequest :: "string \<Rightarrow> string \<Rightarrow> Metrics \<Rightarrow> Metrics" where
  "RecordRequest tier status m =
     (let m = emit (RequestsTotalInc tier status) m
      in if status = ''NORMAL'' then m\<lparr>normalCount := wrap64 (normalCount m + 1)\<rparr>
         else if status = ''BURST'' then m\<lparr>burstCount := wrap64 (burstCount m + 1)\<rparr>
         else if status = ''BLOCKED'' \<or> status = ''BURST_FROZEN'' then m\<lparr>blockedCount := wrap64 (blockedCount m + 1)\<rparr>
         else m)"

definition RecordBurstOverage :: "string \<Rightarrow> string \<Rightarrow> Metrics \<Rightarrow> Metrics" where
  "RecordBurstOverage tier apiKey m = emit (BurstOveragesInc tier apiKey) m"

definition RecordLatency :: "float64 \<Rightarrow> Metrics \<Rightarrow> Metrics" where
  "RecordLatency seconds m =
     (let m = emit (UpstreamLatencyObserve seconds) m;
          recent = (if length (recentLatencies m) \<ge> 100 then drop 1 (recentLatencies m) else recentLatencies m)
      in m\<lparr>recentLatencies := recent @ [seconds]\<rparr>)"

definition RecordReplayBlocked :: "string \<Rightarrow> Metrics \<Rightarrow> Metrics" where
  "RecordReplayBlocked tier m =
     (let m = emit (ReplayBlockedInc tier) m in m\<lparr>replayBlocked := wrap64 (replayBlocked m + 1)\<rparr>)"

definition RecordCacheFallback :: "Metrics \<Rightarrow> Metrics" where
  "RecordCacheFallback m =
     (let m = emit CacheFallbackInc m in m\<lparr>cacheFallbacks := wrap64 (cacheFallbacks m + 1)\<rparr>)"

definition SetCircuitBreakerStateMetric :: "string \<Rightarrow> Metrics \<Rightarrow> Metrics" where
  "SetCircuitBreakerStateMetric state m =
     (let m = emit BreakerStateReset m
      in if state = ''CLOSED'' then emit (BreakerStateSet ''closed'' (Fin 0)) m
         else if state = ''HALF-OPEN'' then emit (BreakerStateSet ''half_open'' (Fin 1)) m
         else if state = ''OPEN'' then emit (BreakerStateSet ''open'' (Fin 2)) m
         else m)"

definition SetDLQCount :: "i64 \<Rightarrow> Metrics \<Rightarrow> Metrics" where
  "SetDLQCount count m = emit (DLQPendingSet (f_of_int count)) (m\<lparr>dlqPending := count\<rparr>)"

definition SetRevenue :: "float64 \<Rightarrow> Metrics \<Rightarrow> Metrics" where
  "SetRevenue amount m = emit (RevenueSet amount) m"

text \<open>\<open>oob\<close> is the implementation's value for a conversion out of the int64 range.\<close>

definition SetRedisMemory :: "(float64 \<Rightarrow> i64) \<Rightarrow> float64 \<Rightarrow> Metrics \<Rightarrow> Metrics" where
  "SetRedisMemory oob bytes m = emit (RedisMemorySet bytes) (m\<lparr>redisMemory := f_to_int oob bytes\<rparr>)"

record Snapshot =
  NormalCount :: i64
  BurstCount :: i64
  BlockedCount :: i64
  ReplayBlocked :: i64
  CacheFallbacks :: i64
  DLQPending :: i64
  RedisMemoryBytes :: i64
  P95LatencyMs :: float64
  P99LatencyMs :: float64
  RecentSamples :: "float64 list"

text \<open>The index of a percentile, and a slice access that panics (\<open>None\<close>) out of range.\<close>

definition percentile_index :: "(float64 \<Rightarrow> i64) \<Rightarrow> float64 \<Rightarrow> nat \<Rightarrow> i64" where
  "percentile_index oob p n =
     (let idx = f_to_int oob (f_mul (f_of_int (int n)) p)
      in if idx \<ge> int n then int n - 1 else idx)"

definition slice_at :: "'a list \<Rightarrow> i64 \<Rightarrow> 'a option" where
  "slice_at xs i = (if 0 \<le> i \<and> i < int (length xs) then Some (xs ! nat i) else None)"

definition calculatePercentiles :: "(float64 \<Rightarrow> i64) \<Rightarrow> float64 list \<Rightarrow> (float64 \<times> float64) option" where
  "calculatePercentiles oob latencies =
     (let n = length latencies
      in if n = 0 then Some (Fin 0, Fin 0)
         else
           (let sorted = sort latencies;
                p95Idx = percentile_index oob (fl (95 / 100)) n;
                p99Idx = percentile_index oob (fl (99 / 100)) n
            in case (slice_at sorted p95Idx, slice_at sorted p99Idx) of
                 (Some a, Some b) \<Rightarrow> Some (a, b)
               | _ \<Rightarrow> None))"

definition GetSnapshot :: "(float64 \<Rightarrow> i64) \<Rightarrow> Metrics \<Rightarrow> Snapshot option" where
  "GetSnapshot oob m =
     (case calculatePercentiles oob (recentLatencies m) of
        None \<Rightarrow> None
      | Some (p95, p99) \<Rightarrow>
          Some \<lparr>NormalCount = normalCount m, BurstCount = burstCount m, BlockedCount = blockedCount m,
                ReplayBlocked = replayBlocked m, CacheFallbacks = cacheFallbacks m, DLQPending = dlqPending m,
                RedisMemoryBytes = redisMemory m, P95LatencyMs = f_mul p95 (Fin 1000),
                P99LatencyMs = f_mul p99 (Fin 1000), RecentSamples = recentLatencies m\<rparr>)"

subsection \<open>Sequences of calls\<close>

datatype metrics_op =
    MRequest string string
  | MBurst string string
  | MLatency float64
  | MReplay string
  | MFallback
  | MBreaker string
  | MDLQ i64
  | MRevenue float64
  | MRedisMemory float64

fun metrics_apply :: "(float64 \<Rightarrow> i64) \<Rightarrow> metrics_op \<Rightarrow> Metrics \<Rightarrow> Metrics" where
  "metrics_apply oob (MRequest t s) m = RecordRequest t s m"
| "metrics_apply oob (MBurst t k) m = RecordBurstOverage t k m"
| "metrics_apply oob (MLatency x) m = RecordLatency x m"
| "metrics_apply oob (MReplay t) m = RecordReplayBlocked t m"
| "metrics_apply oob MFallback m = RecordCacheFallback m"
| "metrics_apply oob (MBreaker s) m = SetCircuitBreakerStateMetric s m"
| "metrics_apply oob (MDLQ n) m = SetDLQCount n m"
| "metrics_apply oob (MRevenue x) m = SetRevenue x m"
| "metrics_apply oob (MRedisMemory x) m = SetRedisMemory oob x m"

definition metrics_run :: "(float64 \<Rightarrow> i64) \<Rightarrow> metrics_op list \<Rightarrow> Metrics" where
  "metrics_run oob ops = fold (metrics_apply oob) ops NewMetrics"

fun samples :: "metrics_op list \<Rightarrow> float64 list" where
  "samples [] = []"
| "samples (MLatency x # ops) = x # samples ops"
| "samples (_ # ops) = samples ops"

definition lastn :: "nat \<Rightarrow> 'a list \<Rightarrow> 'a list" where
  "lastn n xs = drop (length xs - n) xs"

section \<open>The latency window\<close>

lemma lastn_snoc: "lastn 100 (xs @ [x]) = (if length (lastn 100 xs) \<ge> 100 then drop 1 (lastn 100 xs) else lastn 100 xs) @ [x]"
proof (cases "100 \<le> length xs")
  case True
  then have "length xs - 99 = Suc (length xs - 100)" by arith
  with True show ?thesis by (simp add: lastn_def)
qed (simp add: lastn_def)

lemma recent_step:
  "recentLatencies (metrics_apply oob op m) =
     (case op of
        MLatency x \<Rightarrow> (if length (recentLatencies m) \<ge> 100 then drop 1 (recentLatencies m) else recentLatencies m) @ [x]
      | _ \<Rightarrow> recentLatencies m)"
  by (cases op) (simp_all add: RecordRequest_def RecordBurstOverage_def RecordLatency_def RecordReplayBlocked_def
      RecordCacheFallback_def SetCircuitBreakerStateMetric_def SetDLQCount_def SetRevenue_def SetRedisMemory_def
      emit_def Let_def)

lemma recent_run:
  "recentLatencies m = lastn 100 xs \<Longrightarrow>
     recentLatencies (fold (metrics_apply oob) ops m) = lastn 100 (xs @ samples ops)"
proof (induction ops arbitrary: m xs)
  case (Cons op ops)
  show ?case
  proof (cases op)
    case (MLatency x)
    have "recentLatencies (metrics_apply oob op m) = lastn 100 (xs @ [x])"
      using Cons.prems by (simp add: recent_step MLatency lastn_snoc del: metrics_apply.simps)
    from Cons.IH [OF this] show ?thesis by (simp add: MLatency)
  qed (use Cons in \<open>simp_all add: recent_step del: metrics_apply.simps\<close>)
qed simp

section \<open>Percentile indices\<close>

lemma rat_trunc_mono: "0 \<le> x \<Longrightarrow> x \<le> y \<Longrightarrow> rat_trunc x \<le> rat_trunc y \<and> 0 \<le> rat_trunc x"
  by (simp add: rat_trunc_def floor_mono)

lemma f_mul_prob:
  assumes "0 < n" and "n \<le> 2 ^ 53" and "f_ok (Fin p)" and "0 \<le> p" and "p \<le> 1"
  shows "f_mul (f_of_int (int n)) (Fin p) = Fin (round_rat (of_nat n * p)) \<and>
    0 \<le> round_rat (of_nat n * p) \<and> round_rat (of_nat n * p) \<le> of_nat n"
proof -
  have n: "f_of_int (int n) = Fin (of_nat n)" using f_of_int_exact [of "int n"] assms(2) by simp
  have fx: "round_rat (of_nat n) = of_nat n" using dbl.exact_int [of "int n"] assms(2) by simp
  have "of_nat n * p \<le> of_nat n" using assms(4,5) by (simp add: mult_left_le)
  then have b: "0 \<le> round_rat (of_nat n * p)" "round_rat (of_nat n * p) \<le> of_nat n"
    using assms(4) dbl.nonneg dbl.le_fixed [OF _ fx] by simp_all
  have "(of_nat n :: rat) \<le> of_nat (2 ^ 53)" using assms(2) of_nat_le_iff by blast
  then have "round_rat (of_nat n * p) < 2 ^ 1024" using b by simp
  with b n show ?thesis by (simp add: fl_def Let_def)
qed

lemma percentile_index_range:
  assumes "0 < n" and "int n < max_i64" and "n \<le> 2 ^ 53" and "f_ok (Fin p)" and "0 \<le> p" and "p \<le> q" and "q \<le> 1" and "f_ok (Fin q)"
  shows "0 \<le> percentile_index oob (Fin p) n \<and> percentile_index oob (Fin p) n \<le> percentile_index oob (Fin q) n \<and>
    percentile_index oob (Fin q) n < int n"
proof -
  note p = f_mul_prob [OF assms(1,3,4,5) order_trans [OF assms(6,7)]]
  note q = f_mul_prob [OF assms(1,3,8) order_trans [OF assms(5,6)] assms(7)]
  let ?p = "round_rat (of_nat n * p)" and ?q = "round_rat (of_nat n * q)"
  have pq: "?p \<le> ?q" using assms(6) by (intro dbl.mono mult_left_mono) simp_all
  have "rat_trunc (of_nat n) = int n" by (simp add: rat_trunc_def)
  then have t: "0 \<le> rat_trunc ?p" "rat_trunc ?p \<le> rat_trunc ?q" "rat_trunc ?q \<le> int n"
    using p q pq rat_trunc_mono [of ?p ?q] rat_trunc_mono [of ?q "of_nat n"] by auto
  then have "in_i64 (rat_trunc ?p)" "in_i64 (rat_trunc ?q)" using assms(2) by (auto simp: in_i64_def)
  then show ?thesis using t p q assms(1) by (simp add: percentile_index_def f_to_int_def Let_def)
qed

definition p95 :: rat where "p95 = round_rat (95 / 100)"
definition p99 :: rat where "p99 = round_rat (99 / 100)"

lemma percentile_constants:
  "fl (95 / 100) = Fin p95" "fl (99 / 100) = Fin p99" "f_ok (Fin p95)" "f_ok (Fin p99)" "0 \<le> p95" "p95 \<le> p99" "p99 \<le> 1"
proof -
  show "0 \<le> p95" unfolding p95_def by (rule dbl.nonneg) simp
  show "p95 \<le> p99" unfolding p95_def p99_def by (rule dbl.mono) simp
  show "p99 \<le> 1" unfolding p99_def by (rule dbl.le_fixed) (simp_all add: dbl.one)
  then show "fl (95 / 100) = Fin p95" "fl (99 / 100) = Fin p99" "f_ok (Fin p95)" "f_ok (Fin p99)"
    using \<open>0 \<le> p95\<close> \<open>p95 \<le> p99\<close>
    by (auto simp: fl_def Let_def p95_def p99_def f_ok_def dbl.idem)
qed

lemma percentiles_total:
  assumes "length xs \<le> 100"
  shows "\<exists>a b. calculatePercentiles oob xs = Some (a, b) \<and> a \<le> b \<and>
      (if xs = [] then a = Fin 0 \<and> b = Fin 0 else a \<in> set xs \<and> b \<in> set xs)"
proof (cases "xs = []")
  case True
  then show ?thesis by (simp add: calculatePercentiles_def)
next
  case False
  let ?n = "length xs"
  let ?i = "percentile_index oob (Fin p95) ?n" and ?j = "percentile_index oob (Fin p99) ?n"
  have "?n \<le> 2 ^ 53" using assms by simp
  then have ij: "0 \<le> ?i" "?i \<le> ?j" "?j < int ?n"
    using percentile_index_range [of ?n p95 p99 oob] percentile_constants False assms by auto
  then have "sort xs ! nat ?i \<le> sort xs ! nat ?j" by (intro sorted_nth_mono) auto
  moreover have "sort xs ! nat ?i \<in> set xs" "sort xs ! nat ?j \<in> set xs"
    using ij nth_mem [of "nat ?i" "sort xs"] nth_mem [of "nat ?j" "sort xs"] by auto
  ultimately show ?thesis
    using False ij unfolding calculatePercentiles_def percentile_constants(1,2) by (simp add: slice_at_def Let_def)
qed

section \<open>Properties\<close>

text \<open>
  C40. The dashboard snapshot. After any sequence of recordings the window holds exactly the last
  100 latency samples, taking a snapshot never indexes out of range, and for a non-empty window
  the two percentiles are samples of the window (in milliseconds) with the 95th at most the 99th
  and at least one sample at or above each.
\<close>

theorem snapshot_percentiles:
  "\<exists>snap a b. GetSnapshot oob (metrics_run oob ops) = Some snap \<and>
     RecentSamples snap = lastn 100 (samples ops) \<and> length (RecentSamples snap) \<le> 100 \<and>
     P95LatencyMs snap = f_mul a (Fin 1000) \<and> P99LatencyMs snap = f_mul b (Fin 1000) \<and> a \<le> b \<and>
     (if samples ops = [] then a = Fin 0 \<and> b = Fin 0
      else a \<in> set (lastn 100 (samples ops)) \<and> b \<in> set (lastn 100 (samples ops)))"
proof -
  let ?xs = "lastn 100 (samples ops)"
  have rec: "recentLatencies (metrics_run oob ops) = ?xs"
    unfolding metrics_run_def using recent_run [of NewMetrics "[]" oob ops] by (simp add: NewMetrics_def lastn_def)
  have len: "length ?xs \<le> 100" by (simp add: lastn_def)
  have empty: "?xs = [] \<longleftrightarrow> samples ops = []" by (cases "samples ops") (auto simp: lastn_def)
  from percentiles_total [OF len, of oob]
  obtain a b where ab: "calculatePercentiles oob ?xs = Some (a, b)" "a \<le> b"
    "if samples ops = [] then a = Fin 0 \<and> b = Fin 0 else a \<in> set ?xs \<and> b \<in> set ?xs"
    unfolding empty by blast
  then obtain snap where snap: "GetSnapshot oob (metrics_run oob ops) = Some snap" "RecentSamples snap = ?xs"
    "P95LatencyMs snap = f_mul a (Fin 1000)" "P99LatencyMs snap = f_mul b (Fin 1000)"
    by (simp add: GetSnapshot_def rec del: f_mul.simps)
  have "length (RecentSamples snap) \<le> 100" using len by (simp only: snap(2))
  with snap ab show ?thesis by (intro exI [of _ snap] exI [of _ a] exI [of _ b] conjI)
qed

end
