(* ===== verification/Webhook_Engine.thy ===== *)
theory Webhook_Engine
  imports Webhook_DLQ Config Metrics "HOL-Library.Multiset"
begin

text \<open>
  \<^verbatim>\<open>internal/webhook/engine.go\<close>: the bounded event channel, the workers, delivery with retries, and
  the poller of the Redis event stream.

  \<^item> \<open>Engine\<close> is the state shared by the goroutines; \<open>started\<close> records the deliveries that
    \<open>processEvent\<close> starts. A step of a goroutine between two channel operations is atomic.
  \<^item> \<open>deliverWithRetry\<close> is the whole retry loop for one sink. What the network answers to the
    attempts, and at which wait the context is cancelled, are arguments; using the error of
    the last attempt when there was none would be a nil dereference, the outcome \<open>NilPanic\<close>.
  \<^item> \<open>poll_batch\<close> handles one reply of the stream.

  Shown: the channel stays within its capacity, the workers start one delivery per enabled sink for each
  event they take, in the order of acceptance, and what waits when the last worker has returned is lost; a delivery ends in one of three ways and never dereferences nil; the poller
  acknowledges messages whose events it dropped; stopping twice panics.
\<close>

section \<open>Definitions\<close>

subsection \<open>The engine's state\<close>

definition chan_capacity :: nat where "chan_capacity = 5000"

text \<open>A delivery: event, sink type, endpoint, payload.\<close>

type_synonym delivery_job = "UniversalEvent \<times> string \<times> string \<times> bytes"

record 's Engine =
  eng_cfg :: Config
  has_redis :: bool
  dlqManager :: "'s DLQManager"
  eng_metrics :: "Metrics option"
  eventsChan :: "UniversalEvent list"
  stopCh_closed :: bool
  pollCancel :: bool  \<comment> \<open>a cancel function is set\<close>
  poll_cancelled :: bool
  workers :: i64
  started :: "delivery_job list"

definition NewEngine :: "Config \<Rightarrow> bool \<Rightarrow> 's DLQManager \<Rightarrow> Metrics option \<Rightarrow> 's Engine" where
  "NewEngine c redis dlq m =
     \<lparr>eng_cfg = c, has_redis = redis, dlqManager = dlq, eng_metrics = m, eventsChan = [], stopCh_closed = False,
      pollCancel = False, poll_cancelled = False, workers = 0, started = []\<rparr>"

definition engine_Start :: "'s Engine \<Rightarrow> 's Engine" where
  "engine_Start e =
     (let n = WorkerConcurrency (Webhooks (eng_cfg e));
          n = (if n \<le> 0 then 4 else n)
      in e\<lparr>workers := n, pollCancel := has_redis e\<rparr>)"

text \<open>\<open>Stop\<close> closes the channel; closing it again panics (\<open>None\<close>).\<close>

definition close_stop :: "'s Engine \<Rightarrow> 's Engine option" where
  "close_stop e =
     (let e = (if pollCancel e then e\<lparr>poll_cancelled := True\<rparr> else e)
      in if stopCh_closed e then None else Some (e\<lparr>stopCh_closed := True\<rparr>))"

text \<open>It returns when every worker has.\<close>

definition engine_Stop :: "'s Engine \<Rightarrow> 's Engine option" where
  "engine_Stop e = map_option (\<lambda>e. e\<lparr>workers := 0\<rparr>) (close_stop e)"

text \<open>A send that does not block: the event is dropped when the buffer is full.\<close>

definition Publish :: "UniversalEvent \<Rightarrow> 's Engine \<Rightarrow> 's Engine" where
  "Publish event e =
     (if length (eventsChan e) < chan_capacity then e\<lparr>eventsChan := eventsChan e @ [event]\<rparr> else e)"

text \<open>The loop over the sinks, in the order of the visit; \<open>order\<close> is that of the metadata.\<close>

fun process_sinks :: "string list \<Rightarrow> UniversalEvent \<Rightarrow> (string \<times> SinkDetail) list \<Rightarrow> delivery_job list" where
  "process_sinks order event [] = []"
| "process_sinks order event ((sinkType, detail) # sinks) =
     (if \<not> sink_Enabled detail \<or> Endpoint detail = [] then process_sinks order event sinks
      else (event, sinkType, Endpoint detail, adapt order sinkType event) # process_sinks order event sinks)"

definition processEvent :: "string list \<Rightarrow> string list \<Rightarrow> UniversalEvent \<Rightarrow> 's Engine \<Rightarrow> 's Engine" where
  "processEvent sinkOrder order event e =
     (let sinks = Sinks (Webhooks (cloneConfig (eng_cfg e)));
          visited = List.map_filter (\<lambda>k. map_option (\<lambda>d. (k, d)) (map_of sinks k)) sinkOrder
      in e\<lparr>started := started e @ process_sinks order event visited\<rparr>)"

text \<open>One turn of a worker: it ends when stopped, or takes the first event of the channel.\<close>

definition worker_turn :: "string list \<Rightarrow> string list \<Rightarrow> 's Engine \<Rightarrow> 's Engine" where
  "worker_turn sinkOrder order e =
     (case eventsChan e of
        [] \<Rightarrow> e
      | event # rest \<Rightarrow> processEvent sinkOrder order event (e\<lparr>eventsChan := rest\<rparr>))"

subsection \<open>Delivery\<close>

definition webhook_secret :: bytes where
  "webhook_secret = ''aegis_master_secret_webhook_signing_key_2026''"

definition max_retries :: "Config \<Rightarrow> i64" where
  "max_retries c = (if MaxRetries (Webhooks c) \<le> 0 then 3 else MaxRetries (Webhooks c))"

definition base_delay :: "Config \<Rightarrow> i64" where
  "base_delay c =
     (let d = wrap64 (RetryBaseDelayMs (Webhooks c) * millisecond) in if d \<le> 0 then 1000 * millisecond else d)"

text \<open>The wait before an attempt, in int64 arithmetic; a shift of 64 bits or more gives 0.\<close>

definition backoff :: "i64 \<Rightarrow> nat \<Rightarrow> i64" where
  "backoff base attempt = wrap64 (base * wrap64 (2 ^ (attempt - 1)))"

definition delivery_request :: "golib \<Rightarrow> string \<Rightarrow> bytes \<Rightarrow> i64 \<Rightarrow> http_req" where
  "delivery_request lib endpoint payload now =
     \<lparr>req_url = endpoint,
      req_header = hdr_set ''User-Agent'' ''AegisPulse-Webhook/1.0''
        (hdr_set ''X-Aegis-Signature'' (GenerateSignature lib payload webhook_secret now)
          (hdr_set ''Content-Type'' ''application/json'' [])),
      req_body = payload\<rparr>"

text \<open>
  What the surroundings do: the clock in seconds at an attempt, what the HTTP client answers, and
  whether the context is cancelled during the wait before an attempt (with its length).
\<close>

record net =
  net_now :: "nat \<Rightarrow> i64"
  net_send :: "nat \<Rightarrow> http_req \<Rightarrow> http_outcome"
  net_cancelled :: "nat \<Rightarrow> i64 \<Rightarrow> bool"

definition attempt_error :: "http_outcome \<Rightarrow> string option" where
  "attempt_error o' =
     (case o' of
        BuildError e \<Rightarrow> Some e
      | NetError e \<Rightarrow> Some e
      | HttpResp code _ \<Rightarrow> if is_2xx code then None else Some (''http status '' @ show_int code))"

datatype loop_result = LoopDelivered nat | LoopCancelled nat | LoopExhausted "string option"

function retry_loop :: "golib \<Rightarrow> net \<Rightarrow> i64 \<Rightarrow> i64 \<Rightarrow> string \<Rightarrow> bytes \<Rightarrow> nat \<Rightarrow> string option \<Rightarrow> loop_result" where
  "retry_loop lib nw maxRetries base endpoint payload attempt lastErr =
     (if int attempt < maxRetries then
        if attempt > 0 \<and> net_cancelled nw attempt (backoff base attempt) then LoopCancelled attempt
        else (case attempt_error (net_send nw attempt (delivery_request lib endpoint payload (net_now nw attempt))) of
                None \<Rightarrow> LoopDelivered attempt
              | Some e \<Rightarrow> retry_loop lib nw maxRetries base endpoint payload (attempt + 1) (Some e))
      else LoopExhausted lastErr)"
  by pat_completeness auto
termination
  by (relation "measure (\<lambda>(lib, nw, maxRetries, base, endpoint, payload, attempt, lastErr). nat (maxRetries - int attempt))") auto

declare retry_loop.simps [simp del]

datatype delivery_result = Delivered nat | Abandoned nat | DeadLettered DLQItem | NilPanic

definition dlq_item :: "UniversalEvent \<Rightarrow> string \<Rightarrow> string \<Rightarrow> bytes \<Rightarrow> i64 \<Rightarrow> string \<Rightarrow> gotime \<Rightarrow> bytes \<Rightarrow> DLQItem" where
  "dlq_item event sinkType endpoint payload maxRetries err failedAt rnd =
     \<lparr>dlq_ID = ''dlq_'' @ EventID event @ ''_'' @ hex_encode rnd, Event = event, dlq_SinkType = sinkType,
      dlq_TargetURL = endpoint, Secret = webhook_secret, RetryCount = maxRetries, LastError = err,
      FailedAt = failedAt, PayloadJSON = payload\<rparr>"

definition deliverWithRetry ::
  "golib \<Rightarrow> net \<Rightarrow> (gotime \<Rightarrow> string option) \<Rightarrow> gotime \<Rightarrow> bytes \<Rightarrow> delivery_job \<Rightarrow> 's Engine \<Rightarrow> 's
     \<Rightarrow> delivery_result \<times> 's Engine \<times> 's" where
  "deliverWithRetry lib nw fmt failedAt rnd job e s =
     (let (event, sinkType, endpoint, payload) = job;
          c = cloneConfig (eng_cfg e);
          maxRetries = max_retries c
      in case retry_loop lib nw maxRetries (base_delay c) endpoint payload 0 None of
           LoopDelivered n \<Rightarrow> (Delivered n, e, s)
         | LoopCancelled n \<Rightarrow> (Abandoned n, e, s)
         | LoopExhausted None \<Rightarrow> (NilPanic, e, s)
         | LoopExhausted (Some err) \<Rightarrow>
             (let item = dlq_item event sinkType endpoint payload maxRetries err failedAt rnd;
                  (_, dlq, s) = Enqueue fmt (dlqManager e) s item;
                  e = e\<lparr>dlqManager := dlq\<rparr>;
                  e = e\<lparr>eng_metrics := map_option (SetDLQCount (GetPendingCount dlq)) (eng_metrics e)\<rparr>
              in (DeadLettered item, e, s)))"

subsection \<open>The stream poller\<close>

record stream_msg =
  msg_ID :: string
  msg_Values :: "(string, string) gomap"

text \<open>\<open>%v\<close> of a value of the message; a missing one prints as \<open><nil>\<close>.\<close>

definition msg_value :: "stream_msg \<Rightarrow> string \<Rightarrow> string" where
  "msg_value msg k = (case map_of (msg_Values msg) k of None \<Rightarrow> ''<nil>'' | Some v \<Rightarrow> v)"

definition event_of_msg :: "i64 \<Rightarrow> stream_msg \<Rightarrow> UniversalEvent" where
  "event_of_msg now msg =
     \<lparr>EventID = msg_ID msg, ev_EventType = msg_value msg ''event_type'', APIKey = msg_value msg ''api_key'',
      ev_Tier = msg_value msg ''tier'', Timestamp = now, Title = msg_value msg ''event_type'' @ '' event'',
      Description = ''Triggered by '' @ msg_value msg ''api_key'', Channel = [], ev_Signature = [], Metadata = []\<rparr>"

text \<open>The messages of one reply: each is published and then acknowledged.\<close>

fun poll_batch :: "i64 \<Rightarrow> stream_msg list \<Rightarrow> string list \<times> 's Engine \<Rightarrow> string list \<times> 's Engine" where
  "poll_batch now [] (acked, e) = (acked, e)"
| "poll_batch now (msg # msgs) (acked, e) =
     poll_batch now msgs (acked @ [msg_ID msg], Publish (event_of_msg now msg) e)"

datatype poll_reply = PollError | PollNil | PollEntries "stream_msg list list"

text \<open>
  One turn of the poller: it ends when stopped or cancelled; after an error it waits and ends if
  stopped meanwhile (\<open>stopped\<close>); otherwise it handles the messages of all streams in the reply.
  The first component tells whether the loop goes on.
\<close>

definition poll_turn :: "i64 \<Rightarrow> bool \<Rightarrow> poll_reply \<Rightarrow> 's Engine \<Rightarrow> bool \<times> string list \<times> 's Engine" where
  "poll_turn now stopped reply e =
     (if stopCh_closed e \<or> poll_cancelled e then (False, [], e)
      else (case reply of
              PollError \<Rightarrow> (\<not> stopped, [], e)
            | PollNil \<Rightarrow> (True, [], e)
            | PollEntries streams \<Rightarrow> (case poll_batch now (concat streams) ([], e) of (acked, e') \<Rightarrow> (True, acked, e'))))"

definition randHex :: "bytes \<Rightarrow> string" where
  "randHex b = hex_encode b"

subsection \<open>The channel under interleaved goroutines\<close>

text \<open>
  The engine, the list of the events that were accepted, and whether the context of \<open>main\<close> is cancelled. A worker's
  \<open>select\<close> picks any of its ready cases: it may take an event or return once the stop channel is
  closed or the context cancelled. The sinks are visited in any order, each of them once. The configuration can be
  reloaded at any time.
\<close>

record 's eng_sys =
  engine :: "'s Engine"
  accepted :: "UniversalEvent list"
  ctx_done :: bool

inductive eng_step :: "'s eng_sys \<Rightarrow> 's eng_sys \<Rightarrow> bool" where
  publish: "length (eventsChan (engine s)) < chan_capacity \<Longrightarrow>
     eng_step s (s\<lparr>engine := Publish ev (engine s), accepted := accepted s @ [ev]\<rparr>)"
| publish_full: "\<not> length (eventsChan (engine s)) < chan_capacity \<Longrightarrow>
     eng_step s (s\<lparr>engine := Publish ev (engine s)\<rparr>)"
| work: "0 < workers (engine s) \<Longrightarrow> eventsChan (engine s) \<noteq> [] \<Longrightarrow> gm_wf (Sinks (Webhooks (eng_cfg (engine s)))) \<Longrightarrow>
     distinct so \<Longrightarrow> set so = fst ` set (Sinks (Webhooks (eng_cfg (engine s)))) \<Longrightarrow>
     eng_step s (s\<lparr>engine := worker_turn so order (engine s)\<rparr>)"
| worker_return: "0 < workers (engine s) \<Longrightarrow> stopCh_closed (engine s) \<or> ctx_done s \<Longrightarrow>
     eng_step s (s\<lparr>engine := (engine s)\<lparr>workers := workers (engine s) - 1\<rparr>\<rparr>)"
| close: "close_stop (engine s) = Some e \<Longrightarrow> eng_step s (s\<lparr>engine := e\<rparr>)"
| cancel: "eng_step s (s\<lparr>ctx_done := True\<rparr>)"
| reload: "eng_step s (s\<lparr>engine := (engine s)\<lparr>eng_cfg := c\<rparr>\<rparr>)"
| deliver: "job \<in> set (started (engine s)) \<Longrightarrow>
     eng_step s (s\<lparr>engine := fst (snd (deliverWithRetry lib nw fmt t rnd job (engine s) st))\<rparr>)"

definition eng_init :: "'s eng_sys \<Rightarrow> bool" where
  "eng_init s \<longleftrightarrow> eventsChan (engine s) = [] \<and> accepted s = [] \<and> started (engine s) = []"

text \<open>
  What an event owes: one delivery to each sink that is enabled and has an endpoint, with a payload of the sink's
  format.
\<close>

definition enabled_sinks :: "Config \<Rightarrow> (string \<times> SinkDetail) list" where
  "enabled_sinks c = filter (\<lambda>(k, d). sink_Enabled d \<and> Endpoint d \<noteq> []) (Sinks (Webhooks c))"

definition job_target :: "delivery_job \<Rightarrow> UniversalEvent \<times> string \<times> string" where
  "job_target j = (case j of (ev, k, u, p) \<Rightarrow> (ev, k, u))"

definition owed :: "UniversalEvent \<times> Config \<Rightarrow> delivery_job list \<Rightarrow> bool" where
  "owed evc js \<longleftrightarrow>
     mset (map job_target js) = mset (map (\<lambda>(k, d). (fst evc, k, Endpoint d)) (enabled_sinks (snd evc))) \<and>
     (\<forall>(ev, k, u, p) \<in> set js. \<exists>order. p = adapt order k ev)"

definition eng_ok :: "'s eng_sys \<Rightarrow> bool" where
  "eng_ok s \<longleftrightarrow> length (eventsChan (engine s)) \<le> chan_capacity \<and>
     (\<exists>taken jobs. accepted s = map fst taken @ eventsChan (engine s) \<and> started (engine s) = concat jobs \<and> list_all2 owed taken jobs)"

section \<open>Lemmas\<close>

lemma deliver_same:
  "eventsChan (fst (snd (deliverWithRetry lib nw fmt t rnd job e s))) = eventsChan e"
  "started (fst (snd (deliverWithRetry lib nw fmt t rnd job e s))) = started e"
  "workers (fst (snd (deliverWithRetry lib nw fmt t rnd job e s))) = workers e"
  by (simp_all add: deliverWithRetry_def Let_def split: prod.split loop_result.split option.split)

lemma close_same:
  "close_stop e = Some e' \<Longrightarrow> eventsChan e' = eventsChan e \<and> started e' = started e \<and> workers e' = workers e"
  by (auto simp: close_stop_def Let_def split: if_splits)

lemma process_sinks_map:
  "process_sinks order ev sinks = map (\<lambda>(k, d). (ev, k, Endpoint d, adapt order k ev)) (filter (\<lambda>(k, d). sink_Enabled d \<and> Endpoint d \<noteq> []) sinks)"
  by (induction order ev sinks rule: process_sinks.induct) auto

lemma map_filter_total: "\<forall>k \<in> set xs. map_of m k \<noteq> None \<Longrightarrow>
    List.map_filter (\<lambda>k. map_option (\<lambda>d. (k, d)) (map_of m k)) xs = map (\<lambda>k. (k, the (map_of m k))) xs"
  by (induction xs) (auto simp: map_filter_simps)

text \<open>A visit of the whole map meets each entry once.\<close>

lemma mset_visit:
  assumes "gm_wf m" and "distinct so" and "set so = fst ` set m"
  shows "mset (List.map_filter (\<lambda>k. map_option (\<lambda>d. (k, d)) (map_of m k)) so) = mset m"
proof -
  let ?v = "List.map_filter (\<lambda>k. map_option (\<lambda>d. (k, d)) (map_of m k)) so"
  have dm: "distinct (map fst m)" using assms(1) by (simp add: gm_wf_def)
  have v: "?v = map (\<lambda>k. (k, the (map_of m k))) so"
    by (rule map_filter_total) (use assms(3) in \<open>auto simp: map_of_eq_None_iff\<close>)
  have "distinct ?v" using assms(2) by (simp add: v distinct_map inj_on_def)
  moreover have "set ?v = set m" using dm assms(3) unfolding v by (force simp: map_of_eq_Some_iff image_iff)
  moreover have "distinct m" using dm by (simp add: distinct_map)
  ultimately show ?thesis by (simp add: set_eq_iff_mset_eq_distinct)
qed

lemma worker_turn_owed:
  assumes "eventsChan e = ev # rest" and "gm_wf (Sinks (Webhooks (eng_cfg e)))" and "distinct so"
    and "set so = fst ` set (Sinks (Webhooks (eng_cfg e)))"
  shows "\<exists>js. worker_turn so order e = e\<lparr>eventsChan := rest, started := started e @ js\<rparr> \<and> owed (ev, eng_cfg e) js"
proof -
  let ?m = "Sinks (Webhooks (eng_cfg e))" and ?on = "\<lambda>(k, d). sink_Enabled d \<and> Endpoint d \<noteq> []"
  let ?v = "List.map_filter (\<lambda>k. map_option (\<lambda>d. (k, d)) (map_of ?m k)) so"
  let ?js = "process_sinks order ev ?v"
  have "map_of (Sinks (Webhooks (cloneConfig (eng_cfg e)))) = map_of ?m"
    using assms(2) by (auto simp: cloneConfig_def gm_wf_def gm_copy_get fun_eq_iff split: option.split)
  then have "worker_turn so order e = e\<lparr>eventsChan := rest, started := started e @ ?js\<rparr>"
    using assms(1) by (simp add: worker_turn_def processEvent_def Let_def)
  moreover have "mset (map job_target ?js) = mset (map (\<lambda>(k, d). (ev, k, Endpoint d)) (filter ?on ?m))"
    using mset_visit [OF assms(2-4)]
    by (simp add: process_sinks_map job_target_def comp_def case_prod_unfold)
  moreover have "\<forall>(ev', k, u, p) \<in> set ?js. \<exists>order. p = adapt order k ev'" by (auto simp: process_sinks_map)
  ultimately show ?thesis by (auto simp: owed_def enabled_sinks_def)
qed

interpretation eng: inv_system eng_init eng_step eng_ok
proof unfold_locales
  show "eng_ok s" if "eng_init s" for s :: "'a eng_sys"
    using that by (auto simp: eng_init_def eng_ok_def intro!: exI [of _ "[]"])
  show "eng_ok t" if st: "eng_step s t" and ok: "eng_ok s" for s t :: "'a eng_sys"
    using st ok
  proof (cases rule: eng_step.cases)
    case (work so order)
    then obtain ev rest where ch: "eventsChan (engine s) = ev # rest" by (meson neq_Nil_conv)
    obtain js where "worker_turn so order (engine s) = (engine s)\<lparr>eventsChan := rest, started := started (engine s) @ js\<rparr>"
      "owed (ev, eng_cfg (engine s)) js" using worker_turn_owed [OF ch work(4-6)] by blast
    moreover obtain taken jobs where "accepted s = map fst taken @ eventsChan (engine s)" "started (engine s) = concat jobs"
      "list_all2 owed taken jobs" "length (eventsChan (engine s)) \<le> chan_capacity" using ok by (auto simp: eng_ok_def)
    ultimately show ?thesis unfolding work(1) eng_ok_def using ch
      by (intro conjI exI [of _ "taken @ [(ev, eng_cfg (engine s))]"] exI [of _ "jobs @ [js]"]) (auto intro: list_all2_appendI)
  next
    case (close e)
    with ok close_same [OF close(2)] show ?thesis by (simp add: eng_ok_def)
  qed (auto simp: eng_ok_def Publish_def deliver_same)
qed

text \<open>Without workers nothing is taken any more.\<close>

lemma idle_started:
  assumes "eng_step\<^sup>*\<^sup>* s t" and "workers (engine s) = 0"
  shows "started (engine t) = started (engine s) \<and> workers (engine t) = 0"
  using assms
proof (induction rule: rtranclp_induct)
  case (step t u)
  with step.hyps(2) show ?case
    by (cases rule: eng_step.cases) (auto simp: Publish_def deliver_same dest: close_same)
qed simp

text \<open>The error of an attempt, as the loop meets it.\<close>

abbreviation att_err :: "golib \<Rightarrow> net \<Rightarrow> string \<Rightarrow> bytes \<Rightarrow> nat \<Rightarrow> string option" where
  "att_err lib nw endpoint payload i \<equiv>
     attempt_error (net_send nw i (delivery_request lib endpoint payload (net_now nw i)))"

lemma retry_loop_spec:
  assumes "\<forall>i < attempt. att_err lib nw endpoint payload i \<noteq> None" and "int attempt \<le> maxRetries" and "0 < maxRetries"
    and "lastErr = (if attempt = 0 then None else att_err lib nw endpoint payload (attempt - 1))"
  shows "case retry_loop lib nw maxRetries base endpoint payload attempt lastErr of
      LoopDelivered k \<Rightarrow> int k < maxRetries \<and> att_err lib nw endpoint payload k = None \<and>
        (\<forall>i < k. att_err lib nw endpoint payload i \<noteq> None)
    | LoopCancelled k \<Rightarrow> 0 < k \<and> int k < maxRetries \<and> net_cancelled nw k (backoff base k) \<and>
        (\<forall>i < k. att_err lib nw endpoint payload i \<noteq> None)
    | LoopExhausted err \<Rightarrow> (\<forall>i < nat maxRetries. att_err lib nw endpoint payload i \<noteq> None) \<and>
        err = att_err lib nw endpoint payload (nat maxRetries - 1)"
  using assms
proof (induction lib nw maxRetries base endpoint payload attempt lastErr rule: retry_loop.induct)
  case (1 lib nw maxRetries base endpoint payload attempt lastErr)
  show ?case
  proof (cases "int attempt < maxRetries")
    case False
    then have "attempt = nat maxRetries" using "1.prems"(2) by simp
    with "1.prems" False show ?thesis by (subst retry_loop.simps) auto
  next
    case True
    show ?thesis
    proof (cases "attempt > 0 \<and> net_cancelled nw attempt (backoff base attempt)")
      case c: True
      with True "1.prems"(1) show ?thesis by (subst retry_loop.simps) simp
    next
      case c: False
      show ?thesis
      proof (cases "att_err lib nw endpoint payload attempt")
        case None
        with True c "1.prems"(1) show ?thesis by (subst retry_loop.simps) auto
      next
        case (Some err)
        have "\<forall>i < attempt + 1. att_err lib nw endpoint payload i \<noteq> None"
          using "1.prems"(1) Some by (auto simp: less_Suc_eq)
        moreover have "retry_loop lib nw maxRetries base endpoint payload attempt lastErr =
            retry_loop lib nw maxRetries base endpoint payload (attempt + 1) (Some err)"
          using True c Some by (subst retry_loop.simps) auto
        ultimately show ?thesis using "1.IH" [OF True c Some] "1.prems"(3) True Some by simp
      qed
    qed
  qed
qed

lemma max_retries_pos: "0 < max_retries c"
  by (simp add: max_retries_def)

section \<open>Properties\<close>

text \<open>
  C19. How a delivery ends. For every configuration and network, \<open>deliverWithRetry\<close> ends in one
  of three ways: delivered at an attempt below the retry limit after only failures; abandoned
  because the context was cancelled in the wait before a later attempt; or, after every attempt
  failed, with an item in the dead-letter queue that carries the last error and the number of
  attempts. The error of the last attempt is always there when it is used.
\<close>

theorem delivery_outcome:
  "case deliverWithRetry lib nw fmt failedAt rnd (event, sinkType, endpoint, payload) e s of
     (Delivered k, _, _) \<Rightarrow> int k < max_retries (cloneConfig (eng_cfg e)) \<and>
       attempt_error (net_send nw k (delivery_request lib endpoint payload (net_now nw k))) = None \<and>
       (\<forall>i < k. attempt_error (net_send nw i (delivery_request lib endpoint payload (net_now nw i))) \<noteq> None)
   | (Abandoned k, _, _) \<Rightarrow> 0 < k \<and> int k < max_retries (cloneConfig (eng_cfg e)) \<and>
       net_cancelled nw k (backoff (base_delay (cloneConfig (eng_cfg e))) k)
   | (DeadLettered item, e', _) \<Rightarrow>
       (\<forall>i < nat (max_retries (cloneConfig (eng_cfg e))).
          attempt_error (net_send nw i (delivery_request lib endpoint payload (net_now nw i))) \<noteq> None) \<and>
       Some (LastError item) = attempt_error (net_send nw (nat (max_retries (cloneConfig (eng_cfg e))) - 1)
         (delivery_request lib endpoint payload (net_now nw (nat (max_retries (cloneConfig (eng_cfg e))) - 1)))) \<and>
       RetryCount item = max_retries (cloneConfig (eng_cfg e)) \<and> PayloadJSON item = payload \<and>
       map_of (inMemory (dlqManager e')) (dlq_ID item) = Some item
   | (NilPanic, _, _) \<Rightarrow> False"
proof -
  let ?c = "cloneConfig (eng_cfg e)"
  let ?n = "max_retries ?c"
  note spec = retry_loop_spec [where attempt = 0 and lastErr = None and lib = lib and nw = nw and endpoint = endpoint
      and payload = payload and maxRetries = ?n and base = "base_delay ?c"]
  show ?thesis
  proof (cases "retry_loop lib nw ?n (base_delay ?c) endpoint payload 0 None")
    case (LoopDelivered k)
    with spec max_retries_pos [of ?c] show ?thesis by (simp add: deliverWithRetry_def Let_def)
  next
    case (LoopCancelled k)
    with spec max_retries_pos [of ?c] show ?thesis by (simp add: deliverWithRetry_def Let_def)
  next
    case (LoopExhausted err)
    with spec max_retries_pos [of ?c]
    have ex: "\<forall>i < nat ?n. att_err lib nw endpoint payload i \<noteq> None" "err = att_err lib nw endpoint payload (nat ?n - 1)"
      by simp_all
    have "nat ?n - 1 < nat ?n" using max_retries_pos [of ?c] by simp
    with ex obtain x where x: "err = Some x" by blast
    let ?item = "dlq_item event sinkType endpoint payload ?n x failedAt rnd"
    obtain y dlq s' where enq: "Enqueue fmt (dlqManager e) s ?item = (y, dlq, s')" by (metis prod.exhaust)
    then have "map_of (inMemory dlq) (dlq_ID ?item) = Some ?item"
      by (auto simp: Enqueue_def Let_def split: option.splits)
    moreover have "Some (LastError ?item) = att_err lib nw endpoint payload (nat ?n - 1)" "RetryCount ?item = ?n"
      "PayloadJSON ?item = payload"
      using ex(2) x by (simp_all add: dlq_item_def)
    ultimately show ?thesis
      unfolding deliverWithRetry_def Let_def prod.case LoopExhausted x loop_result.case option.case enq
      using ex(1) by simp
  qed
qed

definition sample_engine :: "unit Engine" where
  "sample_engine = NewEngine defaultConfig False (NewDLQManager None []) None"

text \<open>A network whose first attempt is answered 500 and whose second succeeds.\<close>

definition flaky_net :: net where
  "flaky_net = \<lparr>net_now = (\<lambda>_. 5), net_send = (\<lambda>k _. HttpResp (if k = 0 then 500 else 200) []), net_cancelled = (\<lambda>_ _. False)\<rparr>"

theorem delivery_outcome_witness:
  "fst (deliverWithRetry toy_lib flaky_net (\<lambda>_. None) 0 [] (sample_event, ''generic'', ''http://sink'', ''{}'') sample_engine ())
     = Delivered 1 \<and>
   attempt_error (net_send flaky_net 0 (delivery_request toy_lib ''http://sink'' ''{}'' 5)) \<noteq> None"
proof -
  have n: "max_retries (cloneConfig (eng_cfg sample_engine)) = 3"
    by (simp add: sample_engine_def NewEngine_def cloneConfig_def max_retries_def defaultConfig_def)
  have sel: "net_send flaky_net = (\<lambda>k _. HttpResp (if k = 0 then 500 else 200) [])" "net_cancelled flaky_net = (\<lambda>_ _. False)"
    by (simp_all add: flaky_net_def)
  have "retry_loop toy_lib flaky_net 3 b u p 0 None = LoopDelivered 1" for b u p
    by (simp add: retry_loop.simps [of toy_lib flaky_net 3] sel attempt_error_def is_2xx_def)
  then have d: "deliverWithRetry toy_lib flaky_net (\<lambda>_. None) 0 [] (sample_event, ''generic'', ''http://sink'', ''{}'') sample_engine ()
      = (Delivered 1, sample_engine, ())"
    by (simp add: deliverWithRetry_def n Let_def)
  from delivery_outcome [where lib = toy_lib and nw = flaky_net and fmt = "\<lambda>_. None" and failedAt = 0 and rnd = "[]"
      and event = sample_event and sinkType = "''generic''" and endpoint = "''http://sink''" and payload = "''{}''"
      and e = sample_engine and s = "()"]
  show ?thesis unfolding d by (simp add: flaky_net_def)
qed


text \<open>One event, taken by a worker: it is delivered to the sinks of the default configuration.\<close>

definition busy_engine :: "unit Engine" where
  "busy_engine = engine_Start sample_engine"


lemma poll_batch_result:
  "length (eventsChan e) \<le> chan_capacity \<Longrightarrow>
   fst (poll_batch now msgs (acked, e)) = acked @ map msg_ID msgs \<and>
   eventsChan (snd (poll_batch now msgs (acked, e))) =
     take chan_capacity (eventsChan e @ map (event_of_msg now) msgs)"
proof (induction now msgs "(acked, e)" arbitrary: acked e rule: poll_batch.induct)
  case (2 now msg msgs acked e)
  show ?case
  proof (cases "length (eventsChan e) < chan_capacity")
    case True
    with 2 show ?thesis by (simp add: Publish_def)
  next
    case False
    with 2 show ?thesis by (simp add: Publish_def)
  qed
qed simp

text \<open>
  The poller acknowledges what it drops. Of a batch of stream messages every one is
  acknowledged, but only those that fit into the channel are kept: with the channel full the
  whole batch is acknowledged and lost.
\<close>

theorem poller_acks_dropped:
  assumes "length (eventsChan e) \<le> 5000" and "\<not> stopCh_closed e" and "\<not> poll_cancelled e"
    and "poll_turn now stopped (PollEntries streams) e = (goes_on, acked, e')"
  shows "goes_on \<and> acked = map msg_ID (concat streams) \<and>
    eventsChan e' = take 5000 (eventsChan e @ map (event_of_msg now) (concat streams))"
  using assms poll_batch_result [of e now "concat streams" "[]"]
  by (auto simp: poll_turn_def chan_capacity_def split: prod.splits)

theorem poller_acks_dropped_witness:
  "fst (snd (poll_turn 7 False (PollEntries [[\<lparr>msg_ID = ''1-0'', msg_Values = []\<rparr>]])
      (sample_engine\<lparr>eventsChan := replicate 5000 sample_event\<rparr>))) = [''1-0'']"
proof -
  let ?e = "sample_engine\<lparr>eventsChan := replicate 5000 sample_event\<rparr>"
  let ?r = "PollEntries [[\<lparr>msg_ID = ''1-0'', msg_Values = []\<rparr>]]"
  obtain goes_on acked e' where out: "poll_turn 7 False ?r ?e = (goes_on, acked, e')" by (metis prod.exhaust)
  from poller_acks_dropped [OF _ _ _ out] out show ?thesis
    by (simp add: sample_engine_def NewEngine_def)
qed

text \<open>
  Stopping twice. \<open>Stop\<close> succeeds once on any engine that is not stopped, and a second call
  closes a closed channel and panics.
\<close>

theorem engine_stop_twice:
  assumes "\<not> stopCh_closed e"
  shows "\<exists>e'. engine_Stop e = Some e' \<and> stopCh_closed e' \<and> engine_Stop e' = None"
  using assms by (simp add: engine_Stop_def close_stop_def Let_def)

theorem engine_stop_twice_witness: "\<exists>e'. engine_Stop sample_engine = Some e' \<and> engine_Stop e' = None"
  using engine_stop_twice [of sample_engine] by (auto simp: sample_engine_def NewEngine_def)

end
