(* ===== verification/Cors.thy ===== *)
theory Cors
  imports Go_Strings
begin

text \<open>
  The parts of \<open>net/http\<close> that handlers use, and \<^verbatim>\<open>internal/middleware/cors.go\<close>.

  A request is what the handlers read of it. A \<open>ResponseWriter\<close> has headers that can change
  until the status is sent; a second \<open>WriteHeader\<close> is ignored, an informational one does not count, and a write sends status 200 if
  none was sent. A status outside of 100 to 999 makes \<open>WriteHeader\<close> panic (\<open>header_panics\<close>); handlers that write a status which is
  not a constant of the source check for it. \<open>Wrap\<close> is a function from the next handler to a handler over a state of any
  type. \<open>strings.EqualFold\<close> on names that are not ASCII is the argument \<open>ufold\<close>.

  Shown: which origin the middleware reflects, that credentials are never allowed together with
  the wildcard, and that a preflight request ends in the middleware.
\<close>

section \<open>Definitions\<close>

subsection \<open>net/http\<close>

record http_request =
  r_Method :: string
  r_Path :: string
  r_RequestURI :: string
  r_Header :: http_header
  r_Body :: "bytes option"  \<comment> \<open>\<open>None\<close>: reading it fails\<close>

record resp_writer =
  w_Header :: http_header
  w_sent :: "(int \<times> http_header) option"
  w_body :: bytes

definition new_writer :: resp_writer where
  "new_writer = \<lparr>w_Header = [], w_sent = None, w_body = []\<rparr>"

definition w_set :: "string \<Rightarrow> string \<Rightarrow> resp_writer \<Rightarrow> resp_writer" where
  "w_set k v w = w\<lparr>w_Header := hdr_set k v (w_Header w)\<rparr>"

definition w_add :: "string \<Rightarrow> string \<Rightarrow> resp_writer \<Rightarrow> resp_writer" where
  "w_add k v w = w\<lparr>w_Header := hdr_add k v (w_Header w)\<rparr>"

definition bad_status :: "int \<Rightarrow> bool" where
  "bad_status code \<longleftrightarrow> code < 100 \<or> 999 < code"

definition header_panics :: "int \<Rightarrow> resp_writer \<Rightarrow> bool" where
  "header_panics code w \<longleftrightarrow> w_sent w = None \<and> bad_status code"

definition informational :: "int \<Rightarrow> bool" where
  "informational code \<longleftrightarrow> 100 \<le> code \<and> code \<le> 199 \<and> code \<noteq> 101"

definition WriteHeader :: "int \<Rightarrow> resp_writer \<Rightarrow> resp_writer" where
  "WriteHeader code w =
     (case w_sent w of
        None \<Rightarrow> if informational code then w else w\<lparr>w_sent := Some (code, w_Header w)\<rparr>
      | Some _ \<Rightarrow> w)"

definition w_Write :: "bytes \<Rightarrow> resp_writer \<Rightarrow> resp_writer" where
  "w_Write b w = (let w = WriteHeader 200 w in w\<lparr>w_body := w_body w @ b\<rparr>)"

definition equal_fold :: "(string \<Rightarrow> string \<Rightarrow> bool) \<Rightarrow> string \<Rightarrow> string \<Rightarrow> bool" where
  "equal_fold ufold s t =
     (if is_ascii s \<and> is_ascii t then map ascii_lower s = map ascii_lower t else ufold s t)"

lemma informational_const [simp]: "200 \<le> code \<Longrightarrow> \<not> informational code"
  by (simp add: informational_def)

subsection \<open>cors.go\<close>

record CORSConfig =
  AllowedOrigins :: "string list"
  AllowedMethods :: "string list"
  AllowedHeaders :: "string list"
  ExposedHeaders :: "string list"
  MaxAge :: i64
  AllowCredentials :: bool
  SecurityHeaders :: bool

definition DefaultCORSConfig :: CORSConfig where
  "DefaultCORSConfig =
     \<lparr>AllowedOrigins = [''*''],
      AllowedMethods = [''GET'', ''POST'', ''PUT'', ''PATCH'', ''DELETE'', ''OPTIONS''],
      AllowedHeaders = [''Authorization'', ''Content-Type'', ''Accept'', ''Origin'', ''X-API-Key'',
                        ''X-Aegis-Signature'', ''traceparent''],
      ExposedHeaders = [''X-RateLimit-Limit'', ''X-RateLimit-Remaining'', ''X-RateLimit-Burst-Limit'',
                        ''X-RateLimit-Burst-Remaining'', ''X-RateLimit-Status'', ''X-Cache-Status'', ''X-Aegis-Trace-ID''],
      MaxAge = 86400, AllowCredentials = False, SecurityHeaders = True\<rparr>"

record CORSMiddleware =
  cors_cfg :: CORSConfig

definition NewCORSMiddleware :: "CORSConfig \<Rightarrow> CORSMiddleware" where
  "NewCORSMiddleware c =
     (let c = (if AllowedOrigins c = [] then c\<lparr>AllowedOrigins := [''*'']\<rparr> else c);
          c = (if AllowedMethods c = []
               then c\<lparr>AllowedMethods := [''GET'', ''POST'', ''PUT'', ''PATCH'', ''DELETE'', ''OPTIONS'']\<rparr> else c)
      in \<lparr>cors_cfg = c\<rparr>)"

definition security_headers :: "resp_writer \<Rightarrow> resp_writer" where
  "security_headers w =
     w_set ''Referrer-Policy'' ''strict-origin-when-cross-origin''
       (w_set ''X-XSS-Protection'' ''1; mode=block''
         (w_set ''X-Frame-Options'' ''SAMEORIGIN'' (w_set ''X-Content-Type-Options'' ''nosniff'' w)))"

text \<open>The loop over the allowed origins; the flag is \<open>matched\<close>.\<close>

fun match_origin ::
  "(string \<Rightarrow> string \<Rightarrow> bool) \<Rightarrow> bool \<Rightarrow> string \<Rightarrow> string list \<Rightarrow> resp_writer \<Rightarrow> bool \<times> resp_writer" where
  "match_origin ufold creds origin [] w = (False, w)"
| "match_origin ufold creds origin (a # as) w =
     (if a = ''*'' then (True, w_set ''Access-Control-Allow-Origin'' ''*'' w)
      else if equal_fold ufold a origin then
        (let w = w_set ''Access-Control-Allow-Origin'' origin w;
             w = (if creds then w_set ''Access-Control-Allow-Credentials'' ''true'' w else w)
         in (True, w_add ''Vary'' ''Origin'' w))
      else match_origin ufold creds origin as w)"

definition cors_headers :: "(string \<Rightarrow> string \<Rightarrow> bool) \<Rightarrow> CORSConfig \<Rightarrow> http_request \<Rightarrow> resp_writer \<Rightarrow> resp_writer" where
  "cors_headers ufold c r w =
     (let origin = hdr_get (r_Header r) ''Origin'';
          w = (if SecurityHeaders c then security_headers w else w)
      in if origin \<noteq> [] then
           (let (matched, w) = match_origin ufold (AllowCredentials c) origin (AllowedOrigins c) w
            in if matched then w_set ''Access-Control-Expose-Headers'' (join (ExposedHeaders c) '', '') w else w)
         else w)"

definition Wrap ::
  "(string \<Rightarrow> string \<Rightarrow> bool) \<Rightarrow> CORSMiddleware \<Rightarrow> (http_request \<Rightarrow> resp_writer \<times> 's \<Rightarrow> resp_writer \<times> 's)
     \<Rightarrow> http_request \<Rightarrow> resp_writer \<times> 's \<Rightarrow> resp_writer \<times> 's" where
  "Wrap ufold cm next r ws =
     (let c = cors_cfg cm;
          (w, s) = ws;
          w = cors_headers ufold c r w
      in if r_Method r = ''OPTIONS'' then
           (WriteHeader 204
             (w_set ''Access-Control-Max-Age'' (show_int (MaxAge c))
               (w_set ''Access-Control-Allow-Headers'' (join (AllowedHeaders c) '', '')
                 (w_set ''Access-Control-Allow-Methods'' (join (AllowedMethods c) '', '') w))), s)
         else next r (w, s))"

section \<open>Lemmas\<close>

lemma w_get_set: "hdr_get (w_Header (w_set k v w)) k' =
    (if canonical_key k' = canonical_key k then v else hdr_get (w_Header w) k')"
  by (simp add: w_set_def hdr_get_set)

lemma w_get_add_other: "canonical_key k' \<noteq> canonical_key k \<Longrightarrow>
    hdr_get (w_Header (w_add k v w)) k' = hdr_get (w_Header w) k'"
  by (simp add: w_add_def hdr_get_def hdr_values_add)

lemma w_sent_set [simp]: "w_sent (w_set k v w) = w_sent w" "w_sent (w_add k v w) = w_sent w"
  "w_body (w_set k v w) = w_body w" "w_body (w_add k v w) = w_body w"
  by (simp_all add: w_set_def w_add_def)

text \<open>The canonical forms of the header names used here.\<close>

lemma cors_keys:
  "canonical_key ''Access-Control-Allow-Origin'' = ''Access-Control-Allow-Origin''"
  "canonical_key ''Access-Control-Allow-Credentials'' = ''Access-Control-Allow-Credentials''"
  "canonical_key ''Access-Control-Expose-Headers'' = ''Access-Control-Expose-Headers''"
  "canonical_key ''Access-Control-Allow-Methods'' = ''Access-Control-Allow-Methods''"
  "canonical_key ''Access-Control-Allow-Headers'' = ''Access-Control-Allow-Headers''"
  "canonical_key ''Access-Control-Max-Age'' = ''Access-Control-Max-Age''"
  "canonical_key ''Vary'' = ''Vary''"
  "canonical_key ''Referrer-Policy'' = ''Referrer-Policy''"
  "canonical_key ''X-XSS-Protection'' = ''X-Xss-Protection''"
  "canonical_key ''X-Frame-Options'' = ''X-Frame-Options''"
  "canonical_key ''X-Content-Type-Options'' = ''X-Content-Type-Options''"
  by code_simp+

lemmas cors_simps = w_get_set w_get_add_other cors_keys

text \<open>The first allowed origin that is the wildcard or equals the request's.\<close>

definition first_match :: "(string \<Rightarrow> string \<Rightarrow> bool) \<Rightarrow> string \<Rightarrow> string list \<Rightarrow> string option" where
  "first_match ufold origin as = find (\<lambda>a. a = ''*'' \<or> equal_fold ufold a origin) as"

lemma match_origin_find:
  "match_origin ufold creds origin as w =
     (case first_match ufold origin as of
        None \<Rightarrow> (False, w)
      | Some a \<Rightarrow>
          (True, if a = ''*'' then w_set ''Access-Control-Allow-Origin'' ''*'' w
                 else w_add ''Vary'' ''Origin''
                   (let w = w_set ''Access-Control-Allow-Origin'' origin w
                    in if creds then w_set ''Access-Control-Allow-Credentials'' ''true'' w else w)))"
  by (induction ufold creds origin as w rule: match_origin.induct) (auto simp: first_match_def Let_def)

lemma hdr_get_Nil [simp]: "hdr_get [] k = []"
  by (simp add: hdr_get_def hdr_values_def)

text \<open>
  C36. The CORS policy. On a fresh response the middleware allows an origin exactly when the
  configuration lists the wildcard or that origin (whichever comes first), reflecting the
  request's origin in the second case; it allows credentials exactly when configured and the
  match is not the wildcard; and a preflight request is answered with 204 without reaching the
  next handler, whatever that is.
\<close>

theorem cors_policy:
  "hdr_get (w_Header (cors_headers ufold c r new_writer)) ''Access-Control-Allow-Origin'' =
     (let origin = hdr_get (r_Header r) ''Origin''
      in if origin = [] then [] else (case first_match ufold origin (AllowedOrigins c) of
           None \<Rightarrow> [] | Some a \<Rightarrow> if a = ''*'' then ''*'' else origin)) \<and>
   hdr_get (w_Header (cors_headers ufold c r new_writer)) ''Access-Control-Allow-Credentials'' =
     (let origin = hdr_get (r_Header r) ''Origin''
      in if origin \<noteq> [] \<and> AllowCredentials c \<and> first_match ufold origin (AllowedOrigins c) \<notin> {None, Some ''*''}
         then ''true'' else []) \<and>
   snd (Wrap ufold cm next (r\<lparr>r_Method := ''OPTIONS''\<rparr>) (new_writer, s)) = s \<and>
   map_option fst (w_sent (fst (Wrap ufold cm next (r\<lparr>r_Method := ''OPTIONS''\<rparr>) (new_writer, s)))) = Some 204"
proof (intro conjI)
  show "hdr_get (w_Header (cors_headers ufold c r new_writer)) ''Access-Control-Allow-Origin'' =
     (let origin = hdr_get (r_Header r) ''Origin''
      in if origin = [] then [] else (case first_match ufold origin (AllowedOrigins c) of
           None \<Rightarrow> [] | Some a \<Rightarrow> if a = ''*'' then ''*'' else origin))"
    by (simp add: cors_headers_def match_origin_find security_headers_def cors_simps new_writer_def Let_def split: option.split)
  show "hdr_get (w_Header (cors_headers ufold c r new_writer)) ''Access-Control-Allow-Credentials'' =
     (let origin = hdr_get (r_Header r) ''Origin''
      in if origin \<noteq> [] \<and> AllowCredentials c \<and> first_match ufold origin (AllowedOrigins c) \<notin> {None, Some ''*''}
         then ''true'' else [])"
    by (auto simp: cors_headers_def match_origin_find security_headers_def cors_simps new_writer_def Let_def split: option.split)
  have "w_sent (cors_headers ufold d r new_writer) = None" for d and r :: http_request
    by (simp add: cors_headers_def match_origin_find security_headers_def new_writer_def Let_def split: option.split)
  then show "map_option fst (w_sent (fst (Wrap ufold cm next (r\<lparr>r_Method := ''OPTIONS''\<rparr>) (new_writer, s)))) = Some 204"
    by (simp add: Wrap_def WriteHeader_def Let_def)
qed (simp add: Wrap_def Let_def)

end
