(* ===== verification/Go_Decode.thy ===== *)
theory Go_Decode
  imports Go_Json "HOL-Library.Monad_Syntax"
begin

text \<open>
  \<open>json.NewDecoder(r).Decode(&v)\<close> of Go's \<open>encoding/json\<close>, for the targets the program decodes
  into: structs with string, bool and \<open>*bool\<close> fields.

  \<^item> \<open>scan_value\<close> reads one JSON value and returns what follows it; \<open>None\<close> is a syntax error or
    the end of the input inside the value, after which \<open>Decode\<close> leaves the target as it is. The
    first argument bounds the recursion, and twice the input's length is always enough; the second is the
    nesting depth, at most 10000.
  \<^item> \<open>unquote\<close> resolves escapes, surrogate pairs and bytes that are not UTF-8.
  \<^item> \<open>body_str\<close>, \<open>body_bool\<close> and \<open>body_ptr\<close> are the fields of the target after the call: keys match up to
    case, the last one counts, and a value of another type is skipped.

  Shown: the bound on the recursion is enough, decoding a value that \<open>json.Marshal\<close> wrote gives it
  back, and a body that does not decode leaves every field at its zero value.
\<close>

section \<open>Definitions\<close>

datatype jval =
    VNull
  | VBool bool
  | VNum string
  | VStr string
  | VArr "jval list"
  | VObj "(string \<times> jval) list"

subsection \<open>Strings\<close>

definition rune_error :: string where
  "rune_error = [CHR 0xEF, CHR 0xBF, CHR 0xBD]"

definition utf8_encode :: "int \<Rightarrow> string" where
  "utf8_encode r =
     (if r < 0x80 then [char_of r]
      else if r < 0x800 then [char_of (0xC0 + r div 64), char_of (0x80 + r mod 64)]
      else if r < 0x10000 then [char_of (0xE0 + r div 4096), char_of (0x80 + r div 64 mod 64), char_of (0x80 + r mod 64)]
      else [char_of (0xF0 + r div 262144), char_of (0x80 + r div 4096 mod 64), char_of (0x80 + r div 64 mod 64),
            char_of (0x80 + r mod 64)])"

text \<open>The four hexadecimal digits after \<^verbatim>\<open>\u\<close>, as \<open>getu4\<close> reads them.\<close>

fun hex4 :: "string \<Rightarrow> int option" where
  "hex4 (a # b # c # d # s) =
     (case (hex_val a, hex_val b, hex_val c, hex_val d) of
        (Some a, Some b, Some c, Some d) \<Rightarrow> Some (((int a * 16 + int b) * 16 + int c) * 16 + int d)
      | _ \<Rightarrow> None)"
| "hex4 _ = None"

definition getu4 :: "string \<Rightarrow> int option" where
  "getu4 s = (if has_prefix s [backslash, CHR ''u''] then hex4 (drop 2 s) else None)"

definition surrogate :: "int \<Rightarrow> bool" where
  "surrogate r \<longleftrightarrow> 0xD800 \<le> r \<and> r < 0xE000"

definition decode_pair :: "int \<Rightarrow> int option \<Rightarrow> int option" where
  "decode_pair hi lo =
     (case lo of
        None \<Rightarrow> None
      | Some lo \<Rightarrow>
          if hi < 0xDC00 \<and> 0xDC00 \<le> lo \<and> lo < 0xE000 then Some ((hi - 0xD800) * 1024 + (lo - 0xDC00) + 0x10000) else None)"

definition unescape :: "char \<Rightarrow> char" where
  "unescape c =
     (if c = CHR ''b'' then CHR 0x08 else if c = CHR ''f'' then CHR 0x0C else if c = CHR ''n'' then CHR 0x0A
      else if c = CHR ''r'' then CHR 0x0D else if c = CHR ''t'' then CHR 0x09 else c)"

text \<open>One step: how many bytes of the literal it consumes, and what it writes.\<close>

definition unquote_head :: "char \<Rightarrow> string \<Rightarrow> nat \<times> string" where
  "unquote_head c s =
     (if c = backslash then
        (case s of
           [] \<Rightarrow> (1, [])
         | e # s' \<Rightarrow>
             if e = CHR ''u'' then
               (case hex4 s' of
                  None \<Rightarrow> (2, [])
                | Some r \<Rightarrow>
                    if surrogate r then
                      (case decode_pair r (getu4 (drop 4 s')) of
                         Some r' \<Rightarrow> (12, utf8_encode r')
                       | None \<Rightarrow> (6, rune_error))
                    else (6, utf8_encode r))
             else (2, [unescape e]))
      else if of_char c < (0x80 :: nat) then (1, [c])
      else (case utf8_len (c # s) of None \<Rightarrow> (1, rune_error) | Some n \<Rightarrow> (n, take n (c # s))))"

function unquote :: "string \<Rightarrow> string" where
  "unquote [] = []"
| "unquote (c # s) = (case unquote_head c s of (n, out) \<Rightarrow> out @ unquote (drop (n - 1) s))"
  by pat_completeness auto
termination
  by (relation "measure length") auto

text \<open>The text of a string literal up to its closing quote, and what follows.\<close>

fun str_lit :: "string \<Rightarrow> (string \<times> string) option" where
  "str_lit [] = None"
| "str_lit (c # s) =
     (if c = dquote then Some ([], s)
      else if c = backslash then
        (case s of
           [] \<Rightarrow> None
         | e # s' \<Rightarrow>
             if e = CHR ''u'' then
               (if hex4 s' = None then None
                else map_option (\<lambda>(l, t). (c # e # take 4 s' @ l, t)) (str_lit (drop 4 s')))
             else if e = dquote \<or> e = backslash \<or> e \<in> set ''/bfnrt'' then
               map_option (\<lambda>(l, t). (c # e # l, t)) (str_lit s')
             else None)
      else if of_char c < (0x20 :: nat) then None
      else map_option (\<lambda>(l, t). (c # l, t)) (str_lit s))"

subsection \<open>Values\<close>

definition json_space :: "char \<Rightarrow> bool" where
  "json_space c \<longleftrightarrow> c = CHR '' '' \<or> c = CHR 0x09 \<or> c = CHR 0x0D \<or> c = CHR 0x0A"

definition skip_ws :: "string \<Rightarrow> string" where
  "skip_ws s = dropWhile json_space s"

definition is_digit :: "char \<Rightarrow> bool" where
  "is_digit c \<longleftrightarrow> digit_val c \<noteq> None"

definition digits1 :: "string \<Rightarrow> string option" where
  "digits1 s = (case s of [] \<Rightarrow> None | c # t \<Rightarrow> if is_digit c then Some (dropWhile is_digit t) else None)"

definition scan_int :: "string \<Rightarrow> string option" where
  "scan_int s =
     (let t = trim_prefix s ''-''
      in case t of
           [] \<Rightarrow> None
         | c # u \<Rightarrow> if c = CHR ''0'' then Some u else digits1 t)"

definition scan_frac :: "string \<Rightarrow> string option" where
  "scan_frac s = (case s of [] \<Rightarrow> Some s | c # t \<Rightarrow> if c = CHR ''.'' then digits1 t else Some s)"

definition scan_exp :: "string \<Rightarrow> string option" where
  "scan_exp s =
     (case s of
        [] \<Rightarrow> Some s
      | c # t \<Rightarrow>
          if c = CHR ''e'' \<or> c = CHR ''E'' then
            (case t of [] \<Rightarrow> None | d # u \<Rightarrow> digits1 (if d = CHR ''+'' \<or> d = CHR ''-'' then u else t))
          else Some s)"

definition scan_num :: "string \<Rightarrow> (jval \<times> string) option" where
  "scan_num s = do { t \<leftarrow> scan_int s; t \<leftarrow> scan_frac t; t \<leftarrow> scan_exp t; Some (VNum (take (length s - length t) s), t) }"

definition expect :: "char \<Rightarrow> string \<Rightarrow> string option" where
  "expect c s = (case skip_ws s of [] \<Rightarrow> None | d # t \<Rightarrow> if d = c then Some t else None)"

definition scan_key :: "string \<Rightarrow> (string \<times> string) option" where
  "scan_key s = do { s \<leftarrow> expect dquote s; (l, s) \<leftarrow> str_lit s; s \<leftarrow> expect (CHR '':'') s; Some (unquote l, s) }"

definition scan_word :: "string \<Rightarrow> (jval \<times> string) option" where
  "scan_word s =
     (if has_prefix s ''true'' then Some (VBool True, drop 4 s)
      else if has_prefix s ''false'' then Some (VBool False, drop 5 s)
      else if has_prefix s ''null'' then Some (VNull, drop 4 s)
      else None)"

fun scan_value :: "nat \<Rightarrow> int \<Rightarrow> string \<Rightarrow> (jval \<times> string) option"
  and scan_elems :: "nat \<Rightarrow> int \<Rightarrow> string \<Rightarrow> (jval list \<times> string) option"
  and scan_members :: "nat \<Rightarrow> int \<Rightarrow> string \<Rightarrow> ((string \<times> jval) list \<times> string) option" where
  "scan_value 0 d s = None"
| "scan_value (Suc n) d s =
     (case skip_ws s of
        [] \<Rightarrow> None
      | c # t \<Rightarrow>
          if c = dquote then map_option (\<lambda>(l, u). (VStr (unquote l), u)) (str_lit t)
          else if c = CHR ''{'' then
            (if d \<ge> 10000 then None
             else (case expect (CHR ''}'') t of
                     Some u \<Rightarrow> Some (VObj [], u)
                   | None \<Rightarrow> map_option (\<lambda>(kvs, u). (VObj kvs, u)) (scan_members n (d + 1) t)))
          else if c = CHR ''['' then
            (if d \<ge> 10000 then None
             else (case expect (CHR '']'') t of
                     Some u \<Rightarrow> Some (VArr [], u)
                   | None \<Rightarrow> map_option (\<lambda>(vs, u). (VArr vs, u)) (scan_elems n (d + 1) t)))
          else if c = CHR ''-'' \<or> is_digit c then scan_num (c # t)
          else scan_word (c # t))"
| "scan_elems 0 d s = None"
| "scan_elems (Suc n) d s =
     (case scan_value n d s of
        None \<Rightarrow> None
      | Some (v, t) \<Rightarrow>
          (case expect (CHR '']'') t of
             Some u \<Rightarrow> Some ([v], u)
           | None \<Rightarrow>
               (case expect (CHR '','') t of
                  None \<Rightarrow> None
                | Some u \<Rightarrow> map_option (\<lambda>(vs, u). (v # vs, u)) (scan_elems n d u))))"
| "scan_members 0 d s = None"
| "scan_members (Suc n) d s =
     (case scan_key s of
        None \<Rightarrow> None
      | Some (k, s) \<Rightarrow>
          (case scan_value n d s of
             None \<Rightarrow> None
           | Some (v, t) \<Rightarrow>
               (case expect (CHR ''}'') t of
                  Some u \<Rightarrow> Some ([(k, v)], u)
                | None \<Rightarrow>
                    (case expect (CHR '','') t of
                       None \<Rightarrow> None
                     | Some u \<Rightarrow> map_option (\<lambda>(kvs, u). ((k, v) # kvs, u)) (scan_members n d u)))))"

definition json_decode :: "bytes \<Rightarrow> jval option" where
  "json_decode b = map_option fst (scan_value (2 * length b + 1) 0 b)"

subsection \<open>Struct fields\<close>

text \<open>
  Keys are compared with \<open>foldName\<close>, which takes each rune to the smallest one equal to it up to
  case. The field names here are ASCII, and besides ASCII letters only the long s and the Kelvin
  sign fold to ASCII.
\<close>

function fold_name :: "string \<Rightarrow> string" where
  "fold_name [] = []"
| "fold_name (c # s) =
     (if has_prefix (c # s) [CHR 0xC5, CHR 0xBF] then CHR ''S'' # fold_name (drop 1 s)
      else if has_prefix (c # s) [CHR 0xE2, CHR 0x84, CHR 0xAA] then CHR ''K'' # fold_name (drop 2 s)
      else ascii_upper c # fold_name s)"
  by pat_completeness auto
termination
  by (relation "measure length") auto

definition field_values :: "string \<Rightarrow> bytes \<Rightarrow> jval list" where
  "field_values f b =
     (case json_decode b of
        Some (VObj kvs) \<Rightarrow> map snd (filter (\<lambda>(k, v). fold_name k = fold_name f) kvs)
      | _ \<Rightarrow> [])"

definition body_str :: "string \<Rightarrow> bytes \<Rightarrow> string" where
  "body_str f b = fold (\<lambda>v old. case v of VStr s \<Rightarrow> s | _ \<Rightarrow> old) (field_values f b) []"

definition body_bool :: "string \<Rightarrow> bytes \<Rightarrow> bool" where
  "body_bool f b = fold (\<lambda>v old. case v of VBool x \<Rightarrow> x | _ \<Rightarrow> old) (field_values f b) False"

text \<open>
  A \<open>*bool\<close> field: null makes it nil, and a value of another type allocates the bool before its type
  is rejected.
\<close>

definition body_ptr :: "string \<Rightarrow> bytes \<Rightarrow> bool option" where
  "body_ptr f b =
     fold (\<lambda>v old. case v of
             VNull \<Rightarrow> None
           | VBool x \<Rightarrow> Some x
           | _ \<Rightarrow> Some (case old of None \<Rightarrow> False | Some x \<Rightarrow> x)) (field_values f b) None"

section \<open>The bound on the recursion is enough\<close>

lemma skip_ws_length: "length (skip_ws s) \<le> length s"
  by (simp add: skip_ws_def length_dropWhile_le)

lemma expect_length: "expect c s = Some t \<Longrightarrow> length t < length s"
  using skip_ws_length [of s] by (auto simp: expect_def split: list.splits if_splits)

lemma str_lit_length: "str_lit s = Some (l, t) \<Longrightarrow> length t < length s"
proof (induction s arbitrary: l t rule: str_lit.induct)
  case (2 c s)
  consider "c = dquote" | "c \<noteq> dquote" "c = backslash" | "c \<noteq> dquote" "c \<noteq> backslash" by blast
  then show ?case
  proof cases
    case 2
    with "2.prems" obtain e s' where s: "s = e # s'" by (cases s) auto
    show ?thesis
    proof (cases "e = CHR ''u''")
      case True
      with 2 s "2.prems" obtain l' where "hex4 s' \<noteq> None" "str_lit (drop 4 s') = Some (l', t)" by (auto split: if_splits)
      with "2.IH"(1) [OF 2 s True, of l' t] s show ?thesis by simp
    next
      case False
      with 2 s "2.prems" obtain l' where "str_lit s' = Some (l', t)" "e = dquote \<or> e = backslash \<or> e \<in> set ''/bfnrt''"
        by (auto split: if_splits)
      with "2.IH"(2) [OF 2 s False, of l' t] s show ?thesis by simp
    qed
  next
    case 3
    with "2.prems" obtain l' where "str_lit s = Some (l', t)" "\<not> of_char c < (0x20 :: nat)" by (auto split: if_splits)
    with "2.IH"(3) [OF 3, of l' t] show ?thesis by simp
  qed (use "2.prems" in simp)
qed simp

lemma digits1_length: "digits1 s = Some t \<Longrightarrow> length t < length s"
  by (auto simp: digits1_def le_imp_less_Suc length_dropWhile_le split: list.splits if_splits)

lemma scan_num_length: assumes "scan_num s = Some (v, t)" shows "length t < length s"
proof -
  have i: "scan_int s = Some u \<Longrightarrow> length u < length s" for u
  proof -
    assume *: "scan_int s = Some u"
    have "length (trim_prefix s ''-'') \<le> length s" by (simp add: trim_prefix_def)
    with * digits1_length [of "trim_prefix s ''-''" u] show ?thesis
      by (auto simp: scan_int_def Let_def split: list.splits if_splits)
  qed
  have f: "scan_frac s = Some u \<Longrightarrow> length u \<le> length s" for s u
    using digits1_length [of "tl s" u] by (auto simp: scan_frac_def split: list.splits if_splits)
  have e: "scan_exp s = Some u \<Longrightarrow> length u \<le> length s" for s u
    by (auto simp: scan_exp_def dest!: digits1_length split: list.splits if_splits)
  from assms i f e show ?thesis
    by (fastforce simp: scan_num_def bind_eq_Some_conv)
qed

lemma scan_word_length: "scan_word s = Some (v, t) \<Longrightarrow> length t < length s"
  by (cases s) (auto simp: scan_word_def has_prefix_def split: if_splits)

lemma scan_key_length: "scan_key s = Some (k, t) \<Longrightarrow> length t < length s"
  by (auto simp: scan_key_def bind_eq_Some_conv dest!: expect_length str_lit_length split: prod.splits)

lemma scan_length:
  "(\<forall>v t. scan_value n d s = Some (v, t) \<longrightarrow> length t < length s) \<and>
   (\<forall>vs t. scan_elems n d s = Some (vs, t) \<longrightarrow> length t < length s) \<and>
   (\<forall>kvs t. scan_members n d s = Some (kvs, t) \<longrightarrow> length t < length s)"
proof (induction n arbitrary: d s)
  case (Suc n)
  have "length t < length s" if "scan_value (Suc n) d s = Some (v, t)" for v t
  proof (cases "skip_ws s")
    case (Cons c u)
    with skip_ws_length [of s] have le: "length u < length s" by simp
    have "length t < length (c # u)"
      using that Cons scan_num_length [of "c # u" v t] scan_word_length [of "c # u" v t] Suc.IH [of "d + 1" u]
        expect_length [of _ u t] str_lit_length [of u _ t] by (auto split: if_splits option.splits intro: less_SucI)
    with le show ?thesis by simp
  qed (use that in simp)
  moreover have v: "scan_value n d s = Some (v, t) \<Longrightarrow> length t < length s"
    and e: "scan_elems n d s = Some (vs, t) \<Longrightarrow> length t < length s"
    and m: "scan_members n d s = Some (kvs, t) \<Longrightarrow> length t < length s" for d s v vs kvs t
    using Suc.IH by blast+
  moreover have "length t < length s" if "scan_elems (Suc n) d s = Some (vs, t)" for vs t
    using that by (auto dest!: expect_length v e split: option.splits)
  moreover have "length t < length s" if "scan_members (Suc n) d s = Some (kvs, t)" for kvs t
    using that by (auto dest!: expect_length scan_key_length v m split: option.splits)
  ultimately show ?case by blast
qed simp

lemma scan_enough:
  "(2 * length s < n \<longrightarrow> scan_value (Suc n) d s = scan_value n d s) \<and>
   (2 * length s + 1 < n \<longrightarrow> scan_elems (Suc n) d s = scan_elems n d s) \<and>
   (2 * length s < n \<longrightarrow> scan_members (Suc n) d s = scan_members n d s)"
proof (induction n arbitrary: d s)
  case (Suc n)
  have v: "scan_value (Suc (Suc n)) d s = scan_value (Suc n) d s" if l: "2 * length s < Suc n"
  proof (cases "skip_ws s")
    case (Cons c t)
    with skip_ws_length [of s] l have "2 * length t + 1 < n" by simp
    with Suc.IH [of t "d + 1"] have "scan_elems (Suc n) (d + 1) t = scan_elems n (d + 1) t"
      "scan_members (Suc n) (d + 1) t = scan_members n (d + 1) t" by simp_all
    then show ?thesis by (simp only: scan_value.simps(2) Cons list.case)
  qed simp
  have e: "scan_elems (Suc (Suc n)) d s = scan_elems (Suc n) d s" if l: "2 * length s + 1 < Suc n"
  proof -
    have val: "scan_value (Suc n) d s = scan_value n d s" using Suc.IH [of s d] l by simp
    have "scan_elems (Suc n) d u = scan_elems n d u" if "scan_value n d s = Some (x, t)" "expect c t = Some u" for x t c u
      using Suc.IH [of u d] l expect_length [OF that(2)] that(1) scan_length [of n d s] by fastforce
    then show ?thesis by (simp only: scan_elems.simps(2) val) (auto split: option.split)
  qed
  have m: "scan_members (Suc (Suc n)) d s = scan_members (Suc n) d s" if l: "2 * length s < Suc n"
  proof -
    have val: "scan_value (Suc n) d s' = scan_value n d s'" if "scan_key s = Some (k, s')" for k s'
      using Suc.IH [of s' d] l scan_key_length [OF that] by simp
    have mem: "scan_members (Suc n) d u = scan_members n d u"
      if "scan_key s = Some (k, s')" "scan_value n d s' = Some (x, t)" "expect c t = Some u" for k s' x t c u
      using Suc.IH [of u d] l scan_key_length [OF that(1)] expect_length [OF that(3)] that(2) scan_length [of n d s'] by fastforce
    show ?thesis
    proof (cases "scan_key s")
      case (Some p)
      then show ?thesis using val mem
        by (cases p) (simp only: scan_members.simps(2), auto split: option.split)
    qed simp
  qed
  from v e m show ?case by blast
qed simp

lemma scan_value_fuel:
  assumes "2 * length s < n" and "n \<le> m"
  shows "scan_value m d s = scan_value n d s"
  using assms(2,1) by (induction m rule: dec_induct) (use scan_enough in auto)

section \<open>Decoding what json.Marshal wrote\<close>

function utf8_ok :: "string \<Rightarrow> bool" where
  "utf8_ok [] \<longleftrightarrow> True"
| "utf8_ok (c # s) \<longleftrightarrow>
     (if of_char c < (0x80 :: nat) then utf8_ok s
      else (case utf8_len (c # s) of None \<Rightarrow> False | Some n \<Rightarrow> utf8_ok (drop (n - 1) s)))"
  by pat_completeness auto
termination
  by (relation "measure length") auto

text \<open>The bytes after the first, of which there are \<open>k\<close>.\<close>

definition utf8_rest :: "nat \<Rightarrow> nat \<Rightarrow> nat \<Rightarrow> string \<Rightarrow> bool" where
  "utf8_rest k lo hi s \<longleftrightarrow> k \<le> length s \<and> cont lo hi (s ! 0) \<and> list_all (cont 0x80 0xBF) (take (k - 1) (drop 1 s))"

lemma utf8_len_rest:
  "utf8_len (a # s) =
     (let b = (of_char a :: nat);
          tail = (\<lambda>n lo hi. if utf8_rest n lo hi s then Some (n + 1) else None)
      in if 0xC2 \<le> b \<and> b \<le> 0xDF then tail 1 0x80 0xBF
         else if b = 0xE0 then tail 2 0xA0 0xBF
         else if b = 0xED then tail 2 0x80 0x9F
         else if 0xE1 \<le> b \<and> b \<le> 0xEF then tail 2 0x80 0xBF
         else if b = 0xF0 then tail 3 0x90 0xBF
         else if 0xF1 \<le> b \<and> b \<le> 0xF3 then tail 3 0x80 0xBF
         else if b = 0xF4 then tail 3 0x80 0x8F
         else None)"
  unfolding utf8_rest_def by (rule utf8_len.simps(2))

lemma utf8_rest_take: "0 < k \<Longrightarrow> utf8_rest k lo hi s \<Longrightarrow> utf8_rest k lo hi (take k s @ t)"
  by (cases s; cases k) (auto simp: utf8_rest_def)

lemma utf8_len_take:
  assumes "utf8_len (c # s) = Some n"
  shows "utf8_len (take n (c # s) @ t) = Some n"
proof -
  have "0 < k \<Longrightarrow> utf8_rest k lo hi s \<Longrightarrow> n = k + 1 \<Longrightarrow> utf8_rest k lo hi (take (n - 1) s @ t)" for k lo hi
    using utf8_rest_take by simp
  moreover obtain m where "n = Suc m" using utf8_tail [OF assms] by (cases n) auto
  ultimately show ?thesis
    using assms unfolding utf8_len_rest by (auto simp: utf8_len_rest Let_def simp del: utf8_len.simps split: if_splits)
qed

lemma unquote_plain: "of_char c < (0x80 :: nat) \<Longrightarrow> c \<noteq> backslash \<Longrightarrow> unquote (c # s) = c # unquote s"
  by (simp add: unquote_head_def)

lemma unquote_escape2: "e \<noteq> CHR ''u'' \<Longrightarrow> unquote (backslash # e # s) = unescape e # unquote s"
  by (simp add: unquote_head_def)

lemma unquote_u:
  assumes "hex4 p = Some r" "length p = 4" "\<not> surrogate r"
  shows "unquote ([backslash, CHR ''u''] @ p @ s) = utf8_encode r @ unquote s"
proof -
  obtain a b c d where p: "p = [a, b, c, d]" using assms(2) by (auto simp: length_Suc_conv numeral_eq_Suc)
  with assms(1) have "hex4 (p @ s) = Some r" by simp
  with assms p show ?thesis by (simp add: unquote_head_def del: hex4.simps)
qed

lemma str_lit_u:
  assumes "hex4 p = Some r" "length p = 4" "str_lit s = Some (l, u)"
  shows "str_lit ([backslash, CHR ''u''] @ p @ s) = Some ([backslash, CHR ''u''] @ p @ l, u)"
proof -
  obtain a b c d where p: "p = [a, b, c, d]" using assms(2) by (auto simp: length_Suc_conv numeral_eq_Suc)
  with assms(1) have "hex4 (p @ s) = Some r" by simp
  with p assms(3) show ?thesis by (simp add: backslash_def dquote_def del: hex4.simps)
qed

lemma str_lit_escape2:
  "e \<noteq> CHR ''u'' \<Longrightarrow> e = dquote \<or> e = backslash \<or> e \<in> set ''/bfnrt'' \<Longrightarrow> str_lit s = Some (l, u) \<Longrightarrow>
     str_lit ([backslash, e] @ s) = Some ([backslash, e] @ l, u)"
  by (simp add: backslash_def dquote_def)

lemma hex4_ascii: "hex4 (''00'' @ hex_encode [c]) = Some (of_char c)"
proof -
  have "hex_val (CHR ''0'') = Some 0" by code_simp
  moreover have "int (of_char c div 16) * 16 + int (of_char c mod 16) = (of_char c :: int)"
    by (metis div_mult_mod_eq of_nat_add of_nat_mult of_nat_numeral of_nat_of_char)
  ultimately show ?thesis by (simp add: hex_encode_def hex_byte_def)
qed

lemma unicode_escapes:
  "hex4 ''fffd'' = Some 0xFFFD" "hex4 ''2028'' = Some 0x2028" "hex4 ''2029'' = Some 0x2029"
  "utf8_encode 0x2028 = [CHR 0xE2, CHR 0x80, CHR 0xA8]" "utf8_encode 0x2029 = [CHR 0xE2, CHR 0x80, CHR 0xA9]"
  "\<not> surrogate 0x2028" "\<not> surrogate 0x2029"
  by code_simp+

lemma escape_ascii_cases:
  obtains (short) e where "escape_ascii c = [backslash, e]" "e \<noteq> CHR ''u''" "e = dquote \<or> e = backslash \<or> e \<in> set ''/bfnrt''"
      "unescape e = c"
  | (long) "escape_ascii c = [backslash, CHR ''u''] @ ''00'' @ hex_encode [c]"
proof (cases "escape_ascii c = [backslash, CHR ''u''] @ ''00'' @ hex_encode [c]")
  case False
  have of: "(of_char c = n) = (c = char_of n)" if "n < 256" for n :: nat using that by auto
  have lits: "char_of (34 :: nat) = CHR 0x22" "char_of (92 :: nat) = CHR 0x5C" "char_of (8 :: nat) = CHR 0x08"
    "char_of (12 :: nat) = CHR 0x0C" "char_of (10 :: nat) = CHR 0x0A" "char_of (13 :: nat) = CHR 0x0D"
    "char_of (9 :: nat) = CHR 0x09" by code_simp+
  have "\<forall>x \<in> set [dquote, backslash, CHR 0x08, CHR 0x0C, CHR 0x0A, CHR 0x0D, CHR 0x09].
      \<exists>e \<in> set (dquote # backslash # ''bfnrt''). escape_ascii x = [backslash, e] \<and> unescape e = x" by code_simp
  moreover have "c \<in> set [dquote, backslash, CHR 0x08, CHR 0x0C, CHR 0x0A, CHR 0x0D, CHR 0x09]"
    using False by (auto simp: escape_ascii_def Let_def dquote_def backslash_def of lits split: if_splits)
  ultimately obtain e where e: "e \<in> set (dquote # backslash # ''bfnrt'')" "escape_ascii c = [backslash, e]" "unescape e = c"
    by blast
  show ?thesis by (rule short [OF e(2) _ _ e(3)]) (use e(1) in \<open>auto simp: dquote_def backslash_def\<close>)
qed (rule long)

lemma escape_ascii_lit: "str_lit t = Some (l, u) \<Longrightarrow> str_lit (escape_ascii c @ t) = Some (escape_ascii c @ l, u)"
proof (cases rule: escape_ascii_cases [of c])
  case (short e)
  then show "str_lit t = Some (l, u) \<Longrightarrow> ?thesis" using str_lit_escape2 by simp
next
  case long
  then show "str_lit t = Some (l, u) \<Longrightarrow> ?thesis"
    using str_lit_u [OF hex4_ascii [of c]] by (simp add: length_hex_encode)
qed

lemma unquote_escape_ascii:
  assumes "of_char c < (0x80 :: nat)"
  shows "unquote (escape_ascii c @ t) = c # unquote t"
proof (cases rule: escape_ascii_cases [of c])
  case (short e)
  then show ?thesis using unquote_escape2 [of e t] by (simp del: unquote.simps)
next
  case long
  have "(of_char c :: int) < 0x80" using assms by (metis of_nat_less_iff of_nat_numeral of_nat_of_char)
  then have "utf8_encode (of_char c) = [c]" "\<not> surrogate (of_char c)" by (simp_all add: utf8_encode_def surrogate_def)
  then show ?thesis
    using unquote_u [OF hex4_ascii [of c]] long by (simp add: length_hex_encode del: unquote.simps)
qed

lemma str_lit_plain:
  "list_all (\<lambda>c. plain c \<and> 0x20 \<le> (of_char c :: nat)) p \<Longrightarrow> str_lit t = Some (l, u) \<Longrightarrow> str_lit (p @ t) = Some (p @ l, u)"
  by (induction p) (auto simp: plain_def)

lemma escape_head_lit:
  assumes h: "escape_head c s = (n, out)" and t: "str_lit t = Some (l, u)"
  shows "str_lit (out @ t) = Some (out @ l, u)"
proof (cases "of_char c < (0x80 :: nat)")
  case True
  with h have "out = (if html_safe (of_char c) then [c] else escape_ascii c)" by (simp add: escape_head_def)
  then show ?thesis
    using escape_ascii_lit [OF t] str_lit_plain [OF _ t, of "[c]"] plain_safe by (simp add: html_safe_def del: str_lit.simps)
next
  case False
  have "out = [backslash, CHR ''u''] @ ''fffd'' \<or> out = [backslash, CHR ''u''] @ ''2028'' \<or> out = [backslash, CHR ''u''] @ ''2029''
      \<or> (\<exists>k. utf8_len (c # s) = Some k \<and> out = take k (c # s))"
    using h False by (auto simp: escape_head_def Let_def simp del: utf8_len.simps split: option.splits if_splits)
  moreover have "list_all (\<lambda>c. plain c \<and> 0x20 \<le> (of_char c :: nat)) (take k (c # s))" if k: "utf8_len (c # s) = Some k" for k
  proof -
    have "list_all (\<lambda>x. 0x80 \<le> (of_char x :: nat)) (take k (c # s))" using utf8_tail [OF k] False by (cases k) auto
    then show ?thesis using plain_high by (fastforce simp: list_all_iff)
  qed
  ultimately show ?thesis
    using str_lit_plain [OF _ t] str_lit_u [OF unicode_escapes(1) _ t] str_lit_u [OF unicode_escapes(2) _ t]
      str_lit_u [OF unicode_escapes(3) _ t] by (auto simp del: str_lit.simps)
qed

lemma str_lit_escape: "str_lit (escape s @ dquote # t) = Some (escape s, t)"
proof (induction s rule: escape.induct)
  case (2 c s)
  obtain n out where h: "escape_head c s = (n, out)" by fastforce
  with "2.IH" [OF h [symmetric]] escape_head_lit [OF h] show ?case by simp
qed simp

lemma unquote_escape: "utf8_ok s \<Longrightarrow> unquote (escape s) = s"
proof (induction s rule: escape.induct)
  case (2 c s)
  obtain n out where h: "escape_head c s = (n, out)" by fastforce
  show ?case
  proof (cases "of_char c < (0x80 :: nat)")
    case True
    with h have n: "n = 1" and out: "out = (if html_safe (of_char c) then [c] else escape_ascii c)"
      by (auto simp: escape_head_def)
    have "unquote (escape s) = s" using "2.IH" [OF h [symmetric]] "2.prems" True n by simp
    with n out h True show ?thesis
      using unquote_escape_ascii [OF True, of "escape s"] unquote_plain [OF True, of "escape s"] plain_safe [of c]
      by (auto simp: plain_def simp del: unquote.simps(2))
  next
    case False
    with "2.prems" obtain k where k: "utf8_len (c # s) = Some k" "utf8_ok (drop (k - 1) s)"
      by (auto simp del: utf8_len.simps split: option.splits)
    with False h have n: "n = k" by (auto simp: escape_head_def Let_def simp del: utf8_len.simps split: if_splits)
    let ?r = "take k (c # s)" and ?t = "escape (drop (k - 1) s)"
    obtain m where m: "k = Suc m" using utf8_tail [OF k(1)] by (cases k) auto
    have IH: "unquote ?t = drop (k - 1) s" using "2.IH" [OF h [symmetric]] k n by simp
    have "c \<noteq> backslash" using False by (auto simp: backslash_def)
    then have "unquote (?r @ ?t) = ?r @ unquote ?t"
      using utf8_len_take [OF k(1), of ?t] False m k(1) utf8_tail [OF k(1)]
      by (simp add: unquote_head_def del: utf8_len.simps)
    moreover have "unquote ([backslash, CHR ''u''] @ ''2028'' @ ?t) = [CHR 0xE2, CHR 0x80, CHR 0xA8] @ unquote ?t"
      "unquote ([backslash, CHR ''u''] @ ''2029'' @ ?t) = [CHR 0xE2, CHR 0x80, CHR 0xA9] @ unquote ?t"
      using unquote_u [OF unicode_escapes(2), of ?t] unquote_u [OF unicode_escapes(3), of ?t] unicode_escapes by simp_all
    ultimately have "unquote (out @ ?t) = ?r @ unquote ?t"
      using h False k(1) by (auto simp: escape_head_def Let_def simp del: unquote.simps utf8_len.simps split: if_splits)
    with IH h n m show ?thesis by simp
  qed
qed simp

text \<open>The values that survive the trip: strings are UTF-8, and the nesting stays within the decoder's limit.\<close>

fun json_ok :: "int \<Rightarrow> json \<Rightarrow> bool" where
  "json_ok d (JStr s) \<longleftrightarrow> utf8_ok s"
| "json_ok d (JArr js) \<longleftrightarrow> d < 10000 \<and> list_all (json_ok (d + 1)) js"
| "json_ok d (JObj kvs) \<longleftrightarrow> d < 10000 \<and> list_all (\<lambda>(k, v). utf8_ok k \<and> json_ok (d + 1) v) kvs"
| "json_ok d _ \<longleftrightarrow> True"

fun jval_of :: "json \<Rightarrow> jval" where
  "jval_of JNull = VNull"
| "jval_of (JBool b) = VBool b"
| "jval_of (JInt n) = VNum (show_int n)"
| "jval_of (JStr s) = VStr s"
| "jval_of (JArr js) = VArr (map jval_of js)"
| "jval_of (JObj kvs) = VObj (map (\<lambda>(k, v). (k, jval_of v)) kvs)"

text \<open>What may follow a value inside an array or object, or at the end.\<close>

definition ends :: "string \<Rightarrow> bool" where
  "ends t \<longleftrightarrow> t = [] \<or> hd t \<in> {CHR '','', CHR ''}'', CHR '']''}"

lemma skip_ws_Cons [simp]: "\<not> json_space c \<Longrightarrow> skip_ws (c # s) = c # s"
  by (simp add: skip_ws_def)

lemma not_space [simp]:
  "\<not> json_space dquote" "\<not> json_space (CHR '','')" "\<not> json_space (CHR ''}'')" "\<not> json_space (CHR '']'')"
  "\<not> json_space (CHR ''{'')" "\<not> json_space (CHR ''['')" "\<not> json_space (CHR '':'')" "\<not> json_space (CHR ''-'')"
  "\<not> json_space (CHR ''t'')" "\<not> json_space (CHR ''f'')" "\<not> json_space (CHR ''n'')"
  by (simp_all add: json_space_def dquote_def)

lemma is_digit_char [simp]: "d < 10 \<Longrightarrow> is_digit (digit_char d)"
  by (simp add: is_digit_def)

lemma digit_not_space: "is_digit c \<Longrightarrow> \<not> json_space c"
  by (auto simp: is_digit_def json_space_def digit_val_def Let_def)

lemma not_digit:
  "\<not> is_digit (CHR '','')" "\<not> is_digit (CHR ''}'')" "\<not> is_digit (CHR '']'')" "\<not> is_digit dquote" "\<not> is_digit (CHR ''{'')"
  "\<not> is_digit (CHR ''['')" "\<not> is_digit (CHR ''t'')" "\<not> is_digit (CHR ''f'')" "\<not> is_digit (CHR ''n'')" "\<not> is_digit (CHR ''-'')"
  by code_simp+

lemma show_nat_all_digits: "list_all is_digit (show_nat n)"
  using show_nat_digits by (fastforce simp: list_all_iff)

lemma show_nat_hd0: "hd (show_nat n) = CHR ''0'' \<longleftrightarrow> n = 0"
proof (induction n rule: show_nat.induct)
  case (1 n)
  have "digit_char n = CHR ''0'' \<longleftrightarrow> n = 0" if "n < 10"
  proof -
    have "digit_val (CHR ''0'') = Some 0" "digit_char 0 = CHR ''0''" by code_simp+
    then show ?thesis using digit_val_char [OF that] by (metis option.inject)
  qed
  with 1 show ?case by (subst (1) show_nat.simps) (auto simp: hd_append)
qed

lemma scan_int_show:
  assumes "ends t"
  shows "scan_int (show_int n @ t) = Some t"
proof -
  obtain c u where s: "show_nat (nat \<bar>n\<bar>) = c # u" by (cases "show_nat (nat \<bar>n\<bar>)") simp_all
  have dig: "is_digit c" "list_all is_digit u" using show_nat_all_digits [of "nat \<bar>n\<bar>"] s by simp_all
  then have neg: "c \<noteq> CHR ''-''" using not_digit by auto
  have "dropWhile is_digit (u @ t) = t"
    using dig(2) assms not_digit by (cases t) (auto simp: ends_def list_all_iff)
  then have d1: "digits1 (c # u @ t) = Some t" using dig(1) by (simp add: digits1_def)
  have "u = []" if "c = CHR ''0''"
    using show_nat_hd0 [of "nat \<bar>n\<bar>"] s that by (auto simp: show_nat.simps [of 0])
  with d1 have "scan_int (c # u @ t) = Some t" "scan_int (CHR ''-'' # c # u @ t) = Some t"
    using neg by (auto simp: scan_int_def trim_prefix_def has_prefix_def Let_def)
  then show ?thesis using s by (auto simp: show_int_def)
qed

lemma scan_num_show: "ends t \<Longrightarrow> scan_num (show_int n @ t) = Some (VNum (show_int n), t)"
  using scan_int_show [of t n] by (cases t) (auto simp: scan_num_def scan_frac_def scan_exp_def ends_def)

lemma show_int_hd: "\<exists>c u. show_int n = c # u \<and> (c = CHR ''-'' \<or> is_digit c)"
  using hd_show_nat [of "nat n"] by (cases "show_nat (nat n)") (auto simp: show_int_def)

lemma json_bytes_hd: "\<exists>c u. json_bytes j = c # u \<and> \<not> json_space c \<and> c \<noteq> CHR '']''"
proof (cases j)
  case (JInt n)
  obtain c u where s: "show_int n = c # u" "c = CHR ''-'' \<or> is_digit c" using show_int_hd by blast
  moreover have "\<not> is_digit (CHR '']'')" by (rule not_digit)
  ultimately have "\<not> json_space c" "c \<noteq> CHR '']''" using digit_not_space by auto
  with s JInt show ?thesis by simp
qed (auto simp: json_string_def, simp add: dquote_def)

definition decodes :: "json \<Rightarrow> bool" where
  "decodes j \<longleftrightarrow> (\<forall>n d t. json_ok d j \<longrightarrow> ends t \<longrightarrow> 2 * length (json_bytes j @ t) < n \<longrightarrow>
     scan_value n d (json_bytes j @ t) = Some (jval_of j, t))"

lemma ends_close: "ends (CHR '']'' # t)" "ends (CHR ''}'' # t)" "ends (CHR '','' # t)" "ends []"
  by (simp_all add: ends_def)

lemma expect_now [simp]: "\<not> json_space c \<Longrightarrow> expect c (c # t) = Some t"
  by (simp add: expect_def)

lemma expect_other [simp]: "\<not> json_space c' \<Longrightarrow> c' \<noteq> c \<Longrightarrow> expect c (c' # t) = None"
  by (simp add: expect_def)

lemma elems_decode:
  assumes "js \<noteq> []" "\<And>j. j \<in> set js \<Longrightarrow> decodes j" "list_all (json_ok d) js"
    "2 * length (join (map json_bytes js) '','' @ CHR '']'' # t) + 1 < n"
  shows "scan_elems n d (join (map json_bytes js) '','' @ CHR '']'' # t) = Some (map jval_of js, t)"
  using assms
proof (induction js arbitrary: n)
  case (Cons j js)
  then obtain m where n: "n = Suc m" by (cases n) auto
  have dec: "scan_value m d (json_bytes j @ u) = Some (jval_of j, u)" if "ends u" "2 * length (json_bytes j @ u) < m" for u
    using Cons.prems(2,3) that by (auto simp: decodes_def)
  show ?case
  proof (cases js)
    case Nil
    with dec [of "CHR '']'' # t"] Cons.prems(4) n show ?thesis by (simp add: ends_close)
  next
    case (Cons j' js')
    with Cons.IH [of m] Cons.prems n dec [of "CHR '','' # join (map json_bytes js) '','' @ CHR '']'' # t"] show ?thesis
      by (simp add: ends_close)
  qed
qed simp

lemma scan_key_string: "utf8_ok k \<Longrightarrow> scan_key (json_string k @ CHR '':'' # t) = Some (k, t)"
  by (simp add: scan_key_def json_string_def str_lit_escape unquote_escape)

lemma members_decode:
  assumes "kvs \<noteq> []" "\<And>k j. (k, j) \<in> set kvs \<Longrightarrow> decodes j" "list_all (\<lambda>(k, v). utf8_ok k \<and> json_ok d v) kvs"
    "2 * length (join (map (\<lambda>(k, v). json_string k @ '':'' @ json_bytes v) kvs) '','' @ CHR ''}'' # t) < n"
  shows "scan_members n d (join (map (\<lambda>(k, v). json_string k @ '':'' @ json_bytes v) kvs) '','' @ CHR ''}'' # t) =
    Some (map (\<lambda>(k, v). (k, jval_of v)) kvs, t)"
  using assms
proof (induction kvs arbitrary: n)
  case (Cons kv kvs)
  obtain k j where kv: "kv = (k, j)" by (cases kv)
  from Cons.prems obtain m where n: "n = Suc m" by (cases n) auto
  have key: "scan_key (json_string k @ CHR '':'' # u) = Some (k, u)" for u
    using Cons.prems(3) kv by (simp add: scan_key_string)
  have dec: "scan_value m d (json_bytes j @ u) = Some (jval_of j, u)" if "ends u" "2 * length (json_bytes j @ u) < m" for u
    using Cons.prems(2) [of k j] Cons.prems(3) that kv by (simp add: decodes_def)
  let ?rest = "join (map (\<lambda>(k, v). json_string k @ '':'' @ json_bytes v) kvs) '','' @ CHR ''}'' # t"
  show ?case
  proof (cases kvs)
    case Nil
    with key [of "json_bytes j @ CHR ''}'' # t"] dec [of "CHR ''}'' # t"] Cons.prems(4) n kv show ?thesis
      by (simp add: ends_close)
  next
    case (Cons kv' kvs')
    then have "scan_members m d ?rest = Some (map (\<lambda>(k, v). (k, jval_of v)) kvs, t)"
      by (intro Cons.IH) (use Cons.prems n kv in auto)
    with Cons key [of "json_bytes j @ CHR '','' # ?rest"] dec [of "CHR '','' # ?rest"] Cons.prems(4) n kv show ?thesis
      by (simp add: ends_close)
  qed
qed simp

lemma array_decode:
  assumes "\<And>j. j \<in> set js \<Longrightarrow> decodes j" "json_ok d (JArr js)" "2 * length (json_bytes (JArr js) @ t) < n"
  shows "scan_value n d (json_bytes (JArr js) @ t) = Some (jval_of (JArr js), t)"
proof -
  obtain m where m: "n = Suc m" using assms(3) by (cases n) auto
  show ?thesis
  proof (cases js)
    case Nil
    with assms(2) m show ?thesis by (simp add: dquote_def)
  next
    case (Cons j js')
    obtain c u where "json_bytes j = c # u" "\<not> json_space c" "c \<noteq> CHR '']''" using json_bytes_hd by blast
    then have "expect (CHR '']'') (join (map json_bytes js) '','' @ CHR '']'' # t) = None"
      using Cons by (cases js') simp_all
    moreover have "scan_elems m (d + 1) (join (map json_bytes js) '','' @ CHR '']'' # t) = Some (map jval_of js, t)"
      using elems_decode [of js "d + 1" t m] assms Cons m by simp
    ultimately show ?thesis using assms(2) m by (simp add: dquote_def)
  qed
qed

lemma object_decode:
  assumes "\<And>k j. (k, j) \<in> set kvs \<Longrightarrow> decodes j" "json_ok d (JObj kvs)" "2 * length (json_bytes (JObj kvs) @ t) < n"
  shows "scan_value n d (json_bytes (JObj kvs) @ t) = Some (jval_of (JObj kvs), t)"
proof -
  let ?ms = "join (map (\<lambda>(k, v). json_string k @ '':'' @ json_bytes v) kvs) '','' @ CHR ''}'' # t"
  obtain m where m: "n = Suc m" using assms(3) by (cases n) auto
  show ?thesis
  proof (cases kvs)
    case Nil
    with assms(2) m show ?thesis by (simp add: dquote_def)
  next
    case (Cons kv kvs')
    moreover have "dquote \<noteq> CHR ''}''" by (simp add: dquote_def)
    ultimately have "expect (CHR ''}'') ?ms = None" by (cases kvs'; cases kv) (simp_all add: json_string_def)
    moreover have "scan_members m (d + 1) ?ms = Some (map (\<lambda>(k, v). (k, jval_of v)) kvs, t)"
      by (rule members_decode) (use assms Cons m in auto)
    ultimately show ?thesis using assms(2) m by (simp add: dquote_def)
  qed
qed

lemma decodes_all: "decodes j"
proof (induction j rule: json_bytes.induct)
  case (5 js)
  then show ?case using array_decode unfolding decodes_def [of "JArr js"] by blast
next
  case (6 kvs)
  then show ?case using object_decode unfolding decodes_def [of "JObj kvs"] by blast
next
  case (3 k)
  obtain c u where c: "show_int k = c # u" "c = CHR ''-'' \<or> is_digit c" using show_int_hd by blast
  then have "\<not> json_space c" "c \<notin> {dquote, CHR ''{'', CHR ''[''}" using digit_not_space not_digit by (auto simp: dquote_def)
  then have "scan_value (Suc m) d (show_int k @ t) = scan_num (show_int k @ t)" for m d t using c by simp
  then show ?case unfolding decodes_def using scan_num_show by (metis json_bytes.simps(3) jval_of.simps(3) less_nat_zero_code not0_implies_Suc)
next
  case (4 s)
  have "scan_value (Suc m) d (json_string s @ t) = Some (VStr s, t)" if "utf8_ok s" for m d t
    using that by (simp add: json_string_def str_lit_escape unquote_escape)
  then show ?case unfolding decodes_def by (metis json_bytes.simps(4) jval_of.simps(4) json_ok.simps(1) less_nat_zero_code not0_implies_Suc)
next
  case (2 b)
  have "scan_value (Suc m) d (json_bytes (JBool b) @ t) = Some (VBool b, t)" for m d t
    using not_digit by (simp add: dquote_def scan_word_def has_prefix_def)
  then show ?case unfolding decodes_def by (metis jval_of.simps(2) less_nat_zero_code not0_implies_Suc)
next
  case 1
  have "scan_value (Suc m) d (json_bytes JNull @ t) = Some (VNull, t)" for m d t
    using not_digit by (simp add: dquote_def scan_word_def has_prefix_def)
  then show ?case unfolding decodes_def by (metis jval_of.simps(1) less_nat_zero_code not0_implies_Suc)
qed

lemma json_roundtrip:
  assumes "json_ok 0 j"
  shows "json_decode (json_bytes j) = Some (jval_of j)"
proof -
  have "scan_value (2 * length (json_bytes j) + 1) 0 (json_bytes j @ []) = Some (jval_of j, [])"
    using decodes_all [of j] assms ends_close(4) unfolding decodes_def by (metis Suc_eq_plus1 append_Nil2 lessI)
  then show ?thesis by (simp add: json_decode_def)
qed

text \<open>The encoder of the program's responses appends a newline; what follows an object is not read.\<close>

lemma json_decode_obj:
  assumes "json_ok 0 (JObj kvs)"
  shows "json_decode (json_bytes (JObj kvs) @ t) = Some (jval_of (JObj kvs))"
  unfolding json_decode_def using object_decode [OF decodes_all assms, of t "2 * length (json_bytes (JObj kvs) @ t) + 1"] by simp

lemma field_values_obj:
  assumes "json_ok 0 (JObj kvs)"
  shows "field_values f (json_bytes (JObj kvs) @ t) = map (jval_of \<circ> snd) (filter (\<lambda>(k, v). fold_name k = fold_name f) kvs)"
  using json_decode_obj [OF assms] by (simp add: field_values_def filter_map comp_def case_prod_unfold)

lemma field_values_single:
  assumes ok: "json_ok 0 (JObj kvs)" and dist: "distinct (map (fold_name \<circ> fst) kvs)" and f: "map_of kvs f = Some j"
  shows "field_values f (json_bytes (JObj kvs) @ t) = [jval_of j]"
proof -
  have "filter (\<lambda>(k, v). fold_name k = fold_name f) kvs = [(f, j)]"
    using dist f
  proof (induction kvs)
    case (Cons kv kvs)
    show ?case
    proof (cases "fst kv = f")
      case True
      with Cons.prems have "\<forall>x \<in> set kvs. fold_name (fst x) \<noteq> fold_name f" by (auto simp: image_iff)
      then have "filter (\<lambda>(k, v). fold_name k = fold_name f) kvs = []" by (auto simp: filter_empty_conv)
      with True Cons.prems show ?thesis by (cases kv) auto
    next
      case False
      with Cons.prems have "map_of kvs f = Some j" by (cases kv) simp
      with Cons.prems have "fold_name (fst kv) \<noteq> fold_name f" by (force dest: map_of_SomeD)
      with False Cons show ?thesis by (cases kv) auto
    qed
  qed simp
  with field_values_obj [OF ok] show ?thesis by simp
qed

text \<open>
  Round trip of request bodies. A body that \<open>json.Marshal\<close> wrote for an object, with UTF-8 strings,
  names that differ up to case and a nesting within the decoder's limit, fills the field of that
  name with the very string or bool that was encoded, through every escape and whatever follows
  the object.
\<close>

lemma body_roundtrip:
  assumes "json_ok 0 (JObj kvs)" and "distinct (map (fold_name \<circ> fst) kvs)"
    and "map_of kvs f = Some (JStr s)" and "map_of kvs f' = Some (JBool b)"
  shows "body_str f (json_bytes (JObj kvs) @ t) = s \<and> body_bool f' (json_bytes (JObj kvs) @ t) = b \<and>
    body_ptr f' (json_bytes (JObj kvs) @ t) = Some b"
  using field_values_single [OF assms(1-3)] field_values_single [OF assms(1,2,4)]
  by (simp_all add: body_str_def body_bool_def body_ptr_def)

text \<open>A body that is not a JSON object leaves every field at its zero value.\<close>

lemma body_undecoded:
  assumes "\<forall>kvs. json_decode b \<noteq> Some (VObj kvs)"
  shows "body_str f b = []" and "body_bool f b = False" and "body_ptr f b = None"
proof -
  have "field_values f b = []" using assms by (auto simp: field_values_def split: option.splits jval.splits)
  then show "body_str f b = []" "body_bool f b = False" "body_ptr f b = None"
    by (simp_all add: body_str_def body_bool_def body_ptr_def)
qed

end
