(* ===== verification/Proxy.thy ===== *)
theory Proxy
  imports Config Storage Redis_Limiter Cache Circuit_Breaker Webhook_Engine Cors Go_Decode
begin

text \<open>
  \<^verbatim>\<open>internal/proxy/proxy.go\<close>: the request pipeline of the gateway and its admin API.

  \<^item> \<open>gateway\<close> holds the components the proxy owns: configuration, repository (with the states of
    PostgreSQL and Redis behind it), limiter, cache, breaker, webhook engine, metrics and the jitter
    override. \<open>forwarded\<close> records the requests handed to the reverse proxy.
  \<^item> \<open>req_env\<close> holds what a request meets outside the program: the clock at each place that
    reads it, random numbers, the answer of the upstream and the delivery of the limiter's script.
    JSON request bodies are decoded as in \<open>Go_Decode\<close>. The texts of the demo pages, the metrics page and
    \<open>url.Parse\<close> are in it.
  \<^item> The pipeline is cut where the source numbers its steps. The result of a handler is whether it
    panicked (\<open>rand.Intn\<close> of a non-positive bound, an error value that is nil, an invalid status, or an
    answer of the upstream that breaks off while the reverse proxy copies it), the response
    and the gateway.
  A request is one run of the pipeline; interleavings of the breaker's and the limiters' steps
  are treated in their own theories, those of whole requests in \<open>Gateway_Steps\<close>.
\<close>

section \<open>Definitions\<close>

subsection \<open>State and surroundings\<close>

record ('l, 'd, 'k, 'r, 's) gateway =
  cfgManager :: "'l ConfigManager"
  gw_repo :: "('d, 'k) repo_sys"
  gw_redis :: "'k RedisClient option"
  gw_limiter :: "'r RedisLimiter \<times> 'r"
  smartCache :: SmartCache
  circuitBreaker :: CircuitBreaker
  webhookEngine :: "'s Engine"
  dlq_state :: 's
  gw_metrics :: Metrics
  jitterOverride :: int
  gw_cors :: "CORSMiddleware option"
  startedAt :: gotime
  forwarded :: "string list"

text \<open>The places where the pipeline reads the clock.\<close>

datatype clock_site =
    AtHealth | AtKeyFreeze | AtReplay | AtVerify | AtLimit | AtFallback
  | AtOverage | AtBillingMonth | AtBurstId | AtBurstEvent | AtBreaker | AtStart | AtEnd
  | AtRecord | AtCacheSet | AtAdmin | AtAuditId | AtAudit | AtAdminId

text \<open>An answer is an error, whole, or breaks off in its body.\<close>

datatype upstream_result = UpError string | UpResponse int http_header bytes | UpAborted int http_header bytes

record req_env =
  lib :: golib
  ufold_rest :: "string \<Rightarrow> string \<Rightarrow> bool"
  clk :: "clock_site \<Rightarrow> gotime"
  month_of :: "gotime \<Rightarrow> string"
  rand_id :: bytes
  script_delivery :: delivery
  server_clock :: int  \<comment> \<open>of the Redis server, in milliseconds\<close>
  roll :: i64  \<comment> \<open>\<open>rand.Intn(100)\<close>\<close>
  pick :: "i64 \<Rightarrow> i64"  \<comment> \<open>\<open>rand.Intn(n)\<close> for a positive \<open>n\<close>\<close>
  upstream :: "string \<Rightarrow> http_request \<Rightarrow> upstream_result"
  parse_host :: "string \<Rightarrow> string option"  \<comment> \<open>the host \<open>url.Parse\<close> finds; \<open>None\<close>: it fails\<close>
  metrics_page :: "http_request \<Rightarrow> resp_writer \<Rightarrow> resp_writer"  \<comment> \<open>\<open>promhttp\<close>'s handler\<close>
  playgroundHTML :: bytes  \<comment> \<open>the texts of \<^verbatim>\<open>internal/demo\<close>\<close>
  openAPISpecJSON :: bytes
  swaggerUIHTML :: "string \<Rightarrow> bytes"
  map_order :: "string list"  \<comment> \<open>visit of the key map\<close>
  meta_order :: "string list"  \<comment> \<open>visit of a metadata map\<close>
  dlq_order :: "string list"  \<comment> \<open>visit of the dead-letter map\<close>
  sendhook :: "http_req \<Rightarrow> http_outcome"
  oob :: "float64 \<Rightarrow> i64"
  time_text :: "gotime \<Rightarrow> string"

text \<open>Whether the handler panicked, the response, the gateway.\<close>

type_synonym ('l, 'd, 'k, 'r, 's) handled = "bool \<times> resp_writer \<times> ('l, 'd, 'k, 'r, 's) gateway"

subsection \<open>Responses\<close>

definition encode_json :: "json \<Rightarrow> bytes" where
  "encode_json j = json_bytes j @ [CHR 0x0A]"

definition respondJSON :: "int \<Rightarrow> json \<Rightarrow> resp_writer \<Rightarrow> resp_writer" where
  "respondJSON code payload w =
     w_Write (encode_json payload) (WriteHeader code (w_set ''Content-Type'' ''application/json'' w))"

definition error_json :: "string \<Rightarrow> json" where
  "error_json msg = JObj [(''error'', JStr msg)]"

fun add_values :: "string \<Rightarrow> string list \<Rightarrow> resp_writer \<Rightarrow> resp_writer" where
  "add_values k [] w = w"
| "add_values k (v # vs) w = add_values k vs (w_add k v w)"

fun add_headers :: "(string \<times> string list) list \<Rightarrow> resp_writer \<Rightarrow> resp_writer" where
  "add_headers [] w = w"
| "add_headers ((k, vv) # kvs) w = add_headers kvs (add_values k vv w)"

text \<open>A status and a body that are not constants; the flag is the panic of \<open>WriteHeader\<close>.\<close>

definition write_answer :: "int \<Rightarrow> bytes \<Rightarrow> resp_writer \<Rightarrow> bool \<times> resp_writer" where
  "write_answer code b w = (if header_panics code w then (True, w) else (False, w_Write b (WriteHeader code w)))"

definition serveCachedResponse :: "CacheEntry \<Rightarrow> string \<Rightarrow> resp_writer \<Rightarrow> bool \<times> resp_writer" where
  "serveCachedResponse entry statusHeader w =
     write_answer (StatusCode entry) (Body entry) (w_set ''X-Cache-Status'' statusHeader (add_headers (Header entry) w))"

record ResponseRecorder =
  rec_StatusCode :: int
  HeaderMap :: http_header
  rec_Body :: bytes
  ProxyError :: "string option"

definition NewResponseRecorder :: ResponseRecorder where
  "NewResponseRecorder = \<lparr>rec_StatusCode = 200, HeaderMap = [], rec_Body = [], ProxyError = None\<rparr>"

definition rec_Write :: "bytes \<Rightarrow> ResponseRecorder \<Rightarrow> ResponseRecorder" where
  "rec_Write b r = r\<lparr>rec_Body := rec_Body r @ b\<rparr>"

definition rec_WriteHeader :: "int \<Rightarrow> ResponseRecorder \<Rightarrow> ResponseRecorder" where
  "rec_WriteHeader code r = r\<lparr>rec_StatusCode := code\<rparr>"

definition handleProxyError :: "string \<Rightarrow> ResponseRecorder \<Rightarrow> ResponseRecorder" where
  "handleProxyError err r = r\<lparr>ProxyError := Some err\<rparr>"

definition rec_Flush :: "ResponseRecorder \<Rightarrow> resp_writer \<Rightarrow> bool \<times> resp_writer" where
  "rec_Flush r w = write_answer (rec_StatusCode r) (rec_Body r) (add_headers (HeaderMap r) w)"

subsection \<open>Jitter\<close>

definition ToggleJitter :: "('l, 'd, 'k, 'r, 's) gateway \<Rightarrow> bool \<times> ('l, 'd, 'k, 'r, 's) gateway" where
  "ToggleJitter g =
     (let curr = jitterOverride g;
          newState =
            (if curr = 1 then 0 else if curr = 0 then 1
             else if jit_Enabled (Jitter (Upstream (cm_Get (cfgManager g)))) then 0 else 1)
      in (newState = 1, g\<lparr>jitterOverride := newState\<rparr>))"

definition IsJitterActive :: "('l, 'd, 'k, 'r, 's) gateway \<Rightarrow> bool" where
  "IsJitterActive g =
     (if jitterOverride g = 1 then True else if jitterOverride g = 0 then False
      else jit_Enabled (Jitter (Upstream (cm_Get (cfgManager g)))))"

text \<open>\<open>rand.Intn\<close>: panics (\<open>None\<close>) for a bound that is not positive.\<close>

definition Intn :: "(i64 \<Rightarrow> i64) \<Rightarrow> i64 \<Rightarrow> i64 option" where
  "Intn rnd n = (if n \<le> 0 then None else Some (rnd n mod n))"

text \<open>The delay of step 7; \<open>None\<close> is the panic, \<open>Some 0\<close> no delay.\<close>

definition jitter_delay :: "req_env \<Rightarrow> JitterConfig \<Rightarrow> i64 option" where
  "jitter_delay e j =
     (let pct = (if Percentage j \<le> 0 then 25 else Percentage j)
      in if roll e < pct then
           (let minDelay = (if MinDelayMs j \<le> 0 then 200 else MinDelayMs j);
                maxDelay = (if MaxDelayMs j < minDelay then 500 else MaxDelayMs j)
            in map_option (\<lambda>x. wrap64 (wrap64 (minDelay + x) * millisecond))
                 (Intn (pick e) (wrap64 (wrap64 (maxDelay - minDelay) + 1))))
         else Some 0)"

subsection \<open>Steps 8 and 9: breaker, cache and upstream\<close>

definition cache_key :: "http_request \<Rightarrow> string" where
  "cache_key r = r_Method r @ '':'' @ r_RequestURI r"

text \<open>The director: the configured host if the URL parses to one, else the host of start-up.\<close>

definition director_host :: "req_env \<Rightarrow> string \<Rightarrow> ('l, 'd, 'k, 'r, 's) gateway \<Rightarrow> string" where
  "director_host e startHost g =
     (case parse_host e (TargetURL (Upstream (cm_Get (cfgManager g)))) of
        Some h \<Rightarrow> if h \<noteq> [] then h else startHost
      | None \<Rightarrow> startHost)"

text \<open>
  What the recorder holds after the reverse proxy ran. The reverse proxy of a server panics with \<open>http.ErrAbortHandler\<close> when
  copying the body fails: \<open>None\<close>.
\<close>

definition record_upstream :: "upstream_result \<Rightarrow> ResponseRecorder option" where
  "record_upstream u =
     (case u of
        UpError err \<Rightarrow> Some (handleProxyError err NewResponseRecorder)
      | UpResponse code h b \<Rightarrow> Some (rec_Write b (rec_WriteHeader code (NewResponseRecorder\<lparr>HeaderMap := h\<rparr>)))
      | UpAborted _ _ _ \<Rightarrow> None)"

definition serve_stale ::
  "CacheEntry \<Rightarrow> resp_writer \<Rightarrow> ('l, 'd, 'k, 'r, 's) gateway \<Rightarrow> ('l, 'd, 'k, 'r, 's) handled" where
  "serve_stale entry w g =
     (case serveCachedResponse entry ''STALE-FALLBACK'' w of
        (True, w) \<Rightarrow> (True, w, g)
      | (False, w) \<Rightarrow> (False, w, g\<lparr>gw_metrics := RecordCacheFallback (gw_metrics g)\<rparr>))"

definition flush_to ::
  "ResponseRecorder \<Rightarrow> resp_writer \<Rightarrow> ('l, 'd, 'k, 'r, 's) gateway \<Rightarrow> ('l, 'd, 'k, 'r, 's) handled" where
  "flush_to rcd w g = (case rec_Flush rcd w of (p, w) \<Rightarrow> (p, w, g))"

definition cache_ttl :: "Config \<Rightarrow> i64" where
  "cache_ttl c =
     (let ttl = wrap64 (TTLSeconds (CacheCfg c) * second) in if ttl \<le> 0 then 300 * second else ttl)"

text \<open>After the upstream answered: record the outcome, then fall back, cache or pass it on.\<close>

definition finish_upstream ::
  "req_env \<Rightarrow> http_request \<Rightarrow> ResponseRecorder \<Rightarrow> resp_writer \<Rightarrow> ('l, 'd, 'k, 'r, 's) gateway
     \<Rightarrow> ('l, 'd, 'k, 'r, 's) handled" where
  "finish_upstream e r rcd w g =
     (let latency = time_sub (clk e AtEnd) (clk e AtStart);
          g = g\<lparr>gw_metrics := RecordLatency (duration_seconds latency) (gw_metrics g)\<rparr>;
          failed = g\<lparr>circuitBreaker := RecordFailure latency (clk e AtRecord) (circuitBreaker g)\<rparr>
      in case ProxyError rcd of
           Some err \<Rightarrow>
             (case cache_Get (cache_key r) (smartCache g) of
                Some entry \<Rightarrow> serve_stale entry w failed
              | None \<Rightarrow>
                  (False, respondJSON 502 (JObj [(''details'', JStr err), (''error'', JStr ''upstream unreachable'')]) w, failed))
         | None \<Rightarrow>
             if rec_StatusCode rcd \<ge> 500 \<or> latency \<ge> LatencyThreshold (circuitBreaker g) then
               (case cache_Get (cache_key r) (smartCache g) of
                  Some entry \<Rightarrow> serve_stale entry w failed
                | None \<Rightarrow> flush_to rcd w failed)
             else if rec_StatusCode rcd \<ge> 200 \<and> rec_StatusCode rcd < 400 then
               flush_to rcd w
                 (g\<lparr>circuitBreaker := RecordSuccess (clk e AtRecord) (circuitBreaker g),
                   smartCache := cache_Set (clk e AtCacheSet) (cache_key r) (rec_StatusCode rcd) (HeaderMap rcd)
                     (rec_Body rcd) (cache_ttl (cm_Get (cfgManager g))) (smartCache g)\<rparr>)
             else flush_to rcd w g)"

definition serve_upstream ::
  "req_env \<Rightarrow> string \<Rightarrow> http_request \<Rightarrow> resp_writer \<Rightarrow> ('l, 'd, 'k, 'r, 's) gateway \<Rightarrow> ('l, 'd, 'k, 'r, 's) handled" where
  "serve_upstream e startHost r w g =
     (let ((allowed, st), cb) = AllowRequest (clk e AtBreaker) (circuitBreaker g);
          g = g\<lparr>circuitBreaker := cb,
                gw_metrics := SetCircuitBreakerStateMetric (state_String st) (gw_metrics g)\<rparr>
      in if \<not> allowed then
           (case cache_Get (cache_key r) (smartCache g) of
              Some entry \<Rightarrow> serve_stale entry w g
            | None \<Rightarrow>
                (False, respondJSON 503
                   (JObj [(''error'', JStr ''upstream circuit breaker is OPEN and no cache fallback is available''),
                          (''status'', JStr ''CIRCUIT_BREAKER_OPEN'')]) w, g))
         else
           (let host = director_host e startHost g;
                g = g\<lparr>forwarded := forwarded g @ [host]\<rparr>
            in case record_upstream (upstream e host r) of
                 None \<Rightarrow> (True, w, g)
               | Some rcd \<Rightarrow> finish_upstream e r rcd w g))"

subsection \<open>Steps 6 and 7: rate limit, billing and jitter\<close>

text \<open>\<open>fmt.Sprintf("%.4f", x)\<close>: the value rounded to four decimals, ties to even.\<close>

definition pad4 :: "nat \<Rightarrow> string" where
  "pad4 n = (let s = show_nat n in replicate (4 - length s) (CHR ''0'') @ s)"

definition fmt_f4 :: "float64 \<Rightarrow> string" where
  "fmt_f4 x =
     (case x of
        NaN \<Rightarrow> ''NaN''
      | PInf \<Rightarrow> ''+Inf''
      | NInf \<Rightarrow> ''-Inf''
      | Fin q \<Rightarrow>
          (let n = nat \<bar>round_even (q * 10000)\<bar>
           in (if q < 0 then ''-'' else []) @ show_nat (n div 10000) @ ''.'' @ pad4 (n mod 10000)))"

definition burst_event :: "req_env \<Rightarrow> string \<Rightarrow> string \<Rightarrow> i64 \<Rightarrow> float64 \<Rightarrow> float64 \<Rightarrow> UniversalEvent" where
  "burst_event e apiKey tierName units cost revenue =
     \<lparr>EventID = ''burst_'' @ show_int (clk e AtBurstId), ev_EventType = ''BURST_OVERAGE'', APIKey = apiKey,
      ev_Tier = tierName, Timestamp = time_unix (clk e AtBurstEvent), Title = ''Burst Overage: Tier '' @ tierName,
      Description = ''API Key '' @ apiKey @ '' entered burst capacity. Total overage units: '' @ show_int units @ ''.'',
      Channel = [], ev_Signature = [],
      Metadata = [(''CostPerCredit'', fmt_f4 cost), (''TotalRevenue'', fmt_f4 revenue @ '' USD'')]\<rparr>"

definition bill_burst ::
  "req_env \<Rightarrow> string \<Rightarrow> string \<Rightarrow> ('l, 'd, 'k, 'r, 's) gateway \<Rightarrow> ('l, 'd, 'k, 'r, 's) gateway" where
  "bill_burst e apiKey tierName g =
     (let g = g\<lparr>gw_metrics := RecordBurstOverage tierName apiKey (gw_metrics g)\<rparr>;
          cost = CostPerCredit (Monetization (cm_Get (cfgManager g)));
          units = fst (redis_GetOverageUnits (gw_limiter g) (month_of e (clk e AtOverage)) apiKey);
          revenue = f_mul (f_of_int units) cost;
          g = g\<lparr>gw_metrics := SetRevenue revenue (gw_metrics g),
                gw_repo := snd (RecordBillingOverage (gw_repo g) apiKey (month_of e (clk e AtBillingMonth)) units revenue)\<rparr>
      in if (case gw_redis g of None \<Rightarrow> True | Some rc \<Rightarrow> Client rc = None)
         then g\<lparr>webhookEngine := Publish (burst_event e apiKey tierName units cost revenue) (webhookEngine g)\<rparr>
         else g)"

definition limit_call :: "req_env \<Rightarrow> string \<Rightarrow> string \<Rightarrow> TierConfig \<Rightarrow> redis_call" where
  "limit_call e apiKey tierName t =
     \<lparr>rcall_check = \<lparr>call_now = time_unix (clk e AtLimit), call_apiKey = apiKey, call_tier = tierName,
        call_softLimit = SoftLimit t, call_hardLimit = HardLimit t, call_windowSec = WindowSeconds t\<rparr>,
      rcall_random = rand_id e, rcall_month = month_of e (clk e AtLimit), rcall_delivery = script_delivery e,
      rcall_later = time_unix (clk e AtFallback), rcall_server = server_clock e\<rparr>"

definition blocked_json :: "rate_limit_result \<Rightarrow> TierConfig \<Rightarrow> json" where
  "blocked_json res t =
     JObj [(''error'', JStr ''rate limit hard threshold exceeded''),
           (''hard_limit'', JInt (wrap64 (Limit res + BurstLimit res))), (''retry_after'', JInt (WindowSeconds t)),
           (''soft_limit'', JInt (Limit res)), (''status'', JStr (Status res))]"

definition serve_limited ::
  "req_env \<Rightarrow> string \<Rightarrow> string \<Rightarrow> string \<Rightarrow> TierConfig \<Rightarrow> http_request \<Rightarrow> resp_writer \<Rightarrow> ('l, 'd, 'k, 'r, 's) gateway
     \<Rightarrow> ('l, 'd, 'k, 'r, 's) handled" where
  "serve_limited e startHost apiKey tierName t r w g =
     (let (res, lim) = redis_Check (gw_limiter g) (limit_call e apiKey tierName t);
          w = w\<lparr>w_Header := ApplyHeaders res (w_Header w)\<rparr>;
          g = g\<lparr>gw_limiter := lim, gw_metrics := RecordRequest tierName (Status res) (gw_metrics g)\<rparr>
      in if Status res = ''BLOCKED'' \<or> Status res = ''BURST_FROZEN'' then
           (False, respondJSON 429 (blocked_json res t) w, g)
         else
           (let g = (if Status res = ''BURST'' then bill_burst e apiKey tierName g else g)
            in if IsJitterActive g then
                 (case jitter_delay e (Jitter (Upstream (cm_Get (cfgManager g)))) of
                    None \<Rightarrow> (True, w, g)
                  | Some _ \<Rightarrow> serve_upstream e startHost r w g)
               else serve_upstream e startHost r w g))"

subsection \<open>Steps 4 and 5: authentication and replay defence\<close>

fun sig_error_text :: "sig_error \<Rightarrow> string" where
  "sig_error_text ErrMissingSignature = ''missing signature header''"
| "sig_error_text ErrInvalidHeaderFormat = ''invalid signature header format; expected t={timestamp},v1={hex}''"
| "sig_error_text (ErrExpiredTimestamp age tol) =
     ''signature timestamp has expired (anti-replay defense): age='' @ show_int age @ ''s, tolerance='' @ show_int tol @ ''s''"
| "sig_error_text (ErrClockDrift skew) =
     ''signature timestamp is too far in future (clock drift): skew='' @ show_int skew @ ''s''"
| "sig_error_text ErrSignatureMismatch = ''signature mismatch; constant-time validation failed''"

definition default_tier :: TierConfig where
  "default_tier = \<lparr>SoftLimit = 20, HardLimit = 25, WindowSeconds = 60, ReplayWindowSeconds = 60\<rparr>"

text \<open>Step 5. A rejection without an error value would be a nil dereference.\<close>

definition serve_signed ::
  "req_env \<Rightarrow> string \<Rightarrow> string \<Rightarrow> string \<Rightarrow> TierConfig \<Rightarrow> http_request \<Rightarrow> resp_writer \<Rightarrow> ('l, 'd, 'k, 'r, 's) gateway
     \<Rightarrow> ('l, 'd, 'k, 'r, 's) handled" where
  "serve_signed e startHost apiKey tierName t r w g =
     (let sigHeader = hdr_get (r_Header r) ''X-Aegis-Signature''
      in if sigHeader = [] then serve_limited e startHost apiKey tierName t r w g
         else
           (case r_Body r of
              None \<Rightarrow> (False, respondJSON 400 (error_json ''failed to read body'') w, g)
            | Some bodyBytes \<Rightarrow>
                (let (valid, sigErr) = VerifySignature (lib e) (time_unix (clk e AtVerify)) bodyBytes sigHeader apiKey
                       (ReplayWindowSeconds t) (time_unix (clk e AtReplay))
                 in if \<not> valid \<or> sigErr \<noteq> None then
                      (let g = g\<lparr>gw_metrics := RecordReplayBlocked tierName (gw_metrics g)\<rparr>
                       in case sigErr of
                            None \<Rightarrow> (True, w, g)
                          | Some err \<Rightarrow>
                              (False, respondJSON 401
                                 (JObj [(''details'', JStr (sig_error_text err)),
                                        (''error'', JStr ''anti-replay defense rejected signature'')]) w, g))
                    else serve_limited e startHost apiKey tierName t r w g)))"

definition frozen_json :: json where
  "frozen_json = error_json ''API key frozen by emergency security kill-switch''"

definition serve_client ::
  "req_env \<Rightarrow> string \<Rightarrow> http_request \<Rightarrow> resp_writer \<Rightarrow> ('l, 'd, 'k, 'r, 's) gateway \<Rightarrow> ('l, 'd, 'k, 'r, 's) handled" where
  "serve_client e startHost r w g =
     (let apiKey = hdr_get (r_Header r) ''X-API-Key''
      in if apiKey = [] then (False, respondJSON 401 (error_json ''missing X-API-Key header'') w, g)
         else if (case gw_redis g of None \<Rightarrow> False | Some rc \<Rightarrow> IsKeyFrozen rc apiKey (kv (gw_repo g)))
         then (False, respondJSON 403 frozen_json w, g)
         else
           (let (found, rs) = GetAPIKey (lib e) (gw_repo g) apiKey;
                g = g\<lparr>gw_repo := rs\<rparr>
            in case found of
                 Inl ErrKeyFrozen \<Rightarrow> (False, respondJSON 403 frozen_json w, g)
               | Inl _ \<Rightarrow> (False, respondJSON 401 (error_json ''invalid or revoked API key'') w, g)
               | Inr keyRec \<Rightarrow>
                   (let tierName = to_lower (unicode_lower (lib e)) (Tier keyRec);
                        t = (case GetTier (unicode_lower (lib e)) (cfgManager g) tierName of
                               None \<Rightarrow> default_tier | Some t \<Rightarrow> t)
                    in serve_signed e startHost apiKey tierName t r w g)))"

subsection \<open>The admin API\<close>

definition clean_path :: "string \<Rightarrow> string" where
  "clean_path p =
     trim_suffix
       (if has_prefix p ''/api/v1'' then trim_prefix p ''/api/v1''
        else if has_prefix p ''/api'' then trim_prefix p ''/api'' else p) ''/''"

definition bool_text :: "bool \<Rightarrow> string" where
  "bool_text b = (if b then ''true'' else ''false'')"

definition admin_body :: "http_request \<Rightarrow> bytes" where
  "admin_body r = (case r_Body r of None \<Rightarrow> [] | Some b \<Rightarrow> b)"

definition reply :: "json \<Rightarrow> resp_writer \<Rightarrow> resp_writer" where
  "reply j w = w_Write (encode_json j) w"

text \<open>
  The audit record and the event that the three panic switches have in common; the argument gives
  the event for a signature.
\<close>

definition audit_and_publish ::
  "req_env \<Rightarrow> string \<Rightarrow> string \<Rightarrow> (string \<Rightarrow> UniversalEvent) \<Rightarrow> ('l, 'd, 'k, 'r, 's) gateway \<Rightarrow> ('l, 'd, 'k, 'r, 's) gateway" where
  "audit_and_publish e kind payload mk g =
     (let sig = GenerateSignature (lib e) payload ''aegis_master_key'' (time_unix (clk e AtAdmin))
      in g\<lparr>gw_repo := CreateAuditLog (clk e AtAuditId) (clk e AtAudit) (gw_repo g) kind payload sig,
           webhookEngine := Publish (mk sig) (webhookEngine g)\<rparr>)"

definition admin_event :: "req_env \<Rightarrow> string \<Rightarrow> string \<Rightarrow> string \<Rightarrow> string \<Rightarrow> string \<Rightarrow> string \<Rightarrow> string \<Rightarrow> UniversalEvent" where
  "admin_event e idPrefix kind apiKey tierName title descr sig =
     \<lparr>EventID = idPrefix @ show_int (clk e AtAdminId), ev_EventType = kind, APIKey = apiKey, ev_Tier = tierName,
      Timestamp = time_unix (clk e AtAdmin), Title = title, Description = descr, Channel = ''#security-incidents'',
      ev_Signature = sig, Metadata = []\<rparr>"

definition kill_payload :: "string \<Rightarrow> string" where
  "kill_payload k = [CHR ''{'', dquote] @ ''action'' @ [dquote] @ '':'' @ [dquote] @ ''KILL_SWITCH'' @ [dquote] @ '',''
     @ [dquote] @ ''target_key'' @ [dquote] @ '':'' @ [dquote] @ k @ [dquote] @ '',''
     @ [dquote] @ ''operator'' @ [dquote] @ '':'' @ [dquote] @ ''admin'' @ [dquote] @ ''}''"

definition switch_payload :: "string \<Rightarrow> string \<Rightarrow> bool \<Rightarrow> string" where
  "switch_payload action field b = [CHR ''{'', dquote] @ ''action'' @ [dquote] @ '':'' @ [dquote] @ action @ [dquote] @ '',''
     @ [dquote] @ field @ [dquote] @ '':'' @ bool_text b @ ''}''"

definition admin_kill ::
  "req_env \<Rightarrow> string \<Rightarrow> resp_writer \<Rightarrow> ('l, 'd, 'k, 'r, 's) gateway \<Rightarrow> ('l, 'd, 'k, 'r, 's) handled" where
  "admin_kill e key w g =
     (if key = [] then (False, reply (error_json ''api_key is required'') (WriteHeader 400 w), g)
      else
        (let g = g\<lparr>gw_repo := snd (FreezeAPIKey (lib e) (map_order e) (clk e AtKeyFreeze) (gw_repo g) key)\<rparr>;
             g = g\<lparr>gw_repo := (gw_repo g)\<lparr>kv := redis_freeze (gw_redis g) [key, HashKey (lib e) key] (kv (gw_repo g))\<rparr>\<rparr>;
             g = audit_and_publish e ''KILL_SWITCH_ACTIVATED'' (kill_payload key)
                   (admin_event e ''kill_'' ''KILL_SWITCH'' key ''SYSTEM'' ''Emergency API Key Kill-Switch Activated''
                      (''API Key '' @ key @ '' has been frozen platform-wide due to suspected compromise.'')) g
         in (False, reply (JObj [(''api_key'', JStr key), (''status'', JStr ''frozen'')]) w, g)))"

definition admin_burst_freeze ::
  "req_env \<Rightarrow> bool \<Rightarrow> resp_writer \<Rightarrow> ('l, 'd, 'k, 'r, 's) gateway \<Rightarrow> ('l, 'd, 'k, 'r, 's) handled" where
  "admin_burst_freeze e fz w g =
     (let g = g\<lparr>gw_limiter := (redis_SetGlobalBurstFreeze fz (fst (gw_limiter g)), snd (gw_limiter g))\<rparr>;
          g = audit_and_publish e ''GLOBAL_BURST_FREEZE'' (switch_payload ''BURST_FREEZE'' ''frozen'' fz)
                (admin_event e ''freeze_'' ''SECURITY_INCIDENT'' ''SYSTEM'' ''GLOBAL'' ''GLOBAL BURST FREEZE TOGGLED''
                   (''Global burst freeze state set to '' @ bool_text fz)) g
      in (False, reply (JObj [(''burst_frozen'', JBool fz)]) w, g))"

definition admin_cutoff ::
  "req_env \<Rightarrow> bool \<Rightarrow> resp_writer \<Rightarrow> ('l, 'd, 'k, 'r, 's) gateway \<Rightarrow> ('l, 'd, 'k, 'r, 's) handled" where
  "admin_cutoff e on w g =
     (let g = g\<lparr>circuitBreaker := SetEmergencyCutoff on (circuitBreaker g)\<rparr>;
          g = audit_and_publish e ''EMERGENCY_UPSTREAM_CUTOFF'' (switch_payload ''EMERGENCY_UPSTREAM_CUTOFF'' ''cutoff'' on)
                (admin_event e ''cutoff_'' ''SECURITY_INCIDENT'' ''SYSTEM'' ''GATEWAY'' ''EMERGENCY UPSTREAM CUTOFF TOGGLED''
                   (''Emergency cutoff state set to '' @ bool_text on)) g
      in (False, reply (JObj [(''emergency_cutoff'', JBool on)]) w, g))"

definition admin_jitter ::
  "bool option \<Rightarrow> resp_writer \<Rightarrow> ('l, 'd, 'k, 'r, 's) gateway \<Rightarrow> ('l, 'd, 'k, 'r, 's) handled" where
  "admin_jitter enabled w g =
     (let (active, g) =
            (case enabled of
               Some b \<Rightarrow> (b, g\<lparr>jitterOverride := (if b then 1 else 0)\<rparr>)
             | None \<Rightarrow> ToggleJitter g)
      in (False, reply (JObj [(''jitter_active'', JBool active)]) w, g))"

definition admin_status :: "resp_writer \<Rightarrow> ('l, 'd, 'k, 'r, 's) gateway \<Rightarrow> ('l, 'd, 'k, 'r, 's) handled" where
  "admin_status w g =
     (False, reply (JObj [(''burst_frozen'', JBool (redis_IsGlobalBurstFrozen (fst (gw_limiter g)))),
                          (''circuit_breaker'', JStr (state_String (GetState (circuitBreaker g)))),
                          (''emergency_cutoff'', JBool (IsEmergencyCutoff (circuitBreaker g))),
                          (''jitter_active'', JBool (IsJitterActive g))]) w, g)"

fun retry_error_text :: "retry_error \<Rightarrow> string" where
  "retry_error_text (ItemNotFound i) = ''dlq item with id '' @ i @ '' not found''"
| "retry_error_text (RetryBuildError err) = ''failed to build retry request: '' @ err"
| "retry_error_text (RetryNetError err) = err"
| "retry_error_text (RetryHttpError code) = ''endpoint returned HTTP '' @ show_int code"

definition admin_dlq_retry ::
  "req_env \<Rightarrow> string \<Rightarrow> resp_writer \<Rightarrow> ('l, 'd, 'k, 'r, 's) gateway \<Rightarrow> ('l, 'd, 'k, 'r, 's) handled" where
  "admin_dlq_retry e dlqId w g =
     (let ((ok, err), dlq, _) = ReSignAndRetry (lib e) (time_unix (clk e AtAdmin)) (meta_order e) (sendhook e)
            (dlqManager (webhookEngine g)) dlqId;
          g = g\<lparr>webhookEngine := (webhookEngine g)\<lparr>dlqManager := dlq\<rparr>\<rparr>
      in case err of
           Some er \<Rightarrow>
             (False, reply (JObj [(''error'', JStr (retry_error_text er)), (''success'', JBool False)]) (WriteHeader 500 w), g)
         | None \<Rightarrow> (False, reply (JObj [(''success'', JBool ok)]) w, g))"

definition admin_dlq_list ::
  "req_env \<Rightarrow> resp_writer \<Rightarrow> ('l, 'd, 'k, 'r, 's) gateway \<Rightarrow> ('l, 'd, 'k, 'r, 's) handled" where
  "admin_dlq_list e w g =
     (let items = dlq_List (dlq_order e) (dlqManager (webhookEngine g))
      in (False, reply (JObj [(''count'', JInt (int (length items))),
            (''items'', JArr (map (\<lambda>i. json_of_item (time_text e (FailedAt i)) i) items))]) w, g))"

definition handleAdminAPI ::
  "req_env \<Rightarrow> http_request \<Rightarrow> resp_writer \<Rightarrow> ('l, 'd, 'k, 'r, 's) gateway \<Rightarrow> ('l, 'd, 'k, 'r, 's) handled" where
  "handleAdminAPI e r w g =
     (let w = w_set ''Content-Type'' ''application/json'' w;
          p = clean_path (r_Path r);
          b = admin_body r
      in if p = ''/panic/kill'' \<and> r_Method r = ''POST'' then admin_kill e (body_str ''api_key'' b) w g
         else if p = ''/panic/burst-freeze'' \<and> r_Method r = ''POST'' then
           admin_burst_freeze e (body_bool ''frozen'' b) w g
         else if p = ''/panic/emergency-cutoff'' \<and> r_Method r = ''POST'' then
           admin_cutoff e (body_bool ''cutoff'' b) w g
         else if p = ''/panic/jitter'' \<and> r_Method r = ''POST'' then admin_jitter (body_ptr ''enabled'' b) w g
         else if p = ''/panic/status'' \<and> r_Method r = ''GET'' then admin_status w g
         else if p = ''/dlq/retry'' \<and> r_Method r = ''POST'' then admin_dlq_retry e (body_str ''dlq_id'' b) w g
         else if p = ''/dlq'' \<and> r_Method r = ''GET'' then admin_dlq_list e w g
         else (False, reply (error_json ''not found'') (WriteHeader 404 w), g))"

subsection \<open>The handler\<close>

definition health_json :: "req_env \<Rightarrow> ('l, 'd, 'k, 'r, 's) gateway \<Rightarrow> json" where
  "health_json e g =
     JObj [(''components'', JObj [(''cache'', JStr ''HEALTHY''),
              (''circuit_breaker'', JStr (state_String (GetState (circuitBreaker g)))), (''ratelimiter'', JStr ''HEALTHY'')]),
           (''edition'', JStr ''Community''), (''gateway'', JStr ''AegisPulse''), (''status'', JStr ''UP''),
           (''uptime_seconds'', JInt (if startedAt g = zero_time then 0
              else f_to_int (oob e) (duration_seconds (time_sub (clk e AtHealth) (startedAt g))))),
           (''version'', JStr ''1.4.0'')]"

definition is_admin_path :: "string \<Rightarrow> bool" where
  "is_admin_path p \<longleftrightarrow>
     has_prefix p ''/api/v1/panic/'' \<or> has_prefix p ''/api/panic/'' \<or> has_prefix p ''/api/v1/dlq'' \<or> has_prefix p ''/api/dlq''"

definition is_page_path :: "string \<Rightarrow> bool" where
  "is_page_path p \<longleftrightarrow>
     p = ''/metrics'' \<or> p = ''/demo'' \<or> has_prefix p ''/demo/'' \<or> p = ''/docs'' \<or> has_prefix p ''/docs/''"

text \<open>\<^verbatim>\<open>internal/demo\<close>: the handlers of the playground and of the documentation.\<close>

definition PlaygroundHandler :: "req_env \<Rightarrow> resp_writer \<Rightarrow> resp_writer" where
  "PlaygroundHandler e w =
     w_Write (playgroundHTML e) (WriteHeader 200 (w_set ''Content-Type'' ''text/html; charset=utf-8'' w))"

definition SwaggerHandler :: "req_env \<Rightarrow> string \<Rightarrow> resp_writer \<Rightarrow> resp_writer" where
  "SwaggerHandler e path w =
     (if path = ''/docs/openapi.json'' \<or> path = ''/docs/swagger.json'' \<or> has_suffix path ''/openapi.json'' then
        w_Write (openAPISpecJSON e) (WriteHeader 200 (w_set ''Content-Type'' ''application/json; charset=utf-8'' w))
      else
        w_Write (swaggerUIHTML e ''/docs/openapi.json'') (WriteHeader 200 (w_set ''Content-Type'' ''text/html; charset=utf-8'' w)))"

definition serve_page :: "req_env \<Rightarrow> http_request \<Rightarrow> resp_writer \<Rightarrow> resp_writer" where
  "serve_page e r w =
     (if r_Path r = ''/metrics'' then metrics_page e r w
      else if r_Path r = ''/demo'' \<or> has_prefix (r_Path r) ''/demo/'' then PlaygroundHandler e w
      else SwaggerHandler e (r_Path r) w)"

definition serveInternal ::
  "req_env \<Rightarrow> string \<Rightarrow> http_request \<Rightarrow> resp_writer \<Rightarrow> ('l, 'd, 'k, 'r, 's) gateway \<Rightarrow> ('l, 'd, 'k, 'r, 's) handled" where
  "serveInternal e startHost r w g =
     (if r_Path r = ''/healthz'' then (False, respondJSON 200 (health_json e g) w, g)
      else if is_page_path (r_Path r) then (False, serve_page e r w, g)
      else if is_admin_path (r_Path r) then handleAdminAPI e r w g
      else serve_client e startHost r w g)"

definition ServeHTTP ::
  "req_env \<Rightarrow> string \<Rightarrow> http_request \<Rightarrow> resp_writer \<Rightarrow> ('l, 'd, 'k, 'r, 's) gateway \<Rightarrow> ('l, 'd, 'k, 'r, 's) handled" where
  "ServeHTTP e startHost r w g =
     (case gw_cors g of
        None \<Rightarrow> serveInternal e startHost r w g
      | Some cm \<Rightarrow>
          (case Wrap (ufold_rest e) cm
                  (\<lambda>r (w, _, g). case serveInternal e startHost r w g of (p, w, g) \<Rightarrow> (w, p, g)) r (w, False, g) of
             (w, p, g) \<Rightarrow> (p, w, g)))"

text \<open>\<open>NewGatewayProxy\<close>: fails when the upstream URL does not parse; else also gives the start-up host.\<close>

definition NewGatewayProxy ::
  "req_env \<Rightarrow> gotime \<Rightarrow> 'l ConfigManager \<Rightarrow> ('d, 'k) repo_sys \<Rightarrow> 'r RedisLimiter \<times> 'r \<Rightarrow> SmartCache \<Rightarrow> CircuitBreaker
     \<Rightarrow> 's Engine \<Rightarrow> 's \<Rightarrow> Metrics \<Rightarrow> 'k RedisClient option \<Rightarrow> (string \<times> ('l, 'd, 'k, 'r, 's) gateway) option" where
  "NewGatewayProxy e now cm rs lm sc cb eng st m rc =
     (case parse_host e (TargetURL (Upstream (cm_Get cm))) of
        None \<Rightarrow> None
      | Some host \<Rightarrow>
          Some (host, \<lparr>cfgManager = cm, gw_repo = rs, gw_redis = rc, gw_limiter = lm, smartCache = sc,
            circuitBreaker = cb, webhookEngine = eng, dlq_state = st, gw_metrics = m, jitterOverride = - 1,
            gw_cors = Some (NewCORSMiddleware DefaultCORSConfig), startedAt = now, forwarded = []\<rparr>))"

section \<open>Lemmas\<close>

lemma flush_to_gateway [simp]: "snd (snd (flush_to rcd w g)) = g"
  by (simp add: flush_to_def split: prod.split)

lemma flush_to_panic: "fst (flush_to rcd w g) \<Longrightarrow> bad_status (rec_StatusCode rcd)"
  by (simp add: flush_to_def rec_Flush_def write_answer_def header_panics_def split: prod.splits if_splits)

text \<open>A cached answer changes the metrics only.\<close>

lemma serve_stale_cases:
  obtains m where "snd (snd (serve_stale entry w g)) = g\<lparr>gw_metrics := m\<rparr>"
proof -
  have "\<exists>m. snd (snd (serve_stale entry w g)) = g\<lparr>gw_metrics := m\<rparr>"
    by (simp add: serve_stale_def split: prod.split bool.split) (metis gateway.surjective gateway.update_convs(9))
  then show thesis using that by blast
qed

lemma serve_stale_same [simp]:
  "forwarded (snd (snd (serve_stale entry w g))) = forwarded g" "circuitBreaker (snd (snd (serve_stale entry w g))) = circuitBreaker g"
  "smartCache (snd (snd (serve_stale entry w g))) = smartCache g" "gw_redis (snd (snd (serve_stale entry w g))) = gw_redis g"
  "gw_repo (snd (snd (serve_stale entry w g))) = gw_repo g" "gw_limiter (snd (snd (serve_stale entry w g))) = gw_limiter g"
  "cfgManager (snd (snd (serve_stale entry w g))) = cfgManager g" "webhookEngine (snd (snd (serve_stale entry w g))) = webhookEngine g"
  by (cases rule: serve_stale_cases [of entry w g]; simp)+

lemma serve_stale_panic: "fst (serve_stale entry w g) \<Longrightarrow> bad_status (StatusCode entry)"
  by (auto simp: serve_stale_def serveCachedResponse_def write_answer_def header_panics_def split: prod.splits bool.splits if_splits)

lemma finish_upstream_forwarded: "forwarded (snd (snd (finish_upstream e r rcd w g))) = forwarded g"
  by (simp add: finish_upstream_def Let_def split: option.split)

lemma serve_upstream_forwarded:
  "forwarded (snd (snd (serve_upstream e h r w g))) =
     (if fst (fst (AllowRequest (clk e AtBreaker) (circuitBreaker g)))
      then forwarded g @ [director_host e h g] else forwarded g)"
  by (simp add: serve_upstream_def finish_upstream_forwarded director_host_def Let_def
      split: prod.split option.split)

text \<open>The cache holds successful answers only.\<close>

definition cache_good :: "SmartCache \<Rightarrow> bool" where
  "cache_good sc \<longleftrightarrow> (\<forall>k en. cache_Get k sc = Some en \<longrightarrow> 200 \<le> StatusCode en \<and> StatusCode en < 400)"

lemma cache_good_Set: "cache_good sc \<Longrightarrow> 200 \<le> code \<Longrightarrow> code < 400 \<Longrightarrow> cache_good (cache_Set t k code hs b ttl sc)"
  by (auto simp: cache_good_def Get_Set split: if_splits)

lemma cache_good_stale: "cache_good sc \<Longrightarrow> cache_Get k sc = Some en \<Longrightarrow> \<not> fst (serve_stale en w g)"
  using serve_stale_panic [of en w g] by (fastforce simp: cache_good_def bad_status_def)

text \<open>An answer of the upstream that makes the handler panic.\<close>

definition breaks_handler :: "upstream_result \<Rightarrow> bool" where
  "breaks_handler u = (case u of UpError _ \<Rightarrow> False | UpResponse code _ _ \<Rightarrow> bad_status code | UpAborted _ _ _ \<Rightarrow> True)"

lemma finish_upstream_cache: "cache_good (smartCache g) \<Longrightarrow> cache_good (smartCache (snd (snd (finish_upstream e r rcd w g))))"
  by (simp add: finish_upstream_def cache_good_Set Let_def split: option.split)

lemma finish_upstream_panic:
  "cache_good (smartCache g) \<Longrightarrow> fst (finish_upstream e r rcd w g) \<Longrightarrow> ProxyError rcd = None \<and> bad_status (rec_StatusCode rcd)"
  by (auto simp: finish_upstream_def cache_good_stale Let_def dest: flush_to_panic split: option.splits if_splits)

lemma serve_upstream_cache: "cache_good (smartCache g) \<Longrightarrow> cache_good (smartCache (snd (snd (serve_upstream e h r w g))))"
  by (simp add: serve_upstream_def finish_upstream_cache Let_def split: prod.split option.split)

lemma serve_upstream_panic:
  assumes "cache_good (smartCache g)" and "fst (serve_upstream e h r w g)"
  shows "forwarded (snd (snd (serve_upstream e h r w g))) \<noteq> forwarded g \<and> breaks_handler (upstream e (director_host e h g) r)"
proof -
  obtain a st cb where al: "AllowRequest (clk e AtBreaker) (circuitBreaker g) = ((a, st), cb)" by (metis prod.exhaust)
  have a: "a"
    using assms al by (auto simp: serve_upstream_def cache_good_stale Let_def split: option.splits if_splits)
  have "breaks_handler (upstream e (director_host e h g) r)"
  proof (cases "record_upstream (upstream e (director_host e h g) r)")
    case None
    then show ?thesis by (auto simp: record_upstream_def breaks_handler_def split: upstream_result.splits)
  next
    case (Some rcd)
    with assms a have "ProxyError rcd = None \<and> bad_status (rec_StatusCode rcd)"
      by (auto simp: serve_upstream_def al director_host_def Let_def dest!: finish_upstream_panic [rotated])
    with Some show ?thesis
      by (auto simp: record_upstream_def breaks_handler_def handleProxyError_def rec_Write_def rec_WriteHeader_def NewResponseRecorder_def
          split: upstream_result.splits)
  qed
  with a al show ?thesis by (simp add: serve_upstream_forwarded)
qed

lemma bill_burst_same:
  "forwarded (bill_burst e k t g) = forwarded g" "circuitBreaker (bill_burst e k t g) = circuitBreaker g"
  "cfgManager (bill_burst e k t g) = cfgManager g" "jitterOverride (bill_burst e k t g) = jitterOverride g"
  "smartCache (bill_burst e k t g) = smartCache g"
  by (simp_all add: bill_burst_def Let_def)

lemma serve_limited_forwarded:
  assumes "forwarded (snd (snd (serve_limited e h k tn t r w g))) \<noteq> forwarded g"
  shows "Status (fst (redis_Check (gw_limiter g) (limit_call e k tn t))) \<notin> {''BLOCKED'', ''BURST_FROZEN''} \<and>
    fst (fst (AllowRequest (clk e AtBreaker) (circuitBreaker g))) \<and>
    (\<exists>host. forwarded (snd (snd (serve_limited e h k tn t r w g))) = forwarded g @ [host])"
  using assms
  by (auto simp: serve_limited_def serve_upstream_forwarded bill_burst_same Let_def split: prod.splits option.splits if_splits)

lemma serve_signed_forwarded:
  assumes "forwarded (snd (snd (serve_signed e h k tn t r w g))) \<noteq> forwarded g"
  shows "forwarded (snd (snd (serve_limited e h k tn t r w g))) \<noteq> forwarded g \<and>
    serve_signed e h k tn t r w g = serve_limited e h k tn t r w g \<and>
    (hdr_get (r_Header r) ''X-Aegis-Signature'' = [] \<or>
     (\<exists>body. r_Body r = Some body \<and>
        VerifySignature (lib e) (time_unix (clk e AtVerify)) body (hdr_get (r_Header r) ''X-Aegis-Signature'') k
          (ReplayWindowSeconds t) (time_unix (clk e AtReplay)) = (True, None)))"
  using assms
  by (auto simp: serve_signed_def Let_def split: prod.splits option.splits if_splits)

lemma serve_client_forwarded:
  assumes "forwarded (snd (snd (serve_client e h r w g))) \<noteq> forwarded g"
  shows "\<exists>keyRec t. hdr_get (r_Header r) ''X-API-Key'' \<noteq> [] \<and>
    fst (GetAPIKey (lib e) (gw_repo g) (hdr_get (r_Header r) ''X-API-Key'')) = Inr keyRec \<and>
    (let k = hdr_get (r_Header r) ''X-API-Key''; tn = to_lower (unicode_lower (lib e)) (Tier keyRec);
         g' = g\<lparr>gw_repo := snd (GetAPIKey (lib e) (gw_repo g) k)\<rparr>
     in serve_client e h r w g = serve_signed e h k tn t r w g' \<and>
        forwarded (snd (snd (serve_signed e h k tn t r w g'))) \<noteq> forwarded g' \<and>
        t = (case GetTier (unicode_lower (lib e)) (cfgManager g) tn of None \<Rightarrow> default_tier | Some t \<Rightarrow> t))"
  using assms
  by (auto simp: serve_client_def Let_def split: prod.splits option.splits if_splits sum.splits key_error.splits)

lemma admin_forwarded: "forwarded (snd (snd (handleAdminAPI e r w g))) = forwarded g"
  by (simp add: handleAdminAPI_def admin_kill_def admin_burst_freeze_def admin_cutoff_def admin_jitter_def
      admin_status_def admin_dlq_retry_def admin_dlq_list_def audit_and_publish_def ToggleJitter_def Let_def
      split: option.split prod.split)

lemma GetAPIKey_ok: "fst (GetAPIKey l s k) = Inr r \<Longrightarrow> IsActive r \<and> \<not> RateFrozen r"
  by (auto simp: GetAPIKey_def key_verdict_def Let_def split: option.splits if_splits)

text \<open>When the jitter step panics.\<close>

lemma jitter_delay_None:
  assumes "in_i64 (MinDelayMs j)" and "MaxDelayMs j < 4611686018427387904"
  shows "jitter_delay e j = None \<longleftrightarrow>
    roll e < (if Percentage j \<le> 0 then 25 else Percentage j) \<and> 500 < MinDelayMs j \<and> MaxDelayMs j < MinDelayMs j"
proof -
  let ?min = "if MinDelayMs j \<le> 0 then 200 else MinDelayMs j"
  let ?max = "if MaxDelayMs j < ?min then 500 else MaxDelayMs j"
  have r: "in_i64 (?max - ?min)" "in_i64 (?max - ?min + 1)" using assms by (auto simp: in_i64_def)
  then have "wrap64 (wrap64 (?max - ?min) + 1) = ?max - ?min + 1" by (simp only: wrap64_id)
  then show ?thesis unfolding jitter_delay_def Let_def Intn_def by (auto split: if_splits)
qed

text \<open>What makes the handler of a client request panic.\<close>

definition panic_cause :: "req_env \<Rightarrow> string \<Rightarrow> http_request \<Rightarrow> ('l, 'd, 'k, 'r, 's) gateway \<Rightarrow> ('l, 'd, 'k, 'r, 's) handled \<Rightarrow> bool" where
  "panic_cause e h r g out \<longleftrightarrow>
     (IsJitterActive g \<and> jitter_delay e (Jitter (Upstream (cm_Get (cfgManager g)))) = None) \<or>
     (forwarded (snd (snd out)) \<noteq> forwarded g \<and> breaks_handler (upstream e (director_host e h g) r))"

lemma serve_limited_panic:
  assumes "cache_good (smartCache g)" and "fst (serve_limited e h k tn t r w g)"
  shows "panic_cause e h r g (serve_limited e h k tn t r w g)"
proof -
  obtain res lm where ch: "redis_Check (gw_limiter g) (limit_call e k tn t) = (res, lm)" by (rule prod.exhaust)
  let ?g = "g\<lparr>gw_limiter := lm, gw_metrics := RecordRequest tn (Status res) (gw_metrics g)\<rparr>"
  let ?g' = "if Status res = ''BURST'' then bill_burst e k tn ?g else ?g"
  let ?w = "w\<lparr>w_Header := ApplyHeaders res (w_Header w)\<rparr>"
  have same: "smartCache ?g' = smartCache g" "forwarded ?g' = forwarded g" "cfgManager ?g' = cfgManager g" "IsJitterActive ?g' = IsJitterActive g"
    by (simp_all add: bill_burst_same IsJitterActive_def)
  have out: "serve_limited e h k tn t r w g =
      (if IsJitterActive g \<and> jitter_delay e (Jitter (Upstream (cm_Get (cfgManager g)))) = None then (True, ?w, ?g')
       else serve_upstream e h r ?w ?g')"
    using assms(2) ch same by (auto simp: serve_limited_def Let_def split: option.splits if_splits)
  show ?thesis
  proof (cases "IsJitterActive g \<and> jitter_delay e (Jitter (Upstream (cm_Get (cfgManager g)))) = None")
    case True
    then show ?thesis by (simp add: panic_cause_def)
  next
    case False
    from serve_upstream_panic [of ?g' e h r ?w] assms False out same show ?thesis
      by (auto simp: panic_cause_def director_host_def)
  qed
qed

lemma serve_signed_panic:
  assumes "fst (serve_signed e h k tn t r w g)"
  shows "serve_signed e h k tn t r w g = serve_limited e h k tn t r w g"
proof -
  have "VerifySignature (lib e) c b s x y z \<noteq> (False, None)" for c b s x y z
    by (auto simp: VerifySignature_def Let_def split: prod.splits if_splits)
  with assms show ?thesis
    by (auto simp: serve_signed_def Let_def split: prod.splits option.splits if_splits)
qed

lemma repo_irrelevant: "IsJitterActive (g\<lparr>gw_repo := rs\<rparr>) = IsJitterActive g" "director_host e h (g\<lparr>gw_repo := rs\<rparr>) = director_host e h g"
  by (simp_all add: IsJitterActive_def director_host_def)

lemma serve_client_panic:
  assumes "cache_good (smartCache g)" and "fst (serve_client e h r w g)"
  shows "panic_cause e h r g (serve_client e h r w g)"
proof -
  let ?g = "g\<lparr>gw_repo := snd (GetAPIKey (lib e) (gw_repo g) (hdr_get (r_Header r) ''X-API-Key''))\<rparr>"
  obtain k tn t where out: "serve_client e h r w g = serve_signed e h k tn t r w ?g"
    using assms(2) by (auto simp: serve_client_def Let_def split: prod.splits if_splits sum.splits key_error.splits)
  then have lim: "serve_client e h r w g = serve_limited e h k tn t r w ?g" using serve_signed_panic assms(2) by metis
  then have "panic_cause e h r ?g (serve_client e h r w g)" using serve_limited_panic [of ?g] assms by simp
  then show ?thesis by (simp add: panic_cause_def repo_irrelevant)
qed

lemma serve_client_cache:
  "cache_good (smartCache g) \<Longrightarrow> cache_good (smartCache (snd (snd (serve_client e h r w g))))"
  by (simp add: serve_client_def serve_signed_def serve_limited_def serve_upstream_cache bill_burst_same Let_def
      split: prod.split option.split sum.split key_error.split)

lemma admin_cache: "smartCache (snd (snd (handleAdminAPI e r w g))) = smartCache g"
  by (simp add: handleAdminAPI_def admin_kill_def admin_burst_freeze_def admin_cutoff_def admin_jitter_def
      admin_status_def admin_dlq_retry_def admin_dlq_list_def audit_and_publish_def ToggleJitter_def Let_def
      split: option.split prod.split)

lemma admin_panic: "\<not> fst (handleAdminAPI e r w g)"
  by (simp add: handleAdminAPI_def admin_kill_def admin_burst_freeze_def admin_cutoff_def admin_jitter_def
      admin_status_def admin_dlq_retry_def admin_dlq_list_def Let_def split: option.split prod.split)

text \<open>The demo routes answer 200 with their text and leave the gateway alone.\<close>

lemma demo_pages:
  assumes "is_page_path (r_Path r)" and "r_Path r \<noteq> ''/metrics''" and "w_sent w = None"
  shows "\<exists>hdr. snd (snd (serveInternal e h r w g)) = g \<and> w_sent (fst (snd (serveInternal e h r w g))) = Some (200, hdr)"
proof -
  have "r_Path r \<noteq> ''/healthz''" using assms(1) by (auto simp: is_page_path_def has_prefix_def)
  with assms show ?thesis
    by (simp add: serveInternal_def serve_page_def PlaygroundHandler_def SwaggerHandler_def w_Write_def WriteHeader_def w_set_def Let_def)
qed

end
