(* ===== verification/Gateway_Runs.thy ===== *)
theory Gateway_Runs
  imports Proxy
begin

text \<open>
  Runs of the gateway: sequences of requests, each answered by \<open>ServeHTTP\<close> of
  \<^verbatim>\<open>internal/proxy/proxy.go\<close> on the state the previous one left. The lemmas say what a request
  can change: the shadow map of the repository only by lookups and freezes, the breaker only
  through the upstream step and the cutoff switch.

  \<^item> The gateway is an instance of the contract \<open>key_store\<close> of \<open>Storage\<close>: frozen keys are refused.
  \<^item> \<open>shut_gateway\<close> is the contract of a breaker condition under which nothing is forwarded; a lost
    probe and the emergency cutoff are its two instances.
  \<^item> A request that is forwarded ran the upstream step on an unchanged breaker, cache and
    configuration (\<open>ServeHTTP_upstream\<close>); what that step caches is what a later fallback serves.
\<close>

section \<open>Definitions\<close>

text \<open>
  One request. The library functions are the same for every request; the surroundings otherwise
  differ. The outcome is whether the handler panicked, the response and the hosts to which the
  request was forwarded.
\<close>

definition gw_apply ::
  "golib \<Rightarrow> string \<Rightarrow> ('l, 'd, 'k, 'r, 's) gateway \<Rightarrow> req_env \<times> http_request
     \<Rightarrow> (bool \<times> resp_writer \<times> string list) \<times> ('l, 'd, 'k, 'r, 's) gateway" where
  "gw_apply l startHost g er =
     (case ServeHTTP ((fst er)\<lparr>lib := l\<rparr>) startHost (snd er) new_writer g of
        (p, w, g') \<Rightarrow> ((p, w, drop (length (forwarded g)) (forwarded g')), g'))"

text \<open>A request that reaches the authentication step with the given key.\<close>

definition client_request :: "http_request \<Rightarrow> string \<Rightarrow> bool" where
  "client_request r k \<longleftrightarrow>
     hdr_get (r_Header r) ''X-API-Key'' = k \<and> r_Method r \<noteq> ''OPTIONS'' \<and> r_Path r \<noteq> ''/healthz'' \<and>
     \<not> is_page_path (r_Path r) \<and> \<not> is_admin_path (r_Path r)"

definition refused :: "int \<Rightarrow> bool \<times> resp_writer \<times> string list \<Rightarrow> bool" where
  "refused code out \<longleftrightarrow>
     (case out of (p, w, hosts) \<Rightarrow> \<not> p \<and> map_option fst (w_sent w) = Some code \<and> hosts = [])"

section \<open>What a request changes\<close>

text \<open>The middleware only adds headers or answers a preflight.\<close>

lemma ServeHTTP_cases:
  obtains (served) w' where "ServeHTTP e h r w g = serveInternal e h r w' g" "w_sent w' = w_sent w" "w_body w' = w_body w"
  | (preflight) w' where "ServeHTTP e h r w g = (False, w', g)" "r_Method r = ''OPTIONS''"
proof (cases "gw_cors g")
  case None
  then show ?thesis using served [of w] by (simp add: ServeHTTP_def)
next
  case (Some cm)
  let ?w = "cors_headers (ufold_rest e) (cors_cfg cm) r w"
  have sent: "w_sent ?w = w_sent w" "w_body ?w = w_body w"
    by (simp_all add: cors_headers_def match_origin_find security_headers_def Let_def split: option.split)
  show ?thesis
  proof (cases "r_Method r = ''OPTIONS''")
    case True
    with Some preflight show ?thesis by (simp add: ServeHTTP_def Wrap_def Let_def)
  next
    case False
    with Some sent served [of ?w] show ?thesis by (simp add: ServeHTTP_def Wrap_def Let_def split: prod.split)
  qed
qed

lemma serve_upstream_repo: "gw_repo (snd (snd (serve_upstream e h r w g))) = gw_repo g"
  by (simp add: serve_upstream_def finish_upstream_def Let_def split: prod.split option.split)

text \<open>A frozen key stays frozen.\<close>

abbreviation gw_frozen :: "golib \<Rightarrow> ('l, 'd, 'k, 'r, 's) gateway \<Rightarrow> string \<Rightarrow> bool" where
  "gw_frozen l g \<equiv> frozen_in l (gw_repo g)"

lemma RecordBillingOverage_repo: "repo (snd (RecordBillingOverage s k m u c)) = repo s"
  by (simp add: RecordBillingOverage_def split: option.split prod.split)

lemma CreateAuditLog_repo: "repo (CreateAuditLog idNow now s kind p sig) = repo s"
  by (simp add: CreateAuditLog_def Let_def split: option.split)

lemma frozen_in_repo: "repo s' = repo s \<Longrightarrow> frozen_in l s' = frozen_in l s"
  by (simp add: frozen_in_def fun_eq_iff)

lemma frozen_in_kv: "frozen_in l (s\<lparr>kv := x\<rparr>) = frozen_in l s"
  by (rule frozen_in_repo) simp

lemma bill_burst_frozen: "gw_frozen l (bill_burst e k t g) = gw_frozen l g"
  by (rule frozen_in_repo) (simp add: bill_burst_def RecordBillingOverage_repo Let_def)

lemma serve_limited_frozen: "gw_frozen l (snd (snd (serve_limited e h k tn t r w g))) = gw_frozen l g"
  by (simp add: serve_limited_def serve_upstream_repo bill_burst_frozen Let_def split: option.split prod.split)

lemma serve_signed_frozen: "gw_frozen l (snd (snd (serve_signed e h k tn t r w g))) = gw_frozen l g"
  by (simp add: serve_signed_def serve_limited_frozen Let_def split: option.split prod.split)

lemma serve_client_frozen: "gw_frozen (lib e) g k \<Longrightarrow> gw_frozen (lib e) (snd (snd (serve_client e h r w g))) k"
  using GetAPIKey_keeps [of "lib e" "gw_repo g" k "hdr_get (r_Header r) ''X-API-Key''"]
  by (auto simp: serve_client_def serve_signed_frozen Let_def split: prod.split sum.split key_error.split option.split)

lemma audit_frozen: "gw_frozen l (audit_and_publish e kind p mk g) = gw_frozen l g"
  by (rule frozen_in_repo) (simp add: audit_and_publish_def CreateAuditLog_repo Let_def)

lemma admin_kill_frozen:
  "gw_frozen l (snd (snd (admin_kill e k w g))) k' =
     (if k = [] then gw_frozen l g k' else frozen_in l (snd (FreezeAPIKey (lib e) (map_order e) (clk e AtKeyFreeze) (gw_repo g) k)) k')"
  by (simp add: admin_kill_def audit_frozen frozen_in_kv Let_def)

lemma admin_frozen: "gw_frozen (lib e) g k \<Longrightarrow> gw_frozen (lib e) (snd (snd (handleAdminAPI e r w g))) k"
  using FreezeAPIKey_keeps [of "lib e" "gw_repo g" k]
  by (simp add: handleAdminAPI_def admin_kill_frozen admin_burst_freeze_def admin_cutoff_def admin_jitter_def
      admin_status_def admin_dlq_retry_def admin_dlq_list_def audit_frozen ToggleJitter_def Let_def
      split: option.split prod.split)

lemma serveInternal_frozen: "gw_frozen (lib e) g k \<Longrightarrow> gw_frozen (lib e) (snd (snd (serveInternal e h r w g))) k"
  by (simp add: serveInternal_def admin_frozen serve_client_frozen)

lemma gw_apply_state: "snd (gw_apply l h g er) = snd (snd (ServeHTTP ((fst er)\<lparr>lib := l\<rparr>) h (snd er) new_writer g))"
  by (simp add: gw_apply_def split: prod.split)

lemma gw_apply_frozen: "gw_frozen l g k \<Longrightarrow> gw_frozen l (snd (gw_apply l h g er)) k"
  by (cases rule: ServeHTTP_cases [of "(fst er)\<lparr>lib := l\<rparr>" h "snd er" new_writer g])
    (use serveInternal_frozen [of "(fst er)\<lparr>lib := l\<rparr>" g k] in \<open>simp_all add: gw_apply_state\<close>)

lemma respondJSON_sent:
  "w_sent w = None \<Longrightarrow> 200 \<le> code \<Longrightarrow>
     w_sent (respondJSON code j w) = Some (code, hdr_set ''Content-Type'' ''application/json'' (w_Header w))"
  by (simp add: respondJSON_def w_Write_def WriteHeader_def w_set_def Let_def)

lemma serve_client_refuses:
  assumes "gw_frozen (lib e) g k" and "hdr_get (r_Header r) ''X-API-Key'' = k" and "k \<noteq> []" and "w_sent w = None"
  shows "\<exists>g'. serve_client e h r w g = (False, respondJSON 403 frozen_json w, g') \<and> forwarded g' = forwarded g"
  using GetAPIKey_frozen [OF assms(1)] assms(2-)
  by (auto simp: serve_client_def Let_def split: prod.split option.split)

lemma gw_apply_refuses:
  assumes "gw_frozen l g k" and "client_request (snd er) k" and "k \<noteq> []"
  shows "refused 403 (fst (gw_apply l h g er))"
proof (cases rule: ServeHTTP_cases [of "(fst er)\<lparr>lib := l\<rparr>" h "snd er" new_writer g])
  case (served w')
  have sent: "w_sent w' = None" using served(2) by (simp add: new_writer_def)
  have "serveInternal ((fst er)\<lparr>lib := l\<rparr>) h (snd er) w' g = serve_client ((fst er)\<lparr>lib := l\<rparr>) h (snd er) w' g"
    using assms(2) by (simp add: serveInternal_def client_request_def)
  moreover obtain g' where "serve_client ((fst er)\<lparr>lib := l\<rparr>) h (snd er) w' g = (False, respondJSON 403 frozen_json w', g')"
    and "forwarded g' = forwarded g"
    using serve_client_refuses [of "(fst er)\<lparr>lib := l\<rparr>" g k "snd er" w' h] assms sent
    by (auto simp: client_request_def)
  ultimately show ?thesis using sent by (simp add: refused_def gw_apply_def served(1) respondJSON_sent)
qed (use assms in \<open>simp add: client_request_def\<close>)

interpretation gwk: key_store "gw_apply l h" "\<lambda>er k. client_request (snd er) k \<and> k \<noteq> []" "refused 403" "gw_frozen l"
  for l h
  by unfold_locales (simp_all add: gw_apply_refuses gw_apply_frozen)

section \<open>A breaker that admits nothing\<close>

definition cb_shut :: "CircuitBreaker \<Rightarrow> bool" where
  "cb_shut cb \<longleftrightarrow> (\<forall>now. \<exists>st. AllowRequest now cb = ((False, st), cb))"

lemma probe_lost_shut: "probe_lost cb \<Longrightarrow> cb_shut cb"
  by (simp add: cb_shut_def AllowRequest_def AllowRequest_locked_def probe_lost_def)

lemma cutoff_shut: "emergencyCutoff cb \<Longrightarrow> cb_shut cb"
  by (simp add: cb_shut_def AllowRequest_def)

lemma serve_upstream_shut:
  assumes "cb_shut (circuitBreaker g)"
  shows "circuitBreaker (snd (snd (serve_upstream e h r w g))) = circuitBreaker g \<and>
    forwarded (snd (snd (serve_upstream e h r w g))) = forwarded g"
proof -
  obtain st where "AllowRequest (clk e AtBreaker) (circuitBreaker g) = ((False, st), circuitBreaker g)"
    using assms cb_shut_def by blast
  then show ?thesis by (auto simp: serve_upstream_def Let_def split: option.split)
qed

lemma serve_limited_shut:
  "cb_shut (circuitBreaker g) \<Longrightarrow>
     circuitBreaker (snd (snd (serve_limited e h k tn t r w g))) = circuitBreaker g \<and>
     forwarded (snd (snd (serve_limited e h k tn t r w g))) = forwarded g"
  by (simp add: serve_limited_def serve_upstream_shut bill_burst_same Let_def split: option.split prod.split)

lemma serve_client_shut:
  "cb_shut (circuitBreaker g) \<Longrightarrow>
     circuitBreaker (snd (snd (serve_client e h r w g))) = circuitBreaker g \<and>
     forwarded (snd (snd (serve_client e h r w g))) = forwarded g"
  by (simp add: serve_client_def serve_signed_def serve_limited_shut Let_def
      split: option.split prod.split sum.split key_error.split)

text \<open>The setting that a request posts to the cutoff switch, if it is such a request.\<close>

definition cutoff_request :: "req_env \<times> http_request \<Rightarrow> bool option" where
  "cutoff_request er =
     (case er of (e, r) \<Rightarrow>
        if r_Method r = ''POST'' \<and> is_admin_path (r_Path r) \<and> clean_path (r_Path r) = ''/panic/emergency-cutoff''
        then Some (body_bool ''cutoff'' (admin_body r)) else None)"

lemma admin_breaker:
  "is_admin_path (r_Path r) \<Longrightarrow> circuitBreaker (snd (snd (handleAdminAPI e r w g))) =
     (case cutoff_request (e, r) of None \<Rightarrow> circuitBreaker g | Some b \<Rightarrow> SetEmergencyCutoff b (circuitBreaker g))"
  by (simp add: handleAdminAPI_def admin_kill_def admin_burst_freeze_def admin_cutoff_def admin_jitter_def cutoff_request_def
      admin_status_def admin_dlq_retry_def admin_dlq_list_def audit_and_publish_def ToggleJitter_def
      Let_def split: option.split prod.split)

text \<open>
  A condition on the breaker that shuts it and that the cutoff switch keeps under the requests
  considered: with it no sequence of such requests makes the gateway forward.
\<close>

locale shut_gateway =
  fixes shut_state :: "CircuitBreaker \<Rightarrow> bool" and considered :: "req_env \<times> http_request \<Rightarrow> bool"
  assumes shut: "shut_state cb \<Longrightarrow> cb_shut cb"
    and switch: "shut_state cb \<Longrightarrow> considered er \<Longrightarrow> cutoff_request er = Some b \<Longrightarrow> shut_state (SetEmergencyCutoff b cb)"
    and lib_free: "considered (e\<lparr>lib := l\<rparr>, r) = considered (e, r)"
begin

lemma serveInternal_shut:
  "shut_state (circuitBreaker g) \<Longrightarrow> considered (e, r) \<Longrightarrow>
     shut_state (circuitBreaker (snd (snd (serveInternal e h r w g)))) \<and>
     forwarded (snd (snd (serveInternal e h r w g))) = forwarded g"
  by (auto simp: serveInternal_def serve_client_shut [OF shut] admin_breaker admin_forwarded switch split: option.split)

lemma ServeHTTP_shut:
  assumes "shut_state (circuitBreaker g)" and "considered (e, r)"
  shows "shut_state (circuitBreaker (snd (snd (ServeHTTP e h r w g)))) \<and>
     forwarded (snd (snd (ServeHTTP e h r w g))) = forwarded g"
  by (cases rule: ServeHTTP_cases [of e h r w g]) (use assms serveInternal_shut in simp_all)

lemma run_shut:
  "shut_state (circuitBreaker g) \<Longrightarrow> list_all considered ers \<Longrightarrow>
     forwarded (snd (run_ops (gw_apply l h) g ers)) = forwarded g"
proof (induction ers arbitrary: g)
  case (Cons er ers)
  obtain e r where er: "er = (e, r)" by (rule prod.exhaust)
  have "considered (e\<lparr>lib := l\<rparr>, r)" using Cons.prems(2) by (simp add: er lib_free)
  from ServeHTTP_shut [OF Cons.prems(1) this] Cons.IH [of "snd (gw_apply l h g er)"] Cons.prems(2)
  show ?case by (simp add: run_ops_Cons gw_apply_state er del: run_ops.simps(2))
qed simp

end

interpretation lost: shut_gateway probe_lost "\<lambda>_. True"
proof unfold_locales
  show "probe_lost (SetEmergencyCutoff b cb)" if "probe_lost cb" for b cb
    using that by (simp add: probe_lost_def SetEmergencyCutoff_def)
qed (simp_all add: probe_lost_shut)

interpretation cutoff: shut_gateway emergencyCutoff "\<lambda>er. cutoff_request er \<noteq> Some False"
  by unfold_locales (auto simp: cutoff_shut SetEmergencyCutoff_def cutoff_request_def)

text \<open>The upstream step with a probe whose answer counts neither as a success nor as a failure.\<close>

lemma serve_upstream_4xx:
  assumes "cb_state (circuitBreaker g) = CircuitOpen" and "\<not> emergencyCutoff (circuitBreaker g)"
    and "cooldown (circuitBreaker g) \<le> time_sub (clk e AtBreaker) (lastStateChange (circuitBreaker g))"
    and "upstream e (director_host e h g) r = UpResponse code hs b" and "400 \<le> code" and "code < 500"
    and "time_sub (clk e AtEnd) (clk e AtStart) < latencyThreshold (circuitBreaker g)"
  shows "probe_lost (circuitBreaker (snd (snd (serve_upstream e h r w g))))"
  using assms
  by (simp add: serve_upstream_def finish_upstream_def AllowRequest_def AllowRequest_locked_def record_upstream_def
      director_host_def probe_lost_def NewResponseRecorder_def rec_Write_def rec_WriteHeader_def LatencyThreshold_def Let_def)

text \<open>The same with a probe whose answer breaks off: the handler panics before it records anything.\<close>

lemma serve_upstream_aborted:
  assumes "cb_state (circuitBreaker g) = CircuitOpen" and "\<not> emergencyCutoff (circuitBreaker g)"
    and "cooldown (circuitBreaker g) \<le> time_sub (clk e AtBreaker) (lastStateChange (circuitBreaker g))"
    and "upstream e (director_host e h g) r = UpAborted code hs b"
  shows "fst (serve_upstream e h r w g) \<and> probe_lost (circuitBreaker (snd (snd (serve_upstream e h r w g))))"
  using assms
  by (simp add: serve_upstream_def AllowRequest_def AllowRequest_locked_def record_upstream_def director_host_def probe_lost_def Let_def)

section \<open>Requests that reach the upstream\<close>

text \<open>What the steps before the breaker leave alone.\<close>

definition same_upstream :: "('l, 'd, 'k, 'r, 's) gateway \<Rightarrow> ('l, 'd, 'k, 'r, 's) gateway \<Rightarrow> bool" where
  "same_upstream g g' \<longleftrightarrow> circuitBreaker g' = circuitBreaker g \<and> smartCache g' = smartCache g \<and>
     cfgManager g' = cfgManager g \<and> forwarded g' = forwarded g"

lemma serve_limited_upstream:
  assumes "forwarded (snd (snd (serve_limited e h k tn t r w g))) \<noteq> forwarded g"
  shows "\<exists>w' g'. serve_limited e h k tn t r w g = serve_upstream e h r w' g' \<and> same_upstream g g'"
proof -
  obtain res lm where ch: "redis_Check (gw_limiter g) (limit_call e k tn t) = (res, lm)" by (rule prod.exhaust)
  let ?w = "w\<lparr>w_Header := ApplyHeaders res (w_Header w)\<rparr>"
  let ?g = "g\<lparr>gw_limiter := lm, gw_metrics := RecordRequest tn (Status res) (gw_metrics g)\<rparr>"
  let ?g' = "if Status res = ''BURST'' then bill_burst e k tn ?g else ?g"
  have "same_upstream g ?g'" by (simp add: same_upstream_def bill_burst_same)
  moreover have "serve_limited e h k tn t r w g = serve_upstream e h r ?w ?g'"
    using assms ch by (auto simp: serve_limited_def bill_burst_same Let_def split: option.splits if_splits)
  ultimately show ?thesis by blast
qed

lemma serveInternal_client:
  "forwarded (snd (snd (serveInternal e h r w g))) \<noteq> forwarded g \<Longrightarrow>
     r_Path r \<noteq> ''/healthz'' \<and> \<not> is_page_path (r_Path r) \<and> \<not> is_admin_path (r_Path r) \<and>
     serveInternal e h r w g = serve_client e h r w g"
  by (auto simp: serveInternal_def admin_forwarded split: if_splits)

lemma ServeHTTP_forwarded:
  assumes "forwarded (snd (snd (ServeHTTP e h r w g))) \<noteq> forwarded g"
  obtains w' where "ServeHTTP e h r w g = serve_client e h r w' g" "w_sent w' = w_sent w"
    and "forwarded (snd (snd (serve_client e h r w' g))) \<noteq> forwarded g"
    and "r_Path r \<noteq> ''/healthz'' \<and> \<not> is_page_path (r_Path r) \<and> \<not> is_admin_path (r_Path r)"
proof (cases rule: ServeHTTP_cases [of e h r w g])
  case (served w')
  then show ?thesis using assms serveInternal_client [of e h r w' g] that by metis
qed (use assms in simp)

lemma ServeHTTP_upstream:
  assumes "forwarded (snd (snd (ServeHTTP e h r w g))) \<noteq> forwarded g"
  shows "\<exists>w' g'. ServeHTTP e h r w g = serve_upstream e h r w' g' \<and> same_upstream g g'"
proof -
  from assms obtain w' where sv: "ServeHTTP e h r w g = serve_client e h r w' g"
    and fw: "forwarded (snd (snd (serve_client e h r w' g))) \<noteq> forwarded g" by (rule ServeHTTP_forwarded)
  let ?k = "hdr_get (r_Header r) ''X-API-Key''"
  let ?g = "g\<lparr>gw_repo := snd (GetAPIKey (lib e) (gw_repo g) ?k)\<rparr>"
  from serve_client_forwarded [OF fw] obtain tn t where
    cl: "serve_client e h r w' g = serve_signed e h ?k tn t r w' ?g"
    and fs: "forwarded (snd (snd (serve_signed e h ?k tn t r w' ?g))) \<noteq> forwarded ?g" by (auto simp: Let_def)
  note sg = serve_signed_forwarded [OF fs]
  from serve_limited_upstream [OF conjunct1 [OF sg]] obtain w'' g' where
    "serve_limited e h ?k tn t r w' ?g = serve_upstream e h r w'' g'" and "same_upstream ?g g'" by blast
  moreover from sg have "serve_signed e h ?k tn t r w' ?g = serve_limited e h ?k tn t r w' ?g" by blast
  ultimately show ?thesis unfolding sv cl by (intro exI [of _ w''] exI [of _ g']) (simp add: same_upstream_def)
qed

section \<open>The cache fallback\<close>

lemma AllowRequest_threshold: "latencyThreshold (snd (AllowRequest now cb)) = latencyThreshold cb"
  by (simp add: AllowRequest_def AllowRequest_locked_def split: CircuitState.split)

lemma serve_upstream_caches:
  assumes "fst (fst (AllowRequest (clk e AtBreaker) (circuitBreaker g)))"
    and "upstream e (director_host e h g) r = UpResponse code hs b" and "200 \<le> code" and "code < 400"
    and "time_sub (clk e AtEnd) (clk e AtStart) < latencyThreshold (circuitBreaker g)"
  shows "\<exists>entry. cache_Get (cache_key r) (smartCache (snd (snd (serve_upstream e h r w g)))) = Some entry \<and>
    StatusCode entry = code \<and> Body entry = b"
  using assms AllowRequest_threshold [of "clk e AtBreaker" "circuitBreaker g"]
  by (auto simp: serve_upstream_def finish_upstream_def record_upstream_def director_host_def NewResponseRecorder_def
      rec_Write_def rec_WriteHeader_def LatencyThreshold_def Get_Set Let_def split: prod.splits)

text \<open>The step has no usable answer of the upstream.\<close>

definition upstream_fails :: "req_env \<Rightarrow> string \<Rightarrow> http_request \<Rightarrow> ('l, 'd, 'k, 'r, 's) gateway \<Rightarrow> bool" where
  "upstream_fails e h r g \<longleftrightarrow>
     \<not> fst (fst (AllowRequest (clk e AtBreaker) (circuitBreaker g))) \<or>
     (case upstream e (director_host e h g) r of
        UpError _ \<Rightarrow> True
      | UpResponse code _ _ \<Rightarrow> 500 \<le> code \<or> latencyThreshold (circuitBreaker g) \<le> time_sub (clk e AtEnd) (clk e AtStart)
      | UpAborted _ _ _ \<Rightarrow> False)"

lemma serve_upstream_fallback:
  assumes "upstream_fails e h r g" and "cache_Get (cache_key r) (smartCache g) = Some entry"
  shows "\<exists>g'. serve_upstream e h r w g = serve_stale entry w g'"
  using assms AllowRequest_threshold [of "clk e AtBreaker" "circuitBreaker g"]
  by (auto simp: upstream_fails_def serve_upstream_def finish_upstream_def record_upstream_def director_host_def
      handleProxyError_def NewResponseRecorder_def rec_Write_def rec_WriteHeader_def LatencyThreshold_def
      Let_def split: prod.splits upstream_result.splits option.splits)

lemma add_headers_keeps [simp]: "w_sent (add_headers kvs w) = w_sent w" "w_body (add_headers kvs w) = w_body w"
proof -
  have "w_sent (add_values k vs w) = w_sent w \<and> w_body (add_values k vs w) = w_body w" for k vs w
    by (induction k vs w rule: add_values.induct) simp_all
  then show "w_sent (add_headers kvs w) = w_sent w" "w_body (add_headers kvs w) = w_body w"
    by (induction kvs w rule: add_headers.induct) simp_all
qed

lemma serve_stale_sent:
  assumes "w_sent w = None" and "200 \<le> StatusCode entry" and "StatusCode entry < 400"
  shows "\<exists>w' hd g'. serve_stale entry w g = (False, w', g') \<and> w_sent w' = Some (StatusCode entry, hd) \<and>
    hdr_get hd ''X-Cache-Status'' = ''STALE-FALLBACK'' \<and> w_body w' = w_body w @ Body entry"
  using assms
  by (simp add: serve_stale_def serveCachedResponse_def write_answer_def header_panics_def bad_status_def w_Write_def WriteHeader_def
      w_get_set Let_def)

end
