(* ===== verification/Gateway_Samples.thy ===== *)
theory Gateway_Samples
  imports Gateway_Runs
begin

text \<open>
  A small gateway with one key, and requests to it: the concrete inputs at which the properties of
  the whole gateway and of the programs around it are applied.
\<close>

section \<open>Definitions and their values\<close>

definition sample_reqenv :: req_env where
  "sample_reqenv = \<lparr>lib = toy_lib, ufold_rest = (\<lambda>_ _. False), clk = (\<lambda>_. 100 * second), month_of = (\<lambda>_. ''2026-01''),
     rand_id = [], script_delivery = NotSent, server_clock = 0, roll = 0, pick = (\<lambda>_. 0),
     upstream = (\<lambda>_ r. if r_Path r = ''/none'' then UpResponse 404 [] ''missing''
       else if r_Path r = ''/cut'' then UpAborted 200 [] ''da'' else UpResponse 200 [] ''data''),
     parse_host = (\<lambda>u. Some ''up''), metrics_page = (\<lambda>_ w. w), playgroundHTML = [], openAPISpecJSON = [], swaggerUIHTML = (\<lambda>_. []),
     map_order = [HashKey toy_lib ''raw''], meta_order = [], dlq_order = [], sendhook = (\<lambda>_. NetError []), oob = (\<lambda>_. 0),
     time_text = (\<lambda>_. [])\<rparr>"

definition sample_request :: "string \<Rightarrow> http_request" where
  "sample_request p = \<lparr>r_Method = ''GET'', r_Path = p, r_RequestURI = p, r_Header = [(''X-Api-Key'', [''raw''])], r_Body = Some []\<rparr>"

definition sample_gateway :: "(nat, unit, unit, unit, unit) gateway" where
  "sample_gateway = \<lparr>cfgManager = sample_cm, gw_repo = sample_repo, gw_redis = None, gw_limiter = (NewLimiter None [], ()),
     smartCache = fst (NewSmartCache 0), circuitBreaker = NewCircuitBreaker 0 0 0 0, webhookEngine = sample_engine,
     dlq_state = (), gw_metrics = NewMetrics, jitterOverride = - 1, gw_cors = None,
     startedAt = 0, forwarded = []\<rparr>"

lemma sample_headers:
  "hdr_get (r_Header (sample_request p)) ''X-API-Key'' = ''raw''"
  "hdr_get (r_Header (sample_request p)) ''X-Aegis-Signature'' = []"
  by (simp_all add: sample_request_def, code_simp+)

lemma sample_lookup: "GetAPIKey toy_lib sample_repo ''raw'' = (Inr sample_record, sample_repo)"
  by (simp add: GetAPIKey_def sample_repo_def sample_record_def key_verdict_def Let_def)

lemma sample_cfg:
  "cfg sample_cm = defaultConfig\<lparr>Upstream := (Upstream defaultConfig)\<lparr>TargetURL := ''http://up''\<rparr>\<rparr>"
  by (simp add: sample_cm_def NewConfigManager_def loadFromFile_cfg applyEnvOverrides_def
        applyEnvOverridesLocked_def env_overrides_def env_string_def env_port_def sample_env_def defaultConfig_def)

lemma sample_lower: "to_lower (\<lambda>s. s) ''free'' = ''free''"
  by code_simp

lemma sample_tier: "GetTier (\<lambda>s. s) sample_cm ''free'' = Some default_tier"
  by (simp add: GetTier_def sample_cfg defaultConfig_def default_tier_def sample_lower)

lemma sample_check:
   "Status (fst (redis_Check (NewLimiter None [], ()) (limit_call sample_reqenv ''raw'' ''free'' default_tier))) = ''NORMAL''"
  by (code_simp)

lemma sample_serve:
  assumes "gw_repo g = sample_repo" "gw_redis g = None" "gw_cors g = None" "p \<in> {''/x'', ''/none'', ''/cut''}"
    and "GetTier (\<lambda>s. s) (cfgManager g) ''free'' = Some default_tier"
  shows "ServeHTTP sample_reqenv h (sample_request p) w g =
     serve_limited sample_reqenv h ''raw'' ''free'' default_tier (sample_request p) w g"
proof -
  have "Tier sample_record = ''free''" "lib sample_reqenv = toy_lib" "unicode_lower toy_lib = (\<lambda>s. s)"
    by (simp_all add: sample_record_def sample_reqenv_def toy_lib_def)
  moreover have same: "g\<lparr>gw_repo := sample_repo\<rparr> = g" using assms(1) by (cases g) simp
  moreover have "r_Path (sample_request p) = p" by (simp add: sample_request_def)
  moreover have "\<not> is_page_path ''/x''" "\<not> is_admin_path ''/x''" "\<not> is_page_path ''/none''" "\<not> is_admin_path ''/none''"
    "\<not> is_page_path ''/cut''" "\<not> is_admin_path ''/cut''"
    by code_simp+
  ultimately show ?thesis
    using assms(2-) by (auto simp: ServeHTTP_def serveInternal_def serve_client_def serve_signed_def sample_headers
        assms(1) same sample_lookup sample_lower Let_def)
qed

lemma sample_forwarded:
  assumes "fst (fst (AllowRequest (100 * second) cb))" and "p \<in> {''/x'', ''/none'', ''/cut''}"
  shows "forwarded (snd (snd (ServeHTTP sample_reqenv h (sample_request p) w (sample_gateway\<lparr>circuitBreaker := cb\<rparr>)))) = [''up'']"
proof -
  have j: "\<not> jit_Enabled (Jitter (Upstream (cm_Get sample_cm)))"
    by (simp add: cm_Get_def cloneConfig_def sample_cfg defaultConfig_def)
  obtain res lm where ch: "redis_Check (NewLimiter None [], ()) (limit_call sample_reqenv ''raw'' ''free'' default_tier) = (res, lm)"
    by (rule prod.exhaust)
  with sample_check have "Status res = ''NORMAL''" by simp
  with ch j assms sample_serve [of "sample_gateway\<lparr>circuitBreaker := cb\<rparr>" p h w] show ?thesis
    by (simp add: sample_gateway_def sample_tier serve_limited_def IsJitterActive_def serve_upstream_forwarded
        director_host_def sample_reqenv_def Let_def)
qed

definition fresh_breaker :: CircuitBreaker where
  "fresh_breaker = NewCircuitBreaker 0 0 0 0"

lemma fresh_breaker_allows: "fst (fst (AllowRequest now fresh_breaker))"
  by (simp add: fresh_breaker_def AllowRequest_def AllowRequest_locked_def NewCircuitBreaker_def)

lemma sample_gateway_fresh: "sample_gateway\<lparr>circuitBreaker := fresh_breaker\<rparr> = sample_gateway"
  by (simp add: sample_gateway_def fresh_breaker_def)

lemmas sample_forwarded_fresh = sample_forwarded [OF fresh_breaker_allows, unfolded sample_gateway_fresh]

end
