(* ===== verification/Widgets.thy ===== *)
theory Widgets
  imports Metrics
begin

text \<open>
  The building blocks of the terminal console: \<^verbatim>\<open>internal/tui/theme.go\<close>,
  \<^verbatim>\<open>internal/tui/sparkline.go\<close> and \<^verbatim>\<open>internal/tui/modals.go\<close>.

  Lipgloss is a library the source only calls: its operations are the fields of \<open>lipgloss\<close>, over an
  arbitrary type of styles. An index out of range, a negative count of \<open>strings.Repeat\<close> and a
  slice out of range are \<open>None\<close>. Text is in UTF-8.

  Shown: the sparkline and the bar never panic and have the width asked for; a larger sample never
  gets a lower mark, the smallest gets the lowest and the largest the highest.
\<close>

section \<open>Definitions\<close>

subsection \<open>Lipgloss\<close>

datatype border = RoundedBorder | ThickBorder | DoubleBorder
datatype position = PosLeft | PosTop | PosCenter

record 'y lipgloss =
  NewStyle :: 'y
  Bold :: "bool \<Rightarrow> 'y \<Rightarrow> 'y"
  Foreground :: "string \<Rightarrow> 'y \<Rightarrow> 'y"
  Background :: "string \<Rightarrow> 'y \<Rightarrow> 'y"
  Padding :: "int \<Rightarrow> int \<Rightarrow> 'y \<Rightarrow> 'y"
  Border :: "border \<Rightarrow> 'y \<Rightarrow> 'y"
  BorderForeground :: "string \<Rightarrow> 'y \<Rightarrow> 'y"
  Width :: "int \<Rightarrow> 'y \<Rightarrow> 'y"
  Render :: "'y \<Rightarrow> string \<Rightarrow> string"
  JoinHorizontal :: "position \<Rightarrow> string list \<Rightarrow> string"
  JoinVertical :: "position \<Rightarrow> string list \<Rightarrow> string"
  Place :: "int \<Rightarrow> int \<Rightarrow> position \<Rightarrow> position \<Rightarrow> string \<Rightarrow> string"
  HasDarkBackground :: bool

subsection \<open>theme.go\<close>

record Theme =
  th_Name :: string
  th_Primary :: string
  th_Secondary :: string
  th_Accent :: string
  th_Success :: string
  th_Warning :: string
  th_Error :: string
  th_Background :: string
  th_Foreground :: string

definition ThemeDracula :: Theme where
  "ThemeDracula = \<lparr>th_Name = ''Dracula'', th_Primary = ''#BD93F9'', th_Secondary = ''#FF79C6'', th_Accent = ''#8BE9FD'',
     th_Success = ''#50FA7B'', th_Warning = ''#FFB86C'', th_Error = ''#FF5555'', th_Background = ''#282A36'',
     th_Foreground = ''#F8F8F2''\<rparr>"

definition ThemeCatppuccinMocha :: Theme where
  "ThemeCatppuccinMocha = \<lparr>th_Name = ''Catppuccin Mocha'', th_Primary = ''#CBA6F7'', th_Secondary = ''#B4BEFE'',
     th_Accent = ''#89DCEB'', th_Success = ''#A6E3A1'', th_Warning = ''#FAB387'', th_Error = ''#F38BA8'',
     th_Background = ''#1E1E2E'', th_Foreground = ''#CDD6F4''\<rparr>"

definition ThemeMatrixCyberpunk :: Theme where
  "ThemeMatrixCyberpunk = \<lparr>th_Name = ''Matrix Cyberpunk'', th_Primary = ''#00FF66'', th_Secondary = ''#00E5FF'',
     th_Accent = ''#39FF14'', th_Success = ''#00FF00'', th_Warning = ''#FFFF00'', th_Error = ''#FF0055'',
     th_Background = ''#0D1117'', th_Foreground = ''#E6EDF3''\<rparr>"

definition ThemeCatppuccinLatte :: Theme where
  "ThemeCatppuccinLatte = \<lparr>th_Name = ''Catppuccin Latte (Light)'', th_Primary = ''#8839EF'', th_Secondary = ''#7287FD'',
     th_Accent = ''#1E66F5'', th_Success = ''#40A02B'', th_Warning = ''#DF8E1D'', th_Error = ''#D20F39'',
     th_Background = ''#EFF1F5'', th_Foreground = ''#4C4F69''\<rparr>"

definition Themes :: "Theme list" where
  "Themes = [ThemeDracula, ThemeCatppuccinMocha, ThemeMatrixCyberpunk, ThemeCatppuccinLatte]"

definition DetectInitialTheme :: "'y lipgloss \<Rightarrow> nat" where
  "DetectInitialTheme lg = (if \<not> HasDarkBackground lg then 3 else 0)"

record 'y Styles =
  sty_Header :: 'y
  sty_Box :: 'y
  sty_AlertBox :: 'y
  sty_Success :: 'y
  sty_Warning :: 'y
  sty_Error :: 'y
  sty_Primary :: 'y
  sty_Secondary :: 'y
  sty_Dim :: 'y
  sty_Sparkline :: 'y
  sty_Modal :: 'y

definition MakeStyles :: "'y lipgloss \<Rightarrow> Theme \<Rightarrow> 'y Styles" where
  "MakeStyles lg t =
     \<lparr>sty_Header = Padding lg 0 1 (Background lg (th_Background t) (Foreground lg (th_Primary t) (Bold lg True (NewStyle lg)))),
      sty_Box = Padding lg 1 2 (BorderForeground lg (th_Primary t) (Border lg RoundedBorder (NewStyle lg))),
      sty_AlertBox = Padding lg 1 2 (BorderForeground lg (th_Error t) (Border lg ThickBorder (NewStyle lg))),
      sty_Success = Bold lg True (Foreground lg (th_Success t) (NewStyle lg)),
      sty_Warning = Bold lg True (Foreground lg (th_Warning t) (NewStyle lg)),
      sty_Error = Bold lg True (Foreground lg (th_Error t) (NewStyle lg)),
      sty_Primary = Foreground lg (th_Primary t) (NewStyle lg),
      sty_Secondary = Foreground lg (th_Secondary t) (NewStyle lg),
      sty_Dim = Foreground lg ''#6272A4'' (NewStyle lg),
      sty_Sparkline = Foreground lg (th_Accent t) (NewStyle lg),
      sty_Modal = Bold lg True (Padding lg 1 3 (Foreground lg (th_Foreground t) (Background lg (th_Background t)
        (BorderForeground lg (th_Error t) (Border lg DoubleBorder (NewStyle lg))))))\<rparr>"

subsection \<open>sparkline.go\<close>

text \<open>A code point in the range of three bytes of UTF-8.\<close>

definition rune3 :: "nat \<Rightarrow> string" where
  "rune3 c = [char_of (224 + c div 4096), char_of (128 + c div 64 mod 64), char_of (128 + c mod 64)]"

definition sparkChars :: "string list" where
  "sparkChars = '' '' # map rune3 [0x2582, 0x2583, 0x2584, 0x2585, 0x2586, 0x2587, 0x2588]"

definition f_eq :: "float64 \<Rightarrow> float64 \<Rightarrow> bool" where
  "f_eq x y \<longleftrightarrow> f_le x y \<and> f_le y x"

text \<open>The loop for the minimum and the maximum.\<close>

fun min_max :: "float64 list \<Rightarrow> float64 \<times> float64 \<Rightarrow> float64 \<times> float64" where
  "min_max [] mm = mm"
| "min_max (v # vs) (mn, mx) = min_max vs ((if f_lt v mn then v else mn), (if f_lt mx v then v else mx))"

definition spark_index :: "(float64 \<Rightarrow> i64) \<Rightarrow> float64 \<Rightarrow> float64 \<Rightarrow> float64 \<Rightarrow> i64" where
  "spark_index oob minVal maxVal v =
     (let numTicks = int (length sparkChars) - 1;
          ratio = f_div (f_sub v minVal) (f_sub maxVal minVal);
          idx = f_to_int oob (f_mul ratio (f_of_int numTicks));
          idx = (if idx < 0 then 0 else idx)
      in if idx > numTicks then numTicks else idx)"

definition spark_mark :: "(float64 \<Rightarrow> i64) \<Rightarrow> float64 \<Rightarrow> float64 \<Rightarrow> float64 \<Rightarrow> string option" where
  "spark_mark oob minVal maxVal v =
     (if f_eq maxVal minVal then slice_at sparkChars 0 else slice_at sparkChars (spark_index oob minVal maxVal v))"

fun spark_loop :: "(float64 \<Rightarrow> string option) \<Rightarrow> float64 list \<Rightarrow> string \<Rightarrow> string option" where
  "spark_loop mark [] sb = Some sb"
| "spark_loop mark (v # vs) sb = (case mark v of None \<Rightarrow> None | Some c \<Rightarrow> spark_loop mark vs (sb @ c))"

definition no_data :: string where
  "no_data = concat (replicate 20 (rune3 0x2500)) @ '' [No Data]''"

definition RenderSparkline :: "'y lipgloss \<Rightarrow> (float64 \<Rightarrow> i64) \<Rightarrow> float64 list \<Rightarrow> i64 \<Rightarrow> 'y \<Rightarrow> string option" where
  "RenderSparkline lg oob values maxBars style =
     (if values = [] then Some (Render lg style no_data)
      else if maxBars < 0 then None
      else
        (let data = (if int (length values) > maxBars then drop (length values - nat maxBars) values else values)
         in if data = [] then None
            else (let (minVal, maxVal) = min_max data (hd data, hd data)
                  in map_option (Render lg style) (spark_loop (spark_mark oob minVal maxVal) data []))))"

text \<open>\<open>strings.Repeat\<close>.\<close>

definition str_repeat :: "string \<Rightarrow> i64 \<Rightarrow> string option" where
  "str_repeat s n = (if n < 0 then None else Some (concat (replicate (nat n) s)))"

definition filled_len :: "(float64 \<Rightarrow> i64) \<Rightarrow> i64 \<Rightarrow> i64 \<Rightarrow> i64 \<Rightarrow> i64" where
  "filled_len oob current mx width =
     (let mx = (if mx \<le> 0 then 1 else mx);
          current = (if current < 0 then 0 else current);
          current = (if current > mx then mx else current);
          filledLen = f_to_int oob (f_mul (f_div (f_of_int current) (f_of_int mx)) (f_of_int width))
      in if filledLen > width then width else filledLen)"

definition RenderHorizontalBar :: "'y lipgloss \<Rightarrow> (float64 \<Rightarrow> i64) \<Rightarrow> i64 \<Rightarrow> i64 \<Rightarrow> i64 \<Rightarrow> 'y \<Rightarrow> 'y \<Rightarrow> string option" where
  "RenderHorizontalBar lg oob current mx width filledStyle emptyStyle =
     (let filledLen = filled_len oob current mx width;
          emptyLen = wrap64 (width - filledLen)
      in case (str_repeat (rune3 0x2588) filledLen, str_repeat (rune3 0x2591) emptyLen) of
           (Some f, Some s) \<Rightarrow> Some (Render lg filledStyle f @ Render lg emptyStyle s)
         | _ \<Rightarrow> None)"

subsection \<open>modals.go\<close>

datatype ModalType = ModalNone | ModalKillSwitch | ModalBurstFreeze | ModalEmergencyCutoff

record ModalState =
  Active :: bool
  Type :: ModalType
  TargetKey :: string
  modal_Title :: string
  Prompt :: string

text \<open>Line break and the symbols in the texts of the console.\<close>

definition nl :: string where "nl = [CHR 0x0A]"
definition emo_siren :: string where "emo_siren = [CHR 0xF0, CHR 0x9F, CHR 0x9A, CHR 0xA8]"
definition emo_warn :: string where "emo_warn = [CHR 0xE2, CHR 0x9A, CHR 0xA0, CHR 0xEF, CHR 0xB8, CHR 0x8F]"
definition emo_stop :: string where "emo_stop = [CHR 0xF0, CHR 0x9F, CHR 0x9B, CHR 0x91]"

definition NewModalState :: ModalState where
  "NewModalState = \<lparr>Active = False, Type = ModalNone, TargetKey = ''aegis_live_compromised_key_9999'', modal_Title = [], Prompt = []\<rparr>"

definition press_keys :: string where
  "press_keys = nl @ nl @ ''Press [Y] or [Enter] to Execute | [n] or [Esc] to Cancel''"

definition Open :: "ModalType \<Rightarrow> string \<Rightarrow> ModalState \<Rightarrow> ModalState" where
  "Open ty targetKey m =
     (let m = m\<lparr>Active := True, Type := ty\<rparr>;
          m = (if targetKey \<noteq> [] then m\<lparr>TargetKey := targetKey\<rparr> else m)
      in case ty of
           ModalKillSwitch \<Rightarrow>
             m\<lparr>modal_Title := emo_siren @ '' TWO-STEP PANIC SAFETY PROTOCOL: KEY KILL-SWITCH'',
               Prompt := ''CONFIRM KILL-SWITCH for key '' @ TargetKey m @ ''? [Y/n]'' @ nl @ nl @
                 ''This will immediately freeze the key across Redis & Postgres.'' @ press_keys\<rparr>
         | ModalBurstFreeze \<Rightarrow>
             m\<lparr>modal_Title := emo_warn @ '' TWO-STEP PANIC SAFETY PROTOCOL: GLOBAL BURST FREEZE'',
               Prompt := ''CONFIRM GLOBAL BURST FREEZE PLATFORM-WIDE?'' @ nl @ nl @
                 ''This will immediately disable burst quotas for all tiers.'' @ nl @
                 ''All excess traffic will be hard-blocked (HTTP 429).'' @ press_keys\<rparr>
         | ModalEmergencyCutoff \<Rightarrow>
             m\<lparr>modal_Title := emo_stop @ '' TWO-STEP PANIC SAFETY PROTOCOL: EMERGENCY UPSTREAM CUTOFF'',
               Prompt := ''CONFIRM EMERGENCY UPSTREAM CUTOFF?'' @ nl @ nl @
                 ''This will sever live upstream routing and force 100% of'' @ nl @
                 ''traffic immediately to the L1 Smart Fallback Cache.'' @ press_keys\<rparr>
         | ModalNone \<Rightarrow> m)"

definition Close :: "ModalState \<Rightarrow> ModalState" where
  "Close m = m\<lparr>Active := False, Type := ModalNone\<rparr>"

definition RenderModal :: "'y lipgloss \<Rightarrow> ModalState \<Rightarrow> 'y Styles \<Rightarrow> i64 \<Rightarrow> string" where
  "RenderModal lg m styles width =
     (if \<not> Active m then []
      else
        (let content = Render lg (Bold lg True (sty_Error styles)) (modal_Title m) @ nl @ nl @ Prompt m
         in Place lg width 14 PosCenter PosCenter (Render lg (sty_Modal styles) content)))"

section \<open>Sparkline and bar\<close>

lemma sparkChars_length [simp]: "length sparkChars = 8"
  by (simp add: sparkChars_def)

lemma spark_index_range: "0 \<le> spark_index oob a b v \<and> spark_index oob a b v \<le> 7"
  by (simp add: spark_index_def Let_def)

lemma spark_mark_some: "\<exists>c \<in> set sparkChars. spark_mark oob a b v = Some c"
  using spark_index_range [of oob a b v] nth_mem [of "nat (spark_index oob a b v)" sparkChars] nth_mem [of 0 sparkChars]
  by (auto simp: spark_mark_def slice_at_def)

lemma spark_loop_some:
  assumes "\<And>v. \<exists>c \<in> C. mark v = Some c"
  shows "\<exists>cs. spark_loop mark vs sb = Some (sb @ concat cs) \<and> map Some cs = map mark vs \<and> set cs \<subseteq> C"
proof (induction vs arbitrary: sb)
  case (Cons v vs)
  from assms obtain c where c: "c \<in> C" "mark v = Some c" by blast
  from Cons.IH [of "sb @ c"] obtain cs where
    "spark_loop mark vs (sb @ c) = Some ((sb @ c) @ concat cs)" "map Some cs = map mark vs" "set cs \<subseteq> C" by blast
  with c show ?case by (intro exI [of _ "c # cs"]) simp
qed simp

text \<open>Over finite values the loop finds the bounds of the data, and both are among the data.\<close>

lemma min_max_bounds:
  assumes "\<forall>v \<in> set vs. \<exists>q. v = Fin q" and "min_max vs (Fin a, Fin b) = (mn, mx)" and "a \<le> b"
  shows "\<exists>p q. mn = Fin p \<and> mx = Fin q \<and> p \<le> a \<and> b \<le> q \<and> (\<forall>v. Fin v \<in> set vs \<longrightarrow> p \<le> v \<and> v \<le> q) \<and>
    mn \<in> insert (Fin a) (set vs) \<and> mx \<in> insert (Fin b) (set vs)"
  using assms
proof (induction vs arbitrary: a b)
  case (Cons v vs)
  from Cons.prems(1) obtain q where v: "v = Fin q" by auto
  let ?a = "if q < a then q else a" and ?b = "if b < q then q else b"
  have "min_max vs (Fin ?a, Fin ?b) = (mn, mx)"
    using Cons.prems(2) by (auto simp: v f_lt_def split: if_splits)
  moreover have "?a \<le> ?b" using Cons.prems(3) by auto
  moreover have "\<forall>v \<in> set vs. \<exists>q. v = Fin q" using Cons.prems(1) by simp
  ultimately obtain p r where
    *: "mn = Fin p" "mx = Fin r" "p \<le> ?a" "?b \<le> r" "\<forall>u. Fin u \<in> set vs \<longrightarrow> p \<le> u \<and> u \<le> r"
    "mn \<in> insert (Fin ?a) (set vs)" "mx \<in> insert (Fin ?b) (set vs)"
    using Cons.IH [of ?a ?b] by blast
  show ?case
  proof (intro exI conjI)
    show "mn = Fin p" "mx = Fin r" by fact+
    show "p \<le> a" "b \<le> r" using *(3,4) by (auto split: if_splits)
    show "\<forall>u. Fin u \<in> set (v # vs) \<longrightarrow> p \<le> u \<and> u \<le> r" using *(3-5) by (auto simp: v split: if_splits)
    show "mn \<in> insert (Fin a) (set (v # vs))" "mx \<in> insert (Fin b) (set (v # vs))"
      using *(6,7) by (auto simp: v split: if_splits)
  qed
qed auto

text \<open>Float64 values are multiples of \<open>2^(-1074)\<close>, so their differences do not round to zero.\<close>

lemma f_ok_grid:
  assumes "f_ok (Fin q)"
  shows "\<exists>k. q = of_int k * two_pow (- 1074)"
proof (cases "q = 0")
  case False
  let ?u = "ulp_exp q"
  have "0 \<le> ?u + 1074" by (simp add: ulp_exp_def)
  then have "two_pow ?u = of_int (2 ^ nat (?u + 1074)) * two_pow (- 1074)"
    using two_pow_add [of "?u + 1074" "- 1074"] two_pow_int [of "?u + 1074"] by simp
  moreover have "q = of_int (round_even (q / two_pow ?u)) * two_pow ?u"
    using assms False by (simp add: f_ok_def round_rat_def)
  ultimately have "q = of_int (round_even (q / two_pow ?u) * 2 ^ nat (?u + 1074)) * two_pow (- 1074)"
    by (metis mult.assoc of_int_mult)
  then show ?thesis by blast
qed (intro exI [of _ 0], simp)

lemma diff_rounds_pos:
  assumes "f_ok (Fin a)" and "f_ok (Fin b)" and "a < b"
  shows "0 < round_rat (b - a)"
proof -
  let ?t = "two_pow (- 1074)"
  obtain i j where ij: "a = of_int i * ?t" "b = of_int j * ?t" using f_ok_grid assms(1,2) by metis
  with assms(3) have "i < j" by (simp add: mult_less_cancel_right)
  then have "of_int 1 \<le> (of_int (j - i) :: rat)" by (simp only: of_int_le_iff)
  then have "of_int 1 * ?t \<le> of_int (j - i) * ?t" by (rule mult_right_mono) simp
  then have "?t \<le> of_int (j - i) * ?t" by simp
  then have "?t \<le> b - a" by (simp add: ij left_diff_distrib)
  then have "round_rat ?t \<le> round_rat (b - a)" by (rule dbl.mono)
  moreover have "round_rat ?t = ?t" using round_rat_grid [of 1 "- 1074"] by simp
  ultimately show ?thesis using two_pow_pos [of "- 1074"] by linarith
qed

lemma fl_below: "0 \<le> x \<Longrightarrow> x \<le> of_int n \<Longrightarrow> \<bar>n\<bar> \<le> 2 ^ 53 \<Longrightarrow> fl x = Fin (round_rat x) \<and> 0 \<le> round_rat x \<and> round_rat x \<le> of_int n"
proof -
  assume x: "0 \<le> x" "x \<le> of_int n" and n: "\<bar>n\<bar> \<le> 2 ^ 53"
  have b: "0 \<le> round_rat x" "round_rat x \<le> of_int n"
    using dbl.nonneg [OF x(1)] dbl.le_fixed [OF x(2) dbl.exact_int [OF n]] by simp_all
  have "(of_int n :: rat) \<le> of_int (2 ^ 53)" using n by (simp only: of_int_le_iff)
  then have "round_rat x < 2 ^ 1024" using b by simp
  with b show ?thesis by (simp add: fl_def Let_def)
qed

text \<open>The index before clamping, over finite data of finite spread.\<close>

lemma spark_index_value:
  assumes "f_ok (Fin mn)" and "f_ok (Fin mx)" and "mn < mx" and "round_rat (mx - mn) < 2 ^ 1024"
    and "mn \<le> v" and "v \<le> mx"
  shows "spark_index oob (Fin mn) (Fin mx) (Fin v) =
    rat_trunc (round_rat (round_rat (round_rat (v - mn) / round_rat (mx - mn)) * 7))"
    and "round_rat (round_rat (v - mn) / round_rat (mx - mn)) \<le> 1" and "0 \<le> round_rat (round_rat (v - mn) / round_rat (mx - mn))"
proof -
  let ?d = "round_rat (mx - mn)" and ?x = "round_rat (v - mn)"
  let ?q = "round_rat (?x / ?d)"
  have d: "0 < ?d" using diff_rounds_pos assms(1-3) by blast
  have x: "0 \<le> ?x" "?x \<le> ?d" using assms(5,6) by (auto intro: dbl.nonneg dbl.mono)
  then have "fl (v - mn) = Fin ?x" "fl (mx - mn) = Fin ?d" using assms(4) d by (auto simp: fl_def Let_def)
  moreover have "0 \<le> ?x / ?d" "?x / ?d \<le> of_int 1" using x d by simp_all
  note q = fl_below [OF this]
  moreover from q show "?q \<le> 1" "0 \<le> ?q" by simp_all
  then have "0 \<le> ?q * 7" "?q * 7 \<le> of_int 7" by simp_all
  note r = fl_below [OF this]
  moreover have "f_of_int 7 = Fin 7" using f_of_int_exact [of 7] by simp
  moreover have "0 \<le> rat_trunc (round_rat (?q * 7))" "rat_trunc (round_rat (?q * 7)) \<le> 7"
    using r rat_trunc_mono [of "round_rat (?q * 7)" 7] by (simp_all add: rat_trunc_def)
  ultimately show "spark_index oob (Fin mn) (Fin mx) (Fin v) = rat_trunc (round_rat (?q * 7))"
    using d by (simp add: spark_index_def f_sub_def f_to_int_def in_i64_def Let_def)
qed

lemma spark_index_mono:
  assumes "f_ok (Fin mn)" and "f_ok (Fin mx)" and "mn < mx" and "round_rat (mx - mn) < 2 ^ 1024"
    and "mn \<le> u" and "u \<le> v" and "v \<le> mx"
  shows "spark_index oob (Fin mn) (Fin mx) (Fin u) \<le> spark_index oob (Fin mn) (Fin mx) (Fin v)"
proof -
  have d: "0 < round_rat (mx - mn)" using diff_rounds_pos assms(1-3) by blast
  have "round_rat (round_rat (u - mn) / round_rat (mx - mn)) \<le> round_rat (round_rat (v - mn) / round_rat (mx - mn))"
    using assms(6) d by (intro dbl.mono divide_right_mono) simp_all
  then have "round_rat (round_rat (round_rat (u - mn) / round_rat (mx - mn)) * 7)
      \<le> round_rat (round_rat (round_rat (v - mn) / round_rat (mx - mn)) * 7)"
    by (rule dbl.mono [OF mult_right_mono]) simp
  moreover have "0 \<le> round_rat (round_rat (round_rat (u - mn) / round_rat (mx - mn)) * 7)"
    using spark_index_value(3) [OF assms(1-5)] assms(6,7) by (intro dbl.nonneg) simp
  ultimately show ?thesis
    using spark_index_value(1) [OF assms(1-5)] spark_index_value(1) [OF assms(1-4)] assms(5-7) rat_trunc_mono by auto
qed

lemma spark_index_ends:
  assumes "f_ok (Fin mn)" and "f_ok (Fin mx)" and "mn < mx" and "round_rat (mx - mn) < 2 ^ 1024"
  shows "spark_index oob (Fin mn) (Fin mx) (Fin mn) = 0" and "spark_index oob (Fin mn) (Fin mx) (Fin mx) = 7"
proof -
  have "0 < round_rat (mx - mn)" using diff_rounds_pos assms(1-3) by blast
  moreover have "round_rat 7 = 7" using dbl.exact_int [of 7] by simp
  ultimately show "spark_index oob (Fin mn) (Fin mx) (Fin mn) = 0" "spark_index oob (Fin mn) (Fin mx) (Fin mx) = 7"
    using spark_index_value(1) [OF assms] assms(3) by (simp_all add: dbl.zero dbl.one rat_trunc_def)
qed

lemma spread_small:
  assumes "\<bar>p\<bar> < 2 ^ 1022" and "\<bar>q\<bar> < 2 ^ 1022"
  shows "round_rat (q - p) < 2 ^ 1024"
proof -
  have f: "round_rat (two_pow 1023) = two_pow 1023" using round_rat_grid [of 1 1023] by simp
  have "q - p \<le> two_pow 1023" using assms by (simp add: two_pow_def abs_less_iff)
  then have "round_rat (q - p) \<le> two_pow 1023" using f by (rule dbl.le_fixed)
  then show ?thesis by (simp add: two_pow_def)
qed

definition plain_sample :: "float64 \<Rightarrow> bool" where
  "plain_sample v \<longleftrightarrow> (case v of Fin q \<Rightarrow> f_ok (Fin q) \<and> \<bar>q\<bar> < 2 ^ 1022 | _ \<Rightarrow> False)"

lemma plain_sampleE: "plain_sample v \<Longrightarrow> \<exists>q. v = Fin q \<and> f_ok (Fin q) \<and> \<bar>q\<bar> < 2 ^ 1022"
  by (cases v) (simp_all add: plain_sample_def)

definition spark_level :: "(float64 \<Rightarrow> i64) \<Rightarrow> float64 \<Rightarrow> float64 \<Rightarrow> float64 \<Rightarrow> nat" where
  "spark_level oob mn mx v = (if f_eq mx mn then 0 else nat (spark_index oob mn mx v))"

lemma spark_level_mono:
  assumes "\<forall>v \<in> set data. plain_sample v" and "data \<noteq> []" and "min_max data (hd data, hd data) = (mn, mx)"
    and "u \<in> set data" and "v \<in> set data" and "u \<le> v"
  shows "spark_level oob mn mx u \<le> spark_level oob mn mx v"
proof -
  from assms(1,2) plain_sampleE obtain h where h: "hd data = Fin h" by (meson list.set_sel(1))
  have fin: "\<forall>v \<in> set data. \<exists>q. v = Fin q" using assms(1) plain_sampleE by blast
  from min_max_bounds [OF fin, of h h mn mx] assms(3) h obtain p q where
    pq: "mn = Fin p" "mx = Fin q" "\<forall>v. Fin v \<in> set data \<longrightarrow> p \<le> v \<and> v \<le> q"
    and mem: "mn \<in> set data" "mx \<in> set data"
    using list.set_sel(1) [OF assms(2)] by auto
  have "plain_sample (Fin p)" "plain_sample (Fin q)" using mem pq(1,2) assms(1) by blast+
  then have ok: "f_ok (Fin p)" "f_ok (Fin q)" "\<bar>p\<bar> < 2 ^ 1022" "\<bar>q\<bar> < 2 ^ 1022"
    by (simp_all only: plain_sample_def float64.case)
  note sp = spread_small [OF ok(3,4)]
  from fin assms(4,5) obtain a b where ab: "u = Fin a" "v = Fin b" by blast
  with assms(6) have le: "a \<le> b" by (simp add: less_eq_float64_def)
  show ?thesis
  proof (cases "p < q")
    case True
    have "spark_index oob (Fin p) (Fin q) (Fin a) \<le> spark_index oob (Fin p) (Fin q) (Fin b)"
      using pq(3) ab le assms(4,5) by (intro spark_index_mono ok(1,2) True sp) blast+
    then show ?thesis by (simp only: spark_level_def pq(1,2) ab(1,2)) (simp add: nat_mono)
  next
    case False
    with pq mem have "f_eq mx mn" by (auto simp: f_eq_def)
    then show ?thesis by (simp add: spark_level_def)
  qed
qed

lemma f_of_int_i64: "in_i64 n \<Longrightarrow> f_of_int n = Fin (round_rat (of_int n)) \<and> \<bar>round_rat (of_int n)\<bar> \<le> 2 ^ 63"
proof -
  assume "in_i64 n"
  then have n: "(of_int n :: rat) \<le> of_int (2 ^ 63)" "of_int (- (2 ^ 63)) \<le> (of_int n :: rat)"
    by (simp_all only: of_int_le_iff) (simp_all add: in_i64_def)
  have f: "round_rat (of_int (2 ^ 63)) = of_int (2 ^ 63)" "round_rat (of_int (- (2 ^ 63))) = of_int (- (2 ^ 63))"
    using round_rat_grid [of 1 63] round_rat_neg [of "2 ^ 63"] by (simp_all add: two_pow_def)
  have "round_rat (of_int n) \<le> of_int (2 ^ 63)" "of_int (- (2 ^ 63)) \<le> round_rat (of_int n)"
    using dbl.le_fixed [OF n(1) f(1)] dbl.ge_fixed [OF n(2) f(2)] by simp_all
  then have b: "\<bar>round_rat (of_int n)\<bar> \<le> 2 ^ 63" by (simp add: abs_le_iff)
  then have "round_rat (of_int n) < 2 ^ 1024" "- (2 ^ 1024) < round_rat (of_int n)" by (simp_all add: abs_le_iff)
  with b show ?thesis by (simp add: f_of_int_def fl_def Let_def)
qed

text \<open>The length of the filled part, for bounds already put in order.\<close>

lemma filled_ratio:
  assumes "0 \<le> c" and "c \<le> m" and "1 \<le> m" and "in_i64 m" and "0 \<le> w" and "w \<le> 2 ^ 53"
  shows "f_to_int oob (f_mul (f_div (f_of_int c) (f_of_int m)) (f_of_int w)) =
      rat_trunc (round_rat (round_rat (round_rat (of_int c) / round_rat (of_int m)) * of_int w))"
    and "0 \<le> rat_trunc (round_rat (round_rat (round_rat (of_int c) / round_rat (of_int m)) * of_int w))"
    and "rat_trunc (round_rat (round_rat (round_rat (of_int c) / round_rat (of_int m)) * of_int w)) \<le> w"
proof -
  let ?c = "round_rat (of_int c)" and ?m = "round_rat (of_int m)"
  let ?q = "round_rat (?c / ?m)"
  have m: "1 \<le> ?m" using assms(3) by (intro dbl.ge_one) simp
  have c: "0 \<le> ?c" "?c \<le> ?m" using assms(1,2) by (auto intro: dbl.nonneg dbl.mono)
  have ci: "in_i64 c" using assms(1,2,4) by (simp add: in_i64_def)
  have "0 \<le> ?c / ?m" "?c / ?m \<le> of_int 1" using c m by simp_all
  note q = fl_below [OF this]
  then have "0 \<le> ?q * of_int w" "?q * of_int w \<le> of_int w" using assms(5) by (simp_all add: mult_left_le_one_le)
  note r = fl_below [OF this]
  have tw: "rat_trunc (of_int w) = w" using assms(5) by (simp add: rat_trunc_def)
  show t: "0 \<le> rat_trunc (round_rat (?q * of_int w))" "rat_trunc (round_rat (?q * of_int w)) \<le> w"
    using r assms(5,6) rat_trunc_mono [of "round_rat (?q * of_int w)" "of_int w"] tw by (simp_all add: rat_trunc_def)
  have "f_of_int w = Fin (of_int w)" using f_of_int_exact [of w] assms(5,6) by simp
  with t q r m assms(5,6) f_of_int_i64 [OF ci] f_of_int_i64 [OF assms(4)]
  show "f_to_int oob (f_mul (f_div (f_of_int c) (f_of_int m)) (f_of_int w)) = rat_trunc (round_rat (?q * of_int w))"
    by (simp add: f_to_int_def in_i64_def)
qed

lemma spark_level_lt: "spark_level oob mn mx v < 8"
  using spark_index_range [of oob mn mx v] by (auto simp: spark_level_def)

lemma RenderSparkline_levels:
  assumes "values \<noteq> []" and "0 < maxBars" and "data = lastn (nat maxBars) values"
    and "min_max data (hd data, hd data) = (mn, mx)"
  shows "RenderSparkline lg oob values maxBars style =
    Some (Render lg style (concat (map (\<lambda>l. sparkChars ! l) (map (spark_level oob mn mx) data))))"
proof -
  have data: "(if int (length values) > maxBars then drop (length values - nat maxBars) values else values) = data"
    using assms(2,3) by (auto simp: lastn_def)
  have ne: "data \<noteq> []" using assms(1-3) by (cases "values") (auto simp: lastn_def)
  have mark: "spark_mark oob mn mx v = Some (sparkChars ! spark_level oob mn mx v)" for v
    using spark_index_range [of oob mn mx v] by (auto simp: spark_mark_def spark_level_def slice_at_def)
  from spark_loop_some [of "set sparkChars" "spark_mark oob mn mx" data "[]"] spark_mark_some obtain cs where
    cs: "spark_loop (spark_mark oob mn mx) data [] = Some (concat cs)" "map Some cs = map (spark_mark oob mn mx) data"
    by fastforce
  have "map Some cs = map Some (map (\<lambda>v. sparkChars ! spark_level oob mn mx v) data)" using cs(2) by (simp add: mark)
  then have "cs = map (\<lambda>v. sparkChars ! spark_level oob mn mx v) data" by (simp only: inj_map_eq_map [OF inj_Some])
  then show ?thesis using assms(1,2,4) cs(1) ne by (simp add: RenderSparkline_def data comp_def)
qed

lemma RenderSparkline_total:
  assumes "0 < maxBars"
  shows "RenderSparkline lg oob values maxBars style \<noteq> None"
proof (cases "values = []")
  case False
  let ?data = "lastn (nat maxBars) values"
  obtain mn mx where m: "min_max ?data (hd ?data, hd ?data) = (mn, mx)" by (rule prod.exhaust)
  from RenderSparkline_levels [OF False assms refl m, of lg oob style] show ?thesis by simp
qed (simp add: RenderSparkline_def)

lemma bar_cells:
  assumes "in_i64 mx" and "0 \<le> width" and "width \<le> 2 ^ 53"
  shows "\<exists>n. int n = filled_len oob current mx width \<and> int n \<le> width \<and>
    RenderHorizontalBar lg oob current mx width fs es =
      Some (Render lg fs (concat (replicate n (rune3 0x2588))) @ Render lg es (concat (replicate (nat width - n) (rune3 0x2591))))"
proof -
  let ?m = "if mx \<le> 0 then 1 else mx"
  let ?c = "if (if current < 0 then 0 else current) > ?m then ?m else (if current < 0 then 0 else current)"
  have cm: "0 \<le> ?c" "?c \<le> ?m" "1 \<le> ?m" "in_i64 ?m" using assms(1) by (auto simp: in_i64_def)
  note f = filled_ratio(1) [OF cm assms(2,3), of oob] filled_ratio(2,3) [OF cm assms(2,3)]
  then have n: "0 \<le> filled_len oob current mx width" "filled_len oob current mx width \<le> width"
    by (simp_all add: filled_len_def Let_def)
  then have "in_i64 (width - filled_len oob current mx width)" using assms(2,3) by (simp add: in_i64_def)
  with n show ?thesis
    by (intro exI [of _ "nat (filled_len oob current mx width)"])
      (simp add: RenderHorizontalBar_def str_repeat_def wrap64_id nat_diff_distrib Let_def)
qed

section \<open>Properties\<close>

text \<open>
  The sparkline. For any samples, NaN and infinities included, and any positive width,
  rendering never indexes out of range and draws one of the eight marks for each of the last
  \<open>maxBars\<close> samples; and when these are ordinary numbers, a sample that is not smaller never gets a
  lower mark, in float64 arithmetic with its rounding.
\<close>

theorem sparkline_marks:
  assumes "values \<noteq> []" and "0 < maxBars" and "data = lastn (nat maxBars) values"
  shows "\<exists>ls. RenderSparkline lg oob values maxBars style = Some (Render lg style (concat (map (\<lambda>l. sparkChars ! l) ls))) \<and>
    length ls = length data \<and> (\<forall>l \<in> set ls. l < 8) \<and>
    ((\<forall>v \<in> set data. plain_sample v) \<longrightarrow>
      (\<forall>i < length data. \<forall>j < length data. data ! i \<le> data ! j \<longrightarrow> ls ! i \<le> ls ! j))"
proof -
  have ne: "data \<noteq> []" using assms by (cases "values") (auto simp: lastn_def)
  obtain mn mx where mm: "min_max data (hd data, hd data) = (mn, mx)" by (rule prod.exhaust)
  let ?l = "spark_level oob mn mx"
  have "(\<forall>v \<in> set data. plain_sample v) \<longrightarrow>
      (\<forall>i < length data. \<forall>j < length data. data ! i \<le> data ! j \<longrightarrow> map ?l data ! i \<le> map ?l data ! j)"
    using spark_level_mono [OF _ ne mm] by simp
  with RenderSparkline_levels [OF assms mm, of lg oob style] spark_level_lt [of oob mn mx] show ?thesis
    by (intro exI [of _ "map ?l data"]) simp
qed

text \<open>A library without styles, for the witnesses.\<close>

definition toy_lipgloss :: "unit lipgloss" where
  "toy_lipgloss = \<lparr>NewStyle = (), Bold = (\<lambda>_ s. s), Foreground = (\<lambda>_ s. s), Background = (\<lambda>_ s. s), Padding = (\<lambda>_ _ s. s),
     Border = (\<lambda>_ s. s), BorderForeground = (\<lambda>_ s. s), Width = (\<lambda>_ s. s), Render = (\<lambda>_ x. x),
     JoinHorizontal = (\<lambda>_ xs. concat xs), JoinVertical = (\<lambda>_ xs. concat xs), Place = (\<lambda>_ _ _ _ x. x),
     HasDarkBackground = True\<rparr>"

theorem sparkline_marks_witness:
  "\<exists>ls. RenderSparkline toy_lipgloss (\<lambda>_. 0) [NaN, Fin 1, PInf] 2 () =
      Some (Render toy_lipgloss () (concat (map (\<lambda>l. sparkChars ! l) ls))) \<and> length ls = 2"
  using sparkline_marks [of "[NaN, Fin 1, PInf]" 2 "[Fin 1, PInf]" toy_lipgloss "\<lambda>_. 0" "()"] by (force simp: lastn_def)

text \<open>
  The bar meter. For every pair of int64 counts, also negative ones, zero totals and counts above the
  total, the bar never repeats a negative number of times and is exactly \<open>width\<close> cells
  wide; no traffic leaves it empty and the full total fills it.
\<close>

theorem bar_width:
  assumes "in_i64 current" and "in_i64 mx" and "0 \<le> width" and "width \<le> 2 ^ 53"
  shows "\<exists>n. RenderHorizontalBar lg oob current mx width fs es =
      Some (Render lg fs (concat (replicate n (rune3 0x2588))) @ Render lg es (concat (replicate (nat width - n) (rune3 0x2591)))) \<and>
    int n \<le> width \<and> (current \<le> 0 \<longrightarrow> n = 0) \<and> (max mx 1 \<le> current \<longrightarrow> int n = width)"
proof -
  from bar_cells [OF assms(2-4), of oob current lg fs es] obtain n where
    n: "int n = filled_len oob current mx width" "int n \<le> width" "RenderHorizontalBar lg oob current mx width fs es =
      Some (Render lg fs (concat (replicate n (rune3 0x2588))) @ Render lg es (concat (replicate (nat width - n) (rune3 0x2591))))"
    by blast
  have "n = 0" if "current \<le> 0"
  proof -
    have "f_to_int oob (f_mul (f_div (f_of_int 0) (f_of_int (if mx \<le> 0 then 1 else mx))) (f_of_int width)) = 0"
      using filled_ratio(1) [of 0 "if mx \<le> 0 then 1 else mx" width oob] assms(2-4)
      by (simp add: dbl.zero rat_trunc_def in_i64_def)
    then show ?thesis using that n(1) assms(3) by (auto simp: filled_len_def Let_def split: if_splits)
  qed
  moreover have "int n = width" if "max mx 1 \<le> current"
  proof -
    let ?m = "if mx \<le> 0 then 1 else mx"
    have m: "1 \<le> ?m" "in_i64 ?m" using assms(2) by (auto simp: in_i64_def)
    have "1 \<le> round_rat (of_int ?m)" by (rule dbl.ge_one) (use m in simp)
    then have "round_rat (of_int ?m) / round_rat (of_int ?m) = 1" by simp
    moreover have "round_rat (of_int width) = of_int width" using assms(3,4) by (intro dbl.exact_int) simp
    ultimately have "f_to_int oob (f_mul (f_div (f_of_int ?m) (f_of_int ?m)) (f_of_int width)) = width"
      using filled_ratio(1) [of ?m ?m width oob] m assms(3,4)
      by (simp only: dbl.one mult_1) (simp add: rat_trunc_def)
    then show ?thesis using that n(1) by (auto simp: filled_len_def Let_def split: if_splits)
  qed
  ultimately show ?thesis using n by blast
qed

theorem bar_width_witness:
  "\<exists>n. RenderHorizontalBar toy_lipgloss (\<lambda>_. 0) 7 0 20 () () =
      Some (Render toy_lipgloss () (concat (replicate n (rune3 0x2588))) @
        Render toy_lipgloss () (concat (replicate (20 - n) (rune3 0x2591)))) \<and> int n = 20"
  using bar_width [of 7 0 20 toy_lipgloss "\<lambda>_. 0" "()" "()"] by (force simp: in_i64_def)

end
