(* ===== verification/Console.thy ===== *)
theory Console
  imports Gateway_Samples Widgets
begin

text \<open>
  \<^verbatim>\<open>internal/tui/app.go\<close> and \<^verbatim>\<open>internal/tui/chaos.go\<close>: the console that runs inside the gateway process.

  \<^item> \<open>Model\<close> holds the console's own fields. The components it points to are those of the
    gateway, whose state is passed along with it.
  \<^item> \<open>Update\<close> handles one message of the Bubble Tea loop: it returns the new model and gateway, the
    command for the loop and the requests that a started goroutine will send; \<open>None\<close> is a panic.
    Those goroutines report through a callback that writes to the copy of the model that \<open>Update\<close> has
    already returned, so what they report is not part of the model.
  \<^item> \<open>View\<close> builds the screen with the operations of \<open>lipgloss\<close>.

  Shown: the console's fields stay in range and neither \<open>Update\<close> nor \<open>View\<close> panics; and nothing but a
  panic hotkey followed by a confirmation changes the keys, the burst freeze or the cutoff.
\<close>

section \<open>Definitions\<close>

subsection \<open>chaos.go\<close>

record client_req =
  cr_Method :: string
  cr_URL :: string
  cr_Header :: http_header
  cr_Body :: bytes

record ChaosEngine =
  ce_gatewayURL :: string

definition NewChaosEngine :: "string \<Rightarrow> ChaosEngine" where
  "NewChaosEngine u = \<lparr>ce_gatewayURL = (if u = [] then ''http://localhost:8080'' else u)\<rparr>"

text \<open>The symbols in the log texts.\<close>

definition emo_rocket :: string where "emo_rocket = [CHR 0xF0, CHR 0x9F, CHR 0x9A, CHR 0x80]"
definition emo_swords :: string where "emo_swords = [CHR 0xE2, CHR 0x9A, CHR 0x94, CHR 0xEF, CHR 0xB8, CHR 0x8F]"
definition emo_check :: string where "emo_check = [CHR 0xE2, CHR 0x9C, CHR 0x85]"
definition emo_cross :: string where "emo_cross = [CHR 0xE2, CHR 0x9D, CHR 0x8C]"
definition emo_zap :: string where "emo_zap = [CHR 0xE2, CHR 0x9A, CHR 0xA1]"
definition emo_palette :: string where "emo_palette = [CHR 0xF0, CHR 0x9F, CHR 0x8E, CHR 0xA8]"
definition emo_forbidden :: string where "emo_forbidden = [CHR 0xF0, CHR 0x9F, CHR 0x9A, CHR 0xAB]"
definition emo_lock :: string where "emo_lock = [CHR 0xF0, CHR 0x9F, CHR 0x94, CHR 0x90]"

definition burst_keys :: "string list" where
  "burst_keys = [''aegis_live_free_key_1001'', ''aegis_live_pro_key_2002'', ''aegis_live_enterprise_key_3003'']"

definition resource_request :: "string \<Rightarrow> string \<Rightarrow> client_req" where
  "resource_request u key =
     \<lparr>cr_Method = ''GET'', cr_URL = u @ ''/api/resource'', cr_Header = hdr_set ''X-API-Key'' key [], cr_Body = []\<rparr>"

text \<open>\<open>rnd\<close> is \<open>rand.Intn(951)\<close>. The requests are sent concurrently, at most 100 at a time.\<close>

definition UnleashBurst :: "i64 \<Rightarrow> i64 \<Rightarrow> ChaosEngine \<Rightarrow> string \<times> client_req list \<times> string" where
  "UnleashBurst rnd n ce =
     (let n = (if n \<le> 0 then 50 + rnd else n)
      in (emo_rocket @ '' [CHAOS] Unleashing burst of '' @ show_int n @
            '' requests (50-1000 RPS range) across Free, Pro, and Enterprise keys...'',
          map (\<lambda>i. resource_request (ce_gatewayURL ce) (burst_keys ! (i mod length burst_keys))) [0..<nat n],
          emo_check @ '' [CHAOS] Traffic burst of '' @ show_int n @ '' requests finished.''))"

definition quoted :: "string \<Rightarrow> string" where
  "quoted s = [dquote] @ s @ [dquote]"

definition replay_body :: bytes where
  "replay_body = ''{'' @ quoted ''action'' @ '':'' @ quoted ''replay_exploit_attempt'' @ '','' @ quoted ''amount'' @ '':1000000}''"

definition signed_request :: "golib \<Rightarrow> string \<Rightarrow> bytes \<Rightarrow> string \<Rightarrow> i64 \<Rightarrow> client_req" where
  "signed_request l u body key timestamp =
     \<lparr>cr_Method = ''POST'', cr_URL = u @ ''/api/transfer'',
      cr_Header = hdr_set ''Content-Type'' ''application/json''
        (hdr_set ''X-Aegis-Signature'' (GenerateSignature l body key timestamp) (hdr_set ''X-API-Key'' key [])),
      cr_Body = body\<rparr>"

text \<open>The log text, the request, and the text for the outcome of sending it.\<close>

definition replay_report :: "http_outcome \<Rightarrow> string" where
  "replay_report o' =
     (case o' of
        BuildError err \<Rightarrow> emo_cross @ '' [CHAOS] Error creating replay request: '' @ err
      | NetError err \<Rightarrow> emo_warn @ '' [CHAOS] Replay request failed: '' @ err
      | HttpResp code _ \<Rightarrow>
          if code = 401 then shield @ '' [CHAOS] Anti-Replay Defense SUCCESS: Request intercepted and rejected (HTTP 401)!''
          else emo_warn @ '' [CHAOS] Replay request returned unexpected status HTTP '' @ show_int code)"

definition InjectReplayAttack :: "golib \<Rightarrow> i64 \<Rightarrow> ChaosEngine \<Rightarrow> string \<times> client_req" where
  "InjectReplayAttack l now ce =
     (let apiKey = ''aegis_live_free_key_1001''
      in (emo_swords @ '' [CHAOS] Injecting simulated Replay Attack with expired timestamp using key ['' @ apiKey @ '']...'',
          signed_request l (ce_gatewayURL ce) replay_body apiKey (wrap64 (now - 500))))"

subsection \<open>The model\<close>

record 'y Model =
  chaos :: ChaosEngine
  themeIdx :: nat
  mstyles :: "'y Styles"
  mwidth :: i64
  mheight :: i64
  modal :: ModalState
  logs :: "string list"
  mrevenue :: float64
  startTime :: gotime

definition NewModel :: "'y lipgloss \<Rightarrow> gotime \<Rightarrow> ChaosEngine \<Rightarrow> 'y Model" where
  "NewModel lg now ce =
     (let initialTheme = DetectInitialTheme lg
      in \<lparr>chaos = ce, themeIdx = initialTheme, mstyles = MakeStyles lg (Themes ! initialTheme), mwidth = 0, mheight = 0,
          modal = NewModalState,
          logs = [shield @ '' AegisPulse Cyber-Deck Cockpit initialized.'',
                  emo_zap @ '' Dual-Threshold Sliding Window active.'',
                  emo_lock @ '' AES-256-GCM Envelope Encryption armed.''],
          mrevenue = Fin 0, startTime = now\<rparr>)"

datatype tea_msg = WindowSizeMsg i64 i64 | TickMsg | LogMsg string | KeyMsg string | OtherMsg

datatype tea_cmd = NoCmd | TickCmd i64 | EnterAltScreen | QuitCmd

definition tickCmd :: tea_cmd where
  "tickCmd = TickCmd (300 * millisecond)"

definition Init :: "tea_cmd list" where
  "Init = [EnterAltScreen, tickCmd]"

text \<open>
  The surroundings of a message: those of the gateway's operations, the clock as text and in
  seconds, a random number, and the text of a duration.
\<close>

record tui_env =
  tenv :: req_env
  stamp :: string
  job_now :: i64
  burst_rnd :: i64
  view_now :: gotime
  dur_text :: "i64 \<Rightarrow> string"

definition addLog :: "string \<Rightarrow> string \<Rightarrow> 'y Model \<Rightarrow> 'y Model" where
  "addLog timestamp msg m =
     (let ls = logs m @ [''['' @ timestamp @ ''] '' @ msg]
      in m\<lparr>logs := (if length ls > 8 then drop 1 ls else ls)\<rparr>)"

definition tui_kill_payload :: "string \<Rightarrow> string" where
  "tui_kill_payload k = ''{'' @ quoted ''action'' @ '':'' @ quoted ''KILL_SWITCH'' @ '','' @ quoted ''target_key'' @ '':'' @ quoted k
     @ '','' @ quoted ''operator'' @ '':'' @ quoted ''tui'' @ ''}''"

definition tui_switch_payload :: "string \<Rightarrow> string \<Rightarrow> bool \<Rightarrow> string" where
  "tui_switch_payload action field b = ''{'' @ quoted ''action'' @ '':'' @ quoted action @ '','' @ quoted field @ '':'' @ bool_text b
     @ '','' @ quoted ''operator'' @ '':'' @ quoted ''tui'' @ ''}''"

type_synonym ('l, 'd, 'k, 'r, 's, 'y) console = "'y Model \<times> ('l, 'd, 'k, 'r, 's) gateway"

definition tui_kill :: "tui_env \<Rightarrow> ('l, 'd, 'k, 'r, 's, 'y) console \<Rightarrow> ('l, 'd, 'k, 'r, 's, 'y) console" where
  "tui_kill te mg =
     (let (m, g) = mg;
          e = tenv te;
          target = TargetKey (modal m);
          g = g\<lparr>gw_repo := snd (FreezeAPIKey (lib e) (map_order e) (clk e AtKeyFreeze) (gw_repo g) target)\<rparr>;
          g = g\<lparr>gw_repo := (gw_repo g)\<lparr>kv := redis_freeze (gw_redis g) [target, HashKey (lib e) target] (kv (gw_repo g))\<rparr>\<rparr>;
          m = addLog (stamp te) (emo_siren @ '' KILL-SWITCH EXECUTED: Compromised key ['' @ target @
                ''] frozen across Redis & Postgres!'') m
      in (m, audit_and_publish e ''KILL_SWITCH_ACTIVATED'' (tui_kill_payload target)
               (admin_event e ''kill_'' ''KILL_SWITCH'' target ''SYSTEM'' ''EMERGENCY KILL-SWITCH CONFIRMED''
                  (''Operator confirmed panic kill-switch for key '' @ target @ ''. Key neutralized platform-wide.'')) g))"

definition tui_burst_freeze :: "tui_env \<Rightarrow> ('l, 'd, 'k, 'r, 's, 'y) console \<Rightarrow> ('l, 'd, 'k, 'r, 's, 'y) console" where
  "tui_burst_freeze te mg =
     (let (m, g) = mg;
          e = tenv te;
          newFrozen = (\<not> redis_IsGlobalBurstFrozen (fst (gw_limiter g)));
          g = g\<lparr>gw_limiter := (redis_SetGlobalBurstFreeze newFrozen (fst (gw_limiter g)), snd (gw_limiter g))\<rparr>;
          m = addLog (stamp te) (emo_warn @ '' GLOBAL BURST FREEZE '' @
                (if newFrozen then ''ACTIVATED (Burst quota locked, 429 enforced)''
                 else ''DEACTIVATED (Normal burst quotas restored)'')) m
      in (m, audit_and_publish e ''GLOBAL_BURST_FREEZE'' (tui_switch_payload ''BURST_FREEZE'' ''frozen'' newFrozen)
               (admin_event e ''freeze_'' ''SECURITY_INCIDENT'' ''SYSTEM'' ''GLOBAL'' ''GLOBAL BURST FREEZE TOGGLED''
                  (''Global burst freeze state set to '' @ bool_text newFrozen)) g))"

definition tui_cutoff :: "tui_env \<Rightarrow> ('l, 'd, 'k, 'r, 's, 'y) console \<Rightarrow> ('l, 'd, 'k, 'r, 's, 'y) console" where
  "tui_cutoff te mg =
     (let (m, g) = mg;
          e = tenv te;
          newCutoff = (\<not> IsEmergencyCutoff (circuitBreaker g));
          g = g\<lparr>circuitBreaker := SetEmergencyCutoff newCutoff (circuitBreaker g)\<rparr>;
          m = addLog (stamp te) (emo_stop @ '' EMERGENCY UPSTREAM CUTOFF '' @
                (if newCutoff then ''ACTIVATED: 100% traffic forced to L1 Fallback Cache''
                 else ''DEACTIVATED: Live upstream routing restored'')) m
      in (m, audit_and_publish e ''EMERGENCY_UPSTREAM_CUTOFF'' (tui_switch_payload ''EMERGENCY_UPSTREAM_CUTOFF'' ''cutoff'' newCutoff)
               (admin_event e ''cutoff_'' ''SECURITY_INCIDENT'' ''SYSTEM'' ''GATEWAY'' ''EMERGENCY UPSTREAM CUTOFF TOGGLED''
                  (''Emergency cutoff state set to '' @ bool_text newCutoff)) g))"

definition executeModalAction :: "tui_env \<Rightarrow> ('l, 'd, 'k, 'r, 's, 'y) console \<Rightarrow> ('l, 'd, 'k, 'r, 's, 'y) console" where
  "executeModalAction te mg =
     (case Type (modal (fst mg)) of
        ModalKillSwitch \<Rightarrow> tui_kill te mg
      | ModalBurstFreeze \<Rightarrow> tui_burst_freeze te mg
      | ModalEmergencyCutoff \<Rightarrow> tui_cutoff te mg
      | ModalNone \<Rightarrow> mg)"

subsection \<open>Messages\<close>

definition confirm_keys :: "string list" where "confirm_keys = [''y'', ''Y'', ''enter'']"
definition cancel_keys :: "string list" where "cancel_keys = [''n'', ''N'', ''esc'']"

definition modal_key :: "tui_env \<Rightarrow> string \<Rightarrow> ('l, 'd, 'k, 'r, 's, 'y) console \<Rightarrow> ('l, 'd, 'k, 'r, 's, 'y) console" where
  "modal_key te key mg =
     (if key \<in> set confirm_keys then
        (case executeModalAction te mg of (m, g) \<Rightarrow> (m\<lparr>modal := Close (modal m)\<rparr>, g))
      else if key \<in> set cancel_keys then
        (case mg of (m, g) \<Rightarrow>
           (let m = addLog (stamp te) (emo_forbidden @ '' Panic protocol modal canceled by operator.'') m
            in (m\<lparr>modal := Close (modal m)\<rparr>, g)))
      else mg)"

definition plain_key ::
  "'y lipgloss \<Rightarrow> tui_env \<Rightarrow> string \<Rightarrow> ('l, 'd, 'k, 'r, 's, 'y) console
     \<Rightarrow> ('l, 'd, 'k, 'r, 's, 'y) console \<times> tea_cmd \<times> client_req list" where
  "plain_key lg te key mg =
     (let (m, g) = mg
      in if key \<in> {''q'', ''ctrl+c''} then ((m, g), QuitCmd, [])
         else if key \<in> {''t'', ''T''} then
           (let i = (themeIdx m + 1) mod length Themes;
                m = m\<lparr>themeIdx := i, mstyles := MakeStyles lg (Themes ! i)\<rparr>
            in ((addLog (stamp te) (emo_palette @ '' Theme switched to ['' @ th_Name (Themes ! i) @ '']'') m, g), NoCmd, []))
         else if key = '' '' then
           (let (msg, reqs, _) = UnleashBurst (burst_rnd te) 100 (chaos m)
            in ((addLog (stamp te) msg m, g), NoCmd, reqs))
         else if key \<in> {''l'', ''L''} then
           (let (active, g) = ToggleJitter g
            in ((addLog (stamp te) (emo_zap @ '' Upstream simulated jitter toggled: '' @
                   (if active then ''ENABLED (200ms - 500ms, 30% traffic)'' else ''DISABLED'')) m, g), NoCmd, []))
         else if key \<in> {''a'', ''A''} then
           (let (msg, req) = InjectReplayAttack (lib (tenv te)) (job_now te) (chaos m)
            in ((addLog (stamp te) msg m, g), NoCmd, [req]))
         else if key = ''ctrl+k'' then
           ((m\<lparr>modal := Open ModalKillSwitch ''aegis_live_compromised_key_9999'' (modal m)\<rparr>, g), NoCmd, [])
         else if key = ''ctrl+b'' then ((m\<lparr>modal := Open ModalBurstFreeze [] (modal m)\<rparr>, g), NoCmd, [])
         else if key = ''ctrl+u'' then ((m\<lparr>modal := Open ModalEmergencyCutoff [] (modal m)\<rparr>, g), NoCmd, [])
         else ((m, g), NoCmd, []))"

definition Update ::
  "'y lipgloss \<Rightarrow> tui_env \<Rightarrow> tea_msg \<Rightarrow> ('l, 'd, 'k, 'r, 's, 'y) console
     \<Rightarrow> (('l, 'd, 'k, 'r, 's, 'y) console \<times> tea_cmd \<times> client_req list) option" where
  "Update lg te msg mg =
     (let (m, g) = mg
      in case msg of
           WindowSizeMsg w h \<Rightarrow> Some ((m\<lparr>mwidth := w, mheight := h\<rparr>, g), NoCmd, [])
         | TickMsg \<Rightarrow>
             (case GetSnapshot (oob (tenv te)) (gw_metrics g) of
                None \<Rightarrow> None
              | Some snap \<Rightarrow>
                  (let rev = f_mul (f_of_int (BurstCount snap)) (CostPerCredit (Monetization (cm_Get (cfgManager g))))
                   in Some ((m\<lparr>mrevenue := rev\<rparr>, g\<lparr>gw_metrics := SetRevenue rev (gw_metrics g)\<rparr>), tickCmd, [])))
         | LogMsg s \<Rightarrow> Some ((addLog (stamp te) s m, g), NoCmd, [])
         | KeyMsg key \<Rightarrow>
             Some (if Active (modal m) then (modal_key te key (m, g), NoCmd, []) else plain_key lg te key (m, g))
         | OtherMsg \<Rightarrow> Some ((m, g), NoCmd, []))"

subsection \<open>The screen\<close>

text \<open>The verbs \<^verbatim>\<open>%5d\<close> and \<^verbatim>\<open>%.2f\<close>.\<close>

definition pad5 :: "i64 \<Rightarrow> string" where
  "pad5 n = (let s = show_int n in replicate (5 - length s) (CHR '' '') @ s)"

definition pad2 :: "nat \<Rightarrow> string" where
  "pad2 n = (let s = show_nat n in replicate (2 - length s) (CHR ''0'') @ s)"

definition fmt_f2 :: "float64 \<Rightarrow> string" where
  "fmt_f2 x =
     (case x of
        NaN \<Rightarrow> ''NaN''
      | PInf \<Rightarrow> ''+Inf''
      | NInf \<Rightarrow> ''-Inf''
      | Fin q \<Rightarrow>
          (let n = nat \<bar>round_even (q * 100)\<bar>
           in (if q < 0 then ''-'' else []) @ show_nat (n div 100) @ ''.'' @ pad2 (n mod 100)))"

definition breaker_badge :: "'y lipgloss \<Rightarrow> 'y Styles \<Rightarrow> CircuitBreaker \<Rightarrow> string" where
  "breaker_badge lg st cb =
     (if IsEmergencyCutoff cb then Render lg (sty_Error st) ''[EMERGENCY CUTOFF ACTIVE]''
      else if GetState cb = CircuitHalfOpen then Render lg (sty_Warning st) ''[HALF-OPEN - PROBING]''
      else if GetState cb = CircuitOpen then Render lg (sty_Error st) ''[OPEN - TRAFFIC DIVERTED]''
      else Render lg (sty_Success st) ''[CLOSED - HEALTHY]'')"

definition telemetry :: "'y lipgloss \<Rightarrow> tui_env \<Rightarrow> Snapshot \<Rightarrow> ('l, 'd, 'k, 'r, 's, 'y) console \<Rightarrow> string option" where
  "telemetry lg te snap mg =
     (let (m, g) = mg;
          st = mstyles m;
          total = wrap64 (wrap64 (NormalCount snap + BurstCount snap) + BlockedCount snap);
          total = (if total = 0 then 1 else total);
          bar = (\<lambda>n s. RenderHorizontalBar lg (oob (tenv te)) n total 20 s (sty_Dim st))
      in case (bar (NormalCount snap) (sty_Success st), bar (BurstCount snap) (sty_Warning st),
               bar (BlockedCount snap) (sty_Error st)) of
           (Some normalBar, Some burstBar, Some blockedBar) \<Rightarrow>
             Some (''TRAFFIC BREAKDOWN:'' @ nl @
               ''  NORMAL : '' @ pad5 (NormalCount snap) @ ''  '' @ normalBar @ nl @
               ''  BURST  : '' @ pad5 (BurstCount snap) @ ''  '' @ burstBar @ nl @
               ''  BLOCKED: '' @ pad5 (BlockedCount snap) @ ''  '' @ blockedBar @ nl @ nl @
               ''CIRCUIT BREAKER  : '' @ breaker_badge lg st (circuitBreaker g) @ nl @
               ''UPSTREAM JITTER  : '' @ (if IsJitterActive g then Render lg (sty_Warning st) ''[ACTIVE: 200-500ms]''
                                        else Render lg (sty_Dim st) ''[OFF]'') @ nl @
               ''BURST FREEZE     : '' @ (if redis_IsGlobalBurstFrozen (fst (gw_limiter g)) then Render lg (sty_Error st) ''[FROZEN]''
                                        else Render lg (sty_Dim st) ''[OFF]'') @ nl @
               ''REPLAY BLOCKS    : '' @ Render lg (sty_Warning st) (show_int (ReplayBlocked snap) @ '' blocked'') @ nl @
               ''FALLBACK CACHED  : '' @ show_int (CacheFallbacks snap) @ '' requests'' @ nl @
               ''DLQ PENDING      : '' @ show_int (DLQPending snap) @ '' webhooks'' @ nl @
               ''BURST REVENUE    : '' @ Render lg (sty_Success st) (''$'' @ fmt_f4 (mrevenue m) @ '' USD''))
         | _ \<Rightarrow> None)"

definition spectrum :: "Snapshot \<Rightarrow> string \<Rightarrow> string" where
  "spectrum snap sparkline =
     ''REAL-TIME LATENCY SPECTRUM:'' @ nl @ nl @
     ''  p95 LATENCY: '' @ fmt_f2 (P95LatencyMs snap) @ '' ms'' @ nl @
     ''  p99 LATENCY: '' @ fmt_f2 (P99LatencyMs snap) @ '' ms'' @ nl @ nl @
     ''  LATENCY TREND (Recent 30 reqs):'' @ nl @
     ''  '' @ sparkline @ nl @ nl @
     ''CHAOS & DRILL CONTROLS:'' @ nl @
     ''  [Space]  Unleash sudden traffic burst (50-250 reqs)'' @ nl @
     ''  [L]      Toggle upstream latency jitter (200-500ms)'' @ nl @
     ''  [A]      Inject expired timestamp replay attack'' @ nl @
     ''  [T]      Cycle Cyberpunk / Dracula / Mocha theme'' @ nl @
     ''  [q]      Quit dashboard''"

definition hotkey_bar :: string where
  "hotkey_bar = emo_siren @ '' TWO-STEP PANIC HOTKEYS: [Ctrl+K] Key Kill-Switch | [Ctrl+B] Global Burst Freeze | [Ctrl+U] Emergency Upstream Cutoff''"

text \<open>\<open>Duration.Round(time.Second)\<close>: half a second away from zero, for durations far from the int64 bounds.\<close>

definition round_second :: "i64 \<Rightarrow> i64" where
  "round_second d =
     (let r = (if 0 \<le> d then d mod second else - ((- d) mod second))
      in if 0 \<le> d then (if r + r < second then d - r else d - r + second)
         else (if (- r) + (- r) < second then d - r else d - r - second))"

definition View :: "'y lipgloss \<Rightarrow> tui_env \<Rightarrow> ('l, 'd, 'k, 'r, 's, 'y) console \<Rightarrow> string option" where
  "View lg te mg =
     (let (m, g) = mg;
          w = (if mwidth m \<le> 0 then 100 else mwidth m);
          st = mstyles m
      in case GetSnapshot (oob (tenv te)) (gw_metrics g) of
           None \<Rightarrow> None
         | Some snap \<Rightarrow>
             if Active (modal m) then Some (RenderModal lg (modal m) st w)
             else
               (case (slice_at Themes (int (themeIdx m)), telemetry lg te snap (m, g),
                      RenderSparkline lg (oob (tenv te)) (RecentSamples snap) 30 (sty_Sparkline st)) of
                  (Some theme, Some content, Some sparkline) \<Rightarrow>
                    (let header = Render lg (sty_Header st) ('' AEGISPULSE CYBER-DECK COCKPIT v1.0 | UPTIME: '' @
                           dur_text te (round_second (time_sub (view_now te) (startTime m))) @ '' | THEME: '' @ th_Name theme @ '' '');
                         box = Width lg (w div 2 - 3) (sty_Box st);
                         mainRow = JoinHorizontal lg PosTop [Render lg box content, Render lg box (spectrum snap sparkline)];
                         logBox = Render lg (Width lg (w - 4) (sty_Box st))
                           (''SECURITY & GATEWAY ACTIVITY STREAM:'' @ nl @ join (logs m) nl);
                         panicBar = Render lg (Width lg (w - 4) (sty_AlertBox st)) hotkey_bar
                     in Some (JoinVertical lg PosLeft [header, mainRow, logBox, panicBar]))
                | _ \<Rightarrow> None))"

text \<open>The line that \<open>RunHeadless\<close> logs at each tick of three seconds.\<close>

definition headless_line :: "(float64 \<Rightarrow> i64) \<Rightarrow> ('l, 'd, 'k, 'r, 's) gateway \<Rightarrow> string option" where
  "headless_line oob' g =
     (case GetSnapshot oob' (gw_metrics g) of
        None \<Rightarrow> None
      | Some snap \<Rightarrow>
          (let rev = f_mul (f_of_int (BurstCount snap)) (CostPerCredit (Monetization (cm_Get (cfgManager g))))
           in Some (''[TELEMETRY] Normal='' @ show_int (NormalCount snap) @ '' Burst='' @ show_int (BurstCount snap) @
                '' Blocked='' @ show_int (BlockedCount snap) @ '' ReplayBlocked='' @ show_int (ReplayBlocked snap) @
                '' FallbackServed='' @ show_int (CacheFallbacks snap) @ '' DLQ='' @ show_int (DLQPending snap) @
                '' Breaker='' @ state_String (GetState (circuitBreaker g)) @ '' Revenue=$'' @ fmt_f4 rev)))"

text \<open>The rounds of its \<open>select\<close>: a cancelled context ends the loop, a tick logs a line.\<close>

fun RunHeadless :: "(float64 \<Rightarrow> i64) \<Rightarrow> (('l, 'd, 'k, 'r, 's) gateway option) list \<Rightarrow> string list \<Rightarrow> string list option" where
  "RunHeadless oob' [] out = Some out"
| "RunHeadless oob' (None # rounds) out = Some out"
| "RunHeadless oob' (Some g # rounds) out =
     (case headless_line oob' g of None \<Rightarrow> None | Some line \<Rightarrow> RunHeadless oob' rounds (out @ [line]))"

subsection \<open>Runs\<close>

fun tui_run ::
  "'y lipgloss \<Rightarrow> (tui_env \<times> tea_msg) list \<Rightarrow> ('l, 'd, 'k, 'r, 's, 'y) console \<Rightarrow> ('l, 'd, 'k, 'r, 's, 'y) console option" where
  "tui_run lg [] mg = Some mg"
| "tui_run lg ((te, msg) # tms) mg = (case Update lg te msg mg of None \<Rightarrow> None | Some (mg', _, _) \<Rightarrow> tui_run lg tms mg')"

definition model_ok :: "'y lipgloss \<Rightarrow> 'y Model \<Rightarrow> bool" where
  "model_ok lg m \<longleftrightarrow> length (logs m) \<le> 8 \<and> themeIdx m < length Themes \<and> mstyles m = MakeStyles lg (Themes ! themeIdx m) \<and>
     (Active (modal m) \<longleftrightarrow> Type (modal m) \<noteq> ModalNone)"

definition metrics_ok :: "Metrics \<Rightarrow> bool" where
  "metrics_ok m \<longleftrightarrow> length (recentLatencies m) \<le> 100 \<and> in_i64 (normalCount m) \<and> in_i64 (burstCount m) \<and> in_i64 (blockedCount m)"

section \<open>The model stays in range\<close>

lemma GetSnapshot_total:
  assumes "metrics_ok m"
  shows "\<exists>snap. GetSnapshot oob' m = Some snap \<and> NormalCount snap = normalCount m \<and> BurstCount snap = burstCount m \<and>
    BlockedCount snap = blockedCount m"
  using percentiles_total [of "recentLatencies m" oob'] assms by (auto simp: GetSnapshot_def metrics_ok_def)

lemma addLog_simps [simp]:
  "themeIdx (addLog ts s m) = themeIdx m" "mstyles (addLog ts s m) = mstyles m" "modal (addLog ts s m) = modal m"
  "mwidth (addLog ts s m) = mwidth m" "chaos (addLog ts s m) = chaos m"
  by (simp_all add: addLog_def Let_def)

lemma addLog_length: "length (logs m) \<le> 8 \<Longrightarrow> length (logs (addLog ts s m)) \<le> 8"
  by (auto simp: addLog_def Let_def)

lemma Open_simps [simp]: "Active (Open ty k m)" "Type (Open ty k m) = ty"
  by (simp_all add: Open_def Let_def split: ModalType.split)

lemma Close_simps [simp]: "\<not> Active (Close m)" "Type (Close m) = ModalNone"
  by (simp_all add: Close_def)

lemma Themes_length [simp]: "length Themes = 4"
  by (simp add: Themes_def)

lemma NewModel_ok: "model_ok lg (NewModel lg now ce)"
  by (simp add: model_ok_def NewModel_def DetectInitialTheme_def NewModalState_def Let_def)

lemma audit_metrics [simp]: "gw_metrics (audit_and_publish e kind p mk g) = gw_metrics g"
  by (simp add: audit_and_publish_def Let_def)

lemma audit_same [simp]:
  "gw_limiter (audit_and_publish e kind p mk g) = gw_limiter g"
  "circuitBreaker (audit_and_publish e kind p mk g) = circuitBreaker g"
  "forwarded (audit_and_publish e kind p mk g) = forwarded g"
  by (simp_all add: audit_and_publish_def Let_def)

text \<open>Each action logs one line and touches one part of the gateway.\<close>

lemma tui_kill_shape: "\<exists>s. fst (tui_kill te (m, g)) = addLog (stamp te) s m"
  and tui_burst_freeze_shape: "\<exists>s. fst (tui_burst_freeze te (m, g)) = addLog (stamp te) s m"
  and tui_cutoff_shape: "\<exists>s. fst (tui_cutoff te (m, g)) = addLog (stamp te) s m"
  by (auto simp only: tui_kill_def tui_burst_freeze_def tui_cutoff_def Let_def prod.case fst_conv)

lemma tui_kill_gw:
  "gw_metrics (snd (tui_kill te (m, g))) = gw_metrics g" "circuitBreaker (snd (tui_kill te (m, g))) = circuitBreaker g"
  "gw_limiter (snd (tui_kill te (m, g))) = gw_limiter g"
  by (simp_all add: tui_kill_def Let_def del: append.simps append_Cons)

lemma tui_burst_freeze_gw:
  "gw_metrics (snd (tui_burst_freeze te (m, g))) = gw_metrics g"
  "circuitBreaker (snd (tui_burst_freeze te (m, g))) = circuitBreaker g"
  by (simp_all add: tui_burst_freeze_def Let_def del: append.simps append_Cons)

lemma tui_cutoff_gw:
  "gw_metrics (snd (tui_cutoff te (m, g))) = gw_metrics g"
  "gw_limiter (snd (tui_cutoff te (m, g))) = gw_limiter g"
  "circuitBreaker (snd (tui_cutoff te (m, g))) = SetEmergencyCutoff (\<not> emergencyCutoff (circuitBreaker g)) (circuitBreaker g)"
  by (simp_all add: tui_cutoff_def IsEmergencyCutoff_def Let_def del: append.simps append_Cons)

lemma execute_ok:
  assumes "model_ok lg m"
  shows "length (logs (fst (executeModalAction te (m, g)))) \<le> 8" "themeIdx (fst (executeModalAction te (m, g))) = themeIdx m"
    "mstyles (fst (executeModalAction te (m, g))) = mstyles m" "gw_metrics (snd (executeModalAction te (m, g))) = gw_metrics g"
proof -
  have "(\<exists>s. fst (executeModalAction te (m, g)) = addLog (stamp te) s m) \<or> fst (executeModalAction te (m, g)) = m"
    using tui_kill_shape [of te m g] tui_burst_freeze_shape [of te m g] tui_cutoff_shape [of te m g]
    by (simp add: executeModalAction_def split: ModalType.split)
  with assms show "length (logs (fst (executeModalAction te (m, g)))) \<le> 8" "themeIdx (fst (executeModalAction te (m, g))) = themeIdx m"
    "mstyles (fst (executeModalAction te (m, g))) = mstyles m"
    by (auto simp: model_ok_def addLog_length)
  show "gw_metrics (snd (executeModalAction te (m, g))) = gw_metrics g"
    by (simp add: executeModalAction_def tui_kill_gw tui_burst_freeze_gw tui_cutoff_gw split: ModalType.split)
qed

lemma modal_key_ok:
  assumes "model_ok lg m" and "Active (modal m)" and "modal_key te key (m, g) = (m', g')"
  shows "model_ok lg m' \<and> gw_metrics g' = gw_metrics g"
proof (cases "key \<in> set confirm_keys")
  case True
  obtain m1 g1 where ex: "executeModalAction te (m, g) = (m1, g1)" by (rule prod.exhaust)
  with True assms(3) have "m' = m1\<lparr>modal := Close (modal m1)\<rparr>" "g' = g1" by (auto simp: modal_key_def)
  with execute_ok [OF assms(1), of te g] ex assms(1) show ?thesis by (simp add: model_ok_def)
next
  case False
  with assms show ?thesis
    by (cases "key \<in> set cancel_keys") (auto simp: modal_key_def model_ok_def addLog_length Let_def)
qed

text \<open>What a key can do while no modal is open.\<close>

inductive key_effect :: "'y lipgloss \<Rightarrow> string \<Rightarrow> 'y Model \<Rightarrow> 'y Model \<Rightarrow> bool" for lg key m where
  logged: "key_effect lg key m (addLog ts s m)"
| themed: "i < 4 \<Longrightarrow> key_effect lg key m (addLog ts s (m\<lparr>themeIdx := i, mstyles := MakeStyles lg (Themes ! i)\<rparr>))"
| opened: "ty \<noteq> ModalNone \<Longrightarrow> key \<in> {''ctrl+k'', ''ctrl+b'', ''ctrl+u''} \<Longrightarrow>
    key_effect lg key m (m\<lparr>modal := Open ty k (modal m)\<rparr>)"
| unchanged: "key_effect lg key m m"

lemma key_effect_if: "(c \<Longrightarrow> key_effect lg key m a) \<Longrightarrow> (\<not> c \<Longrightarrow> key_effect lg key m b) \<Longrightarrow> key_effect lg key m (if c then a else b)"
  by simp

lemma plain_key_shape: "key_effect lg key m (fst (fst (plain_key lg te key (m, g))))"
  unfolding plain_key_def Let_def prod.case case_prod_unfold
  by (simp only: if_distrib [of fst] fst_conv) (intro key_effect_if key_effect.intros; simp)

lemma plain_key_gw: "snd (fst (plain_key lg te key (m, g))) \<in> {g, snd (ToggleJitter g)}"
  unfolding plain_key_def Let_def prod.case case_prod_unfold
  by (simp only: if_distrib [of fst] if_distrib [of snd] fst_conv snd_conv) simp

lemma plain_key_ok:
  assumes "model_ok lg m" and "\<not> Active (modal m)"
  shows "model_ok lg (fst (fst (plain_key lg te key (m, g))))" and "gw_metrics (snd (fst (plain_key lg te key (m, g)))) = gw_metrics g"
proof -
  show "model_ok lg (fst (fst (plain_key lg te key (m, g))))"
    using plain_key_shape [of lg key m te g] assms by cases (auto simp: model_ok_def addLog_length)
  show "gw_metrics (snd (fst (plain_key lg te key (m, g)))) = gw_metrics g"
    using plain_key_gw [of lg te key m g] by (auto simp: ToggleJitter_def Let_def)
qed

lemma Update_ok:
  assumes "model_ok lg m" and "metrics_ok (gw_metrics g)"
  shows "\<exists>m' g' c rs. Update lg te msg (m, g) = Some ((m', g'), c, rs) \<and> model_ok lg m' \<and> metrics_ok (gw_metrics g')"
proof (cases msg)
  case (WindowSizeMsg w h)
  with assms show ?thesis by (simp add: Update_def model_ok_def)
next
  case TickMsg
  with assms GetSnapshot_total [OF assms(2), of "oob (tenv te)"] show ?thesis
    by (auto simp: Update_def model_ok_def metrics_ok_def SetRevenue_def emit_def Let_def)
next
  case (LogMsg s)
  with assms show ?thesis by (simp add: Update_def model_ok_def addLog_length)
next
  case (KeyMsg key)
  obtain m1 g1 where mk: "modal_key te key (m, g) = (m1, g1)" by (rule prod.exhaust)
  obtain m2 g2 c rs where pk: "plain_key lg te key (m, g) = ((m2, g2), c, rs)" by (metis prod.exhaust)
  show ?thesis
  proof (cases "Active (modal m)")
    case True
    with KeyMsg mk modal_key_ok [OF assms(1) True mk] assms(2) show ?thesis by (simp add: Update_def)
  next
    case False
    with KeyMsg pk plain_key_ok [OF assms(1) False, of te key g] assms(2) show ?thesis by (simp add: Update_def)
  qed
qed (use assms in \<open>simp add: Update_def\<close>)

lemma tui_run_ok:
  "model_ok lg m \<Longrightarrow> metrics_ok (gw_metrics g) \<Longrightarrow>
     \<exists>m' g'. tui_run lg tms (m, g) = Some (m', g') \<and> model_ok lg m' \<and> metrics_ok (gw_metrics g')"
proof (induction tms arbitrary: m g)
  case (Cons tm tms)
  obtain te msg where "tm = (te, msg)" by (rule prod.exhaust)
  with Update_ok [OF Cons.prems, of te msg] Cons.IH show ?case by fastforce
qed simp

lemma telemetry_total:
  assumes "in_i64 (NormalCount snap)" "in_i64 (BurstCount snap)" "in_i64 (BlockedCount snap)"
  shows "telemetry lg te snap (m, g) \<noteq> None"
proof -
  let ?t = "wrap64 (wrap64 (NormalCount snap + BurstCount snap) + BlockedCount snap)"
  have "in_i64 (if ?t = 0 then 1 else ?t)" by simp
  from bar_cells [OF this, of 20]
  have "RenderHorizontalBar lg o' n (if ?t = 0 then 1 else ?t) 20 fs es \<noteq> None" for o' n fs es by fastforce
  then show ?thesis
    unfolding telemetry_def Let_def prod.case by (simp only: split: option.split prod.split) blast
qed

lemma View_total:
  assumes "model_ok lg m" and "metrics_ok (gw_metrics g)"
  shows "View lg te (m, g) \<noteq> None"
proof -
  from GetSnapshot_total [OF assms(2), of "oob (tenv te)"] obtain snap where
    snap: "GetSnapshot (oob (tenv te)) (gw_metrics g) = Some snap"
    and "telemetry lg te snap (m, g) \<noteq> None"
    using telemetry_total assms(2) by (metis metrics_ok_def)
  moreover have "RenderSparkline lg o' vs 30 s \<noteq> None" for o' vs s by (rule RenderSparkline_total) simp
  moreover have "slice_at Themes (int (themeIdx m)) \<noteq> None" using assms(1) by (simp add: model_ok_def slice_at_def)
  ultimately show ?thesis
    unfolding View_def Let_def prod.case snap option.case by (simp only: split: option.split prod.split if_split) blast
qed

section \<open>Two steps\<close>

definition hotkey :: "tea_msg \<Rightarrow> bool" where
  "hotkey msg \<longleftrightarrow> msg \<in> {KeyMsg ''ctrl+k'', KeyMsg ''ctrl+b'', KeyMsg ''ctrl+u''}"

definition confirms :: "tea_msg \<Rightarrow> bool" where
  "confirms msg \<longleftrightarrow> (\<exists>key \<in> set confirm_keys. msg = KeyMsg key)"

definition cancels :: "tea_msg \<Rightarrow> bool" where
  "cancels msg \<longleftrightarrow> (\<exists>key \<in> set cancel_keys. msg = KeyMsg key)"

text \<open>The parts of the gateway behind the panic switches.\<close>

abbreviation panic_part ::
  "('l, 'd, 'k, 'r, 's) gateway \<Rightarrow> ('d, 'k) repo_sys \<times> ('r RedisLimiter \<times> 'r) \<times> CircuitBreaker" where
  "panic_part g \<equiv> (gw_repo g, gw_limiter g, circuitBreaker g)"

lemma Update_inactive:
  assumes "Update lg te msg (m, g) = Some ((m', g'), c, rs)" and "\<not> Active (modal m)"
  shows "panic_part g' = panic_part g" and "Active (modal m') \<Longrightarrow> hotkey msg"
proof -
  show "panic_part g' = panic_part g"
  proof (cases msg)
    case (KeyMsg key)
    with assms have "g' = snd (fst (plain_key lg te key (m, g)))" by (simp add: Update_def)
    with plain_key_gw [of lg te key m g] show ?thesis by (auto simp: ToggleJitter_def Let_def)
  qed (use assms in \<open>auto simp: Update_def Let_def split: option.splits\<close>)
  show "hotkey msg" if "Active (modal m')"
  proof (cases msg)
    case (KeyMsg key)
    with assms have "m' = fst (fst (plain_key lg te key (m, g)))" by (simp add: Update_def)
    with plain_key_shape [of lg key m te g] have "key_effect lg key m m'" by simp
    then show ?thesis using that assms(2) KeyMsg by cases (auto simp: hotkey_def)
  qed (use assms that in \<open>auto simp: Update_def Let_def split: option.splits\<close>)
qed

lemma Update_active:
  assumes "Update lg te msg (m, g) = Some ((m', g'), c, rs)" and "Active (modal m)" and "\<not> confirms msg"
  shows "panic_part g' = panic_part g" and "cancels msg \<Longrightarrow> \<not> Active (modal m')"
  using assms
  by (cases msg; auto simp: Update_def modal_key_def confirms_def cancels_def Let_def split: option.splits if_splits)+

text \<open>A trace with a hotkey, a later confirmation, and no confirmation or cancel key in between.\<close>

definition two_step :: "tea_msg list \<Rightarrow> bool" where
  "two_step ms \<longleftrightarrow> (\<exists>pre h mid c post. ms = pre @ h # mid @ c # post \<and> hotkey h \<and> confirms c \<and>
     (\<forall>x \<in> set mid. \<not> confirms x \<and> \<not> cancels x))"

definition first_confirms :: "tea_msg list \<Rightarrow> bool" where
  "first_confirms ms \<longleftrightarrow> (\<exists>mid c post. ms = mid @ c # post \<and> confirms c \<and> (\<forall>x \<in> set mid. \<not> confirms x \<and> \<not> cancels x))"

lemma two_step_Cons: "two_step ms \<Longrightarrow> two_step (x # ms)"
  unfolding two_step_def by (metis append_Cons)

lemma two_step_hot: "hotkey h \<Longrightarrow> first_confirms ms \<Longrightarrow> two_step (h # ms)"
  unfolding two_step_def first_confirms_def by (metis append_Nil)

lemma first_confirms_hd: "confirms x \<Longrightarrow> first_confirms (x # ms)"
  unfolding first_confirms_def by (metis append_Nil empty_iff empty_set)

lemma first_confirms_Cons:
  assumes "\<not> cancels x" and "first_confirms ms"
  shows "first_confirms (x # ms)"
proof (cases "confirms x")
  case True
  then show ?thesis by (rule first_confirms_hd)
next
  case False
  from assms(2) obtain mid c post where "ms = mid @ c # post" "confirms c" "\<forall>y \<in> set mid. \<not> confirms y \<and> \<not> cancels y"
    by (auto simp: first_confirms_def)
  with False assms(1) show ?thesis
    unfolding first_confirms_def by (intro exI [of _ "x # mid"] exI [of _ c] exI [of _ post]) simp
qed

lemma run_changes:
  assumes "tui_run lg tms (m, g) = Some (m', g')" and "panic_part g' \<noteq> panic_part g"
  shows "two_step (map snd tms) \<or> (Active (modal m) \<and> first_confirms (map snd tms))"
  using assms
proof (induction tms arbitrary: m g)
  case (Cons tm tms)
  obtain te msg where tm: "tm = (te, msg)" by (rule prod.exhaust)
  with Cons.prems(1) obtain m1 g1 c rs where up: "Update lg te msg (m, g) = Some ((m1, g1), c, rs)"
    and run: "tui_run lg tms (m1, g1) = Some (m', g')" by (auto split: option.splits)
  show ?case
  proof (cases "confirms msg \<and> Active (modal m)")
    case True
    then show ?thesis by (simp add: tm first_confirms_hd)
  next
    case False
    then have same: "panic_part g1 = panic_part g" using Update_inactive(1) [OF up] Update_active(1) [OF up] by blast
    with Cons.prems(2) have "panic_part g' \<noteq> panic_part g1" by simp
    from Cons.IH [OF run this] show ?thesis
    proof
      assume "two_step (map snd tms)"
      then show ?thesis by (simp add: tm two_step_Cons)
    next
      assume act: "Active (modal m1) \<and> first_confirms (map snd tms)"
      show ?thesis
      proof (cases "Active (modal m)")
        case True
        with False have "\<not> cancels msg" using act Update_active(2) [OF up] by blast
        with act True show ?thesis using first_confirms_Cons [of msg "map snd tms"] by (simp add: tm)
      next
        case False
        with act Update_inactive(2) [OF up] show ?thesis by (simp add: tm two_step_hot)
      qed
    qed
  qed
qed simp

lemma two_keys:
  assumes "\<not> Active (modal m)" and "c \<in> set confirm_keys"
    and "tui_run lg [(te, KeyMsg key), (te', KeyMsg c)] (m, g) = Some (m', g')"
    and "plain_key lg te key (m, g) = ((m\<lparr>modal := Open ty k (modal m)\<rparr>, g), NoCmd, [])"
  shows "g' = snd (executeModalAction te' (m\<lparr>modal := Open ty k (modal m)\<rparr>, g))"
  using assms by (auto simp: Update_def modal_key_def split: prod.splits)

lemma hotkey_opens:
  "plain_key lg te ''ctrl+k'' (m, g) =
     ((m\<lparr>modal := Open ModalKillSwitch ''aegis_live_compromised_key_9999'' (modal m)\<rparr>, g), NoCmd, [])"
  "plain_key lg te ''ctrl+u'' (m, g) = ((m\<lparr>modal := Open ModalEmergencyCutoff [] (modal m)\<rparr>, g), NoCmd, [])"
  by (simp_all add: plain_key_def)

lemma Open_target: "k \<noteq> [] \<Longrightarrow> TargetKey (Open ty k m) = k"
  by (simp add: Open_def Let_def split: ModalType.split)

lemma tui_kill_frozen:
  "gw_frozen l (snd (tui_kill te (m, g))) k =
     frozen_in l (snd (FreezeAPIKey (lib (tenv te)) (map_order (tenv te)) (clk (tenv te) AtKeyFreeze) (gw_repo g) (TargetKey (modal m)))) k"
  by (simp add: tui_kill_def audit_frozen frozen_in_kv Let_def del: append.simps append_Cons)

text \<open>A console on the sample gateway, for the witnesses.\<close>

definition sample_tui :: tui_env where
  "sample_tui = \<lparr>tenv = sample_reqenv, stamp = ''10:00:00'', job_now = 1000, burst_rnd = 0, view_now = 0, dur_text = (\<lambda>_. ''0s'')\<rparr>"

definition sample_console :: "(nat, unit, unit, unit, unit, unit) console" where
  "sample_console = (NewModel toy_lipgloss 0 (NewChaosEngine []), sample_gateway)"

lemma sample_metrics: "metrics_ok (gw_metrics sample_gateway)"
  by (simp add: metrics_ok_def sample_gateway_def NewMetrics_def)

lemma sample_inactive: "\<not> Active (modal (fst sample_console))"
  by (simp add: sample_console_def NewModel_def NewModalState_def Let_def)

lemma sample_console_runs: "\<exists>m g. tui_run toy_lipgloss tms sample_console = Some (m, g)"
  using tui_run_ok [OF NewModel_ok sample_metrics] unfolding sample_console_def by blast

lemma sample_cutoff_run:
  assumes "tui_run toy_lipgloss [(sample_tui, KeyMsg ''ctrl+u''), (sample_tui, KeyMsg ''y'')] sample_console = Some (m, g)"
  shows "emergencyCutoff (circuitBreaker g) = True \<and> circuitBreaker g \<noteq> circuitBreaker sample_gateway"
proof -
  have y: "''y'' \<in> set confirm_keys" by (simp add: confirm_keys_def)
  have off: "\<not> emergencyCutoff (circuitBreaker sample_gateway)" by (simp add: sample_gateway_def NewCircuitBreaker_def)
  have "g = snd (tui_cutoff sample_tui ((fst sample_console)\<lparr>modal := Open ModalEmergencyCutoff [] (modal (fst sample_console))\<rparr>, sample_gateway))"
    using two_keys [OF sample_inactive y _ hotkey_opens(2), of toy_lipgloss sample_tui sample_tui sample_gateway m g] assms
    by (simp add: executeModalAction_def sample_console_def)
  then have "circuitBreaker g = SetEmergencyCutoff True (circuitBreaker sample_gateway)"
    using off by (simp add: tui_cutoff_gw)
  then have "emergencyCutoff (circuitBreaker g)" by (simp add: SetEmergencyCutoff_def)
  with off show ?thesis by metis
qed

section \<open>Properties\<close>

text \<open>
  C38. The console stays well-formed. From its initial state, with a metrics window of at most 100 samples,
  every sequence of messages is handled without a panic; afterwards at most eight log lines are
  kept, the theme index is in range, the styles are those of the theme, a modal is active exactly
  when it has a type, and drawing the screen does not panic either.
\<close>

theorem console_well_formed:
  assumes "metrics_ok (gw_metrics g)"
  shows "\<exists>m' g'. tui_run lg tms (NewModel lg now ce, g) = Some (m', g') \<and> length (logs m') \<le> 8 \<and>
    themeIdx m' < length Themes \<and> mstyles m' = MakeStyles lg (Themes ! themeIdx m') \<and>
    (Active (modal m') \<longleftrightarrow> Type (modal m') \<noteq> ModalNone) \<and> (\<exists>screen. View lg te (m', g') = Some screen)"
proof -
  from tui_run_ok [OF NewModel_ok assms, of lg tms now ce] obtain m' g' where
    "tui_run lg tms (NewModel lg now ce, g) = Some (m', g')" and ok: "model_ok lg m'" "metrics_ok (gw_metrics g')" by blast
  with View_total [OF ok, of te] show ?thesis
    unfolding model_ok_def by (intro exI [of _ m'] exI [of _ g']) blast
qed

theorem console_well_formed_witness:
  "\<exists>m' g' screen. tui_run toy_lipgloss [(sample_tui, KeyMsg ''t''), (sample_tui, TickMsg)] sample_console = Some (m', g') \<and>
     themeIdx m' < length Themes \<and> View toy_lipgloss sample_tui (m', g') = Some screen"
  using console_well_formed [OF sample_metrics, where lg = toy_lipgloss and tms = "[(sample_tui, KeyMsg ''t''), (sample_tui, TickMsg)]"
      and now = 0 and ce = "NewChaosEngine []" and te = sample_tui]
  unfolding sample_console_def by blast

text \<open>
  C9. The two-step protocol. Starting with no modal open, a sequence of messages that changes the key
  repository, the limiter or the breaker contains a panic hotkey and a later confirmation key with
  no confirmation or cancel key between them: no single key press, tick or log message does it.
\<close>

theorem console_two_step:
  assumes "\<not> Active (modal m)" and "tui_run lg tms (m, g) = Some (m', g')"
    and "(gw_repo g', gw_limiter g', circuitBreaker g') \<noteq> (gw_repo g, gw_limiter g, circuitBreaker g)"
  shows "\<exists>pre h mid c post. map snd tms = pre @ h # mid @ c # post \<and>
    h \<in> {KeyMsg ''ctrl+k'', KeyMsg ''ctrl+b'', KeyMsg ''ctrl+u''} \<and> c \<in> KeyMsg ` set confirm_keys \<and>
    set mid \<inter> KeyMsg ` (set confirm_keys \<union> set cancel_keys) = {}"
proof -
  have "two_step (map snd tms)" using run_changes [OF assms(2,3)] assms(1) by blast
  then obtain pre h mid c post where "map snd tms = pre @ h # mid @ c # post" "hotkey h" "confirms c"
    "\<forall>x \<in> set mid. \<not> confirms x \<and> \<not> cancels x" by (auto simp: two_step_def)
  moreover from this have "h \<in> {KeyMsg ''ctrl+k'', KeyMsg ''ctrl+b'', KeyMsg ''ctrl+u''}" "c \<in> KeyMsg ` set confirm_keys"
    "set mid \<inter> KeyMsg ` (set confirm_keys \<union> set cancel_keys) = {}"
    by (auto simp: hotkey_def confirms_def cancels_def)
  ultimately show ?thesis by blast
qed

theorem console_two_step_witness:
  "\<exists>pre h mid c post. [KeyMsg ''ctrl+u'', KeyMsg ''y''] = pre @ h # mid @ c # post \<and>
     h \<in> {KeyMsg ''ctrl+k'', KeyMsg ''ctrl+b'', KeyMsg ''ctrl+u''} \<and> c \<in> KeyMsg ` set confirm_keys"
proof -
  let ?tms = "[(sample_tui, KeyMsg ''ctrl+u''), (sample_tui, KeyMsg ''y'')]"
  obtain m g where run: "tui_run toy_lipgloss ?tms sample_console = Some (m, g)" using sample_console_runs by blast
  then have run': "tui_run toy_lipgloss ?tms (fst sample_console, sample_gateway) = Some (m, g)" by (simp add: sample_console_def)
  have "(gw_repo g, gw_limiter g, circuitBreaker g) \<noteq> panic_part sample_gateway" using sample_cutoff_run [OF run] by simp
  from console_two_step [OF sample_inactive run' this] obtain pre h mid c post where
    "map snd ?tms = pre @ h # mid @ c # post" "h \<in> {KeyMsg ''ctrl+k'', KeyMsg ''ctrl+b'', KeyMsg ''ctrl+u''}"
    "c \<in> KeyMsg ` set confirm_keys" by blast
  moreover have "map snd ?tms = [KeyMsg ''ctrl+u'', KeyMsg ''y'']" by simp
  ultimately show ?thesis by metis
qed

text \<open>
  C25. The console's switches reach the gateway. After the kill hotkey and a confirmation, every later
  client request with the compromised key is answered 403 and not forwarded; after the cutoff
  hotkey and a confirmation, with the cutoff off before, no later sequence of requests that does
  not lift it forwards anything.
\<close>

theorem console_reaches_gateway:
  assumes "\<not> Active (modal m)" and "c \<in> set confirm_keys" and "k = ''aegis_live_compromised_key_9999''"
    and "tui_run lg [(te, KeyMsg ''ctrl+k''), (te', KeyMsg c)] (m, g) = Some (m1, g1)"
    and "tui_run lg [(te, KeyMsg ''ctrl+u''), (te', KeyMsg c)] (m, g) = Some (m2, g2)"
    and "map_of (memKeys (repo (gw_repo g))) (HashKey (lib (tenv te')) k) = Some rec"
    and "set (map_order (tenv te')) = fst ` set (memKeys (repo (gw_repo g)))"
    and "\<forall>(hk, r) \<in> set (memKeys (repo (gw_repo g))). rec_ID r = k \<or> EncryptedKey r = k \<longrightarrow> hk = HashKey (lib (tenv te')) k"
    and "i < length ers" and "client_request (snd (ers ! i)) k"
    and "\<not> emergencyCutoff (circuitBreaker g)" and "list_all (\<lambda>er. cutoff_request er \<noteq> Some False) ers"
  shows "refused 403 (fst (run_ops (gw_apply (lib (tenv te')) h) g1 ers) ! i) \<and>
    forwarded (snd (run_ops (gw_apply l h) g2 ers)) = forwarded g2"
proof
  have "TargetKey (modal (m\<lparr>modal := Open ModalKillSwitch k (modal m)\<rparr>)) = k"
    by (simp add: Open_target assms(3))
  moreover have g1: "g1 = snd (tui_kill te' (m\<lparr>modal := Open ModalKillSwitch k (modal m)\<rparr>, g))"
    using two_keys [OF assms(1,2,4) hotkey_opens(1)] by (simp add: executeModalAction_def assms(3))
  ultimately have "gw_frozen (lib (tenv te')) g1 k"
    using FreezeAPIKey_freezes [OF assms(6-8)] by (simp add: tui_kill_frozen)
  moreover have "k \<noteq> []" using assms(3) by simp
  ultimately show "refused 403 (fst (run_ops (gw_apply (lib (tenv te')) h) g1 ers) ! i)"
    using gwk.frozen_run assms(9,10) by blast
next
  have "g2 = snd (tui_cutoff te' (m\<lparr>modal := Open ModalEmergencyCutoff [] (modal m)\<rparr>, g))"
    using two_keys [OF assms(1,2,5) hotkey_opens(2)] by (simp add: executeModalAction_def)
  then have "emergencyCutoff (circuitBreaker g2)"
    using assms(11) by (simp add: tui_cutoff_gw SetEmergencyCutoff_def)
  then show "forwarded (snd (run_ops (gw_apply l h) g2 ers)) = forwarded g2"
    using cutoff.run_shut assms(12) by blast
qed

theorem console_reaches_gateway_witness:
  "\<exists>m1 g1 m2 g2. tui_run toy_lipgloss [(sample_tui, KeyMsg ''ctrl+k''), (sample_tui, KeyMsg ''y'')] sample_console = Some (m1, g1) \<and>
     tui_run toy_lipgloss [(sample_tui, KeyMsg ''ctrl+u''), (sample_tui, KeyMsg ''y'')] sample_console = Some (m2, g2) \<and>
     refused 403 (fst (run_ops (gw_apply toy_lib []) g1
       [(sample_reqenv, (sample_request ''/x'')\<lparr>r_Header := [(''X-Api-Key'', [''aegis_live_compromised_key_9999''])]\<rparr>)]) ! 0) \<and>
     forwarded (snd (run_ops (gw_apply toy_lib []) g2
       [(sample_reqenv, (sample_request ''/x'')\<lparr>r_Header := [(''X-Api-Key'', [''aegis_live_compromised_key_9999''])]\<rparr>)])) = forwarded g2"
  (is "\<exists>m1 g1 m2 g2. _ \<and> _ \<and> refused 403 (fst (run_ops _ g1 ?ers) ! 0) \<and> _")
proof -
  let ?k = "''aegis_live_compromised_key_9999''"
  obtain m1 g1 where r1: "tui_run toy_lipgloss [(sample_tui, KeyMsg ''ctrl+k''), (sample_tui, KeyMsg ''y'')] sample_console = Some (m1, g1)"
    using sample_console_runs by blast
  obtain m2 g2 where r2: "tui_run toy_lipgloss [(sample_tui, KeyMsg ''ctrl+u''), (sample_tui, KeyMsg ''y'')] sample_console = Some (m2, g2)"
    using sample_console_runs by blast
  have y: "''y'' \<in> set confirm_keys" by (simp add: confirm_keys_def)
  have "hdr_get [(''X-Api-Key'', [?k])] ''X-API-Key'' = ?k" by code_simp
  moreover have "\<not> is_page_path ''/x''" "\<not> is_admin_path ''/x''" by code_simp+
  ultimately have cl: "client_request (snd (?ers ! 0)) ?k" by (simp add: client_request_def sample_request_def)
  have hash: "HashKey toy_lib ?k = HashKey toy_lib ''raw''" by (simp add: HashKey_def toy_lib_def)
  have lib: "lib (tenv sample_tui) = toy_lib" by (simp add: sample_tui_def sample_reqenv_def)
  have "refused 403 (fst (run_ops (gw_apply (lib (tenv sample_tui)) []) g1 ?ers) ! 0) \<and>
      forwarded (snd (run_ops (gw_apply toy_lib []) g2 ?ers)) = forwarded g2"
    using r1 r2 unfolding sample_console_def
    by (rule console_reaches_gateway [OF sample_inactive [unfolded sample_console_def fst_conv] y refl, where rec = sample_record])
      (use cl hash in \<open>auto simp: sample_tui_def sample_reqenv_def sample_gateway_def sample_repo_def sample_record_def
        cutoff_request_def sample_request_def NewCircuitBreaker_def\<close>)
  with r1 r2 show ?thesis unfolding lib by blast
qed

end
