(* ===== verification/Go_Parse.thy ===== *)
theory Go_Parse
  imports Go_Float Go_Strings
begin

text \<open>
  Text functions of Go's standard library that the standalone console reads a metrics page with:
  \<open>strings.Fields\<close>, \<open>strings.Contains\<close> and \<open>strconv.ParseFloat\<close>.

  \<open>ParseFloat\<close> is cut as the library cuts it: the special values, the mantissa, the exponent and
  the check of underscores. The value is the exact rational number of the text, rounded once.

  Shown: the last field of a line is found behind any text, and a decimal integer is read
  back exactly as long as a float64 can hold it.
\<close>

section \<open>Definitions\<close>

subsection \<open>strings\<close>

fun contains :: "string \<Rightarrow> string \<Rightarrow> bool" where
  "contains [] sub \<longleftrightarrow> sub = []"
| "contains (c # s) sub \<longleftrightarrow> has_prefix (c # s) sub \<or> contains s sub"

text \<open>The text between white space runes, empty pieces included.\<close>

function space_split :: "string \<Rightarrow> string list" where
  "space_split [] = [[]]"
| "space_split (c # s) =
     (case find (has_prefix (c # s)) space_runes of
        Some r \<Rightarrow> [] # space_split (drop (length r - 1) s)
      | None \<Rightarrow> (case space_split s of [] \<Rightarrow> [[c]] | w # ws \<Rightarrow> (c # w) # ws))"
  by pat_completeness auto
termination
  by (relation "measure length") auto

definition str_fields :: "string \<Rightarrow> string list" where
  "str_fields s = filter (\<lambda>w. w \<noteq> []) (space_split s)"

subsection \<open>strconv.ParseFloat\<close>

definition float_sign :: "string \<Rightarrow> bool \<times> string" where
  "float_sign s =
     (case s of
        [] \<Rightarrow> (False, [])
      | c # t \<Rightarrow> if c = CHR ''+'' then (False, t) else if c = CHR ''-'' then (True, t) else (False, s))"

definition float_special :: "string \<Rightarrow> float64 option" where
  "float_special s =
     (let (neg, t) = float_sign s; low = map ascii_lower t
      in if low = ''inf'' \<or> low = ''infinity'' then Some (if neg then NInf else PInf)
         else if map ascii_lower s = ''nan'' then Some NaN
         else None)"

definition float_digit :: "bool \<Rightarrow> char \<Rightarrow> nat option" where
  "float_digit hex c = (if hex then hex_val c else digit_val c)"

text \<open>
  The mantissa: its digits as an integer, their number, the number of them before the point, whether
  an underscore was seen, and the rest.
\<close>

fun mant_loop :: "bool \<Rightarrow> int \<Rightarrow> int \<Rightarrow> int option \<Rightarrow> bool \<Rightarrow> string \<Rightarrow> int \<times> int \<times> int option \<times> bool \<times> string" where
  "mant_loop hex m nd dot us [] = (m, nd, dot, us, [])"
| "mant_loop hex m nd dot us (c # s) =
     (if c = CHR ''_'' then mant_loop hex m nd dot True s
      else if c = CHR ''.'' then
        (if dot = None then mant_loop hex m nd (Some nd) us s else (m, nd, dot, us, c # s))
      else (case float_digit hex c of
              Some d \<Rightarrow> mant_loop hex (m * (if hex then 16 else 10) + int d) (nd + 1) dot us s
            | None \<Rightarrow> (m, nd, dot, us, c # s)))"

text \<open>The digits of the exponent stop counting above 10000.\<close>

fun exp_loop :: "int \<Rightarrow> bool \<Rightarrow> string \<Rightarrow> int \<times> bool \<times> string" where
  "exp_loop e us [] = (e, us, [])"
| "exp_loop e us (c # s) =
     (if c = CHR ''_'' then exp_loop e True s
      else (case digit_val c of
              Some d \<Rightarrow> exp_loop (if e < 10000 then e * 10 + int d else e) us s
            | None \<Rightarrow> (e, us, c # s)))"

definition exp_part :: "bool \<Rightarrow> bool \<Rightarrow> string \<Rightarrow> (int \<times> bool \<times> string) option" where
  "exp_part hex us s =
     (if s \<noteq> [] \<and> ascii_lower (hd s) = (if hex then CHR ''p'' else CHR ''e'') then
        (let (neg, t) = float_sign (tl s)
         in if t = [] \<or> digit_val (hd t) = None then None
            else (case exp_loop 0 us t of (e, us, rest) \<Rightarrow> Some (if neg then - e else e, us, rest)))
      else if hex then None
      else Some (0, us, s))"

text \<open>\<open>underscoreOK\<close>: the class of the last character is a digit or prefix, an underscore, or another one.\<close>

datatype saw = SawStart | SawDigit | SawUnder | SawOther

fun under_loop :: "bool \<Rightarrow> saw \<Rightarrow> string \<Rightarrow> bool" where
  "under_loop hex sw [] \<longleftrightarrow> sw \<noteq> SawUnder"
| "under_loop hex sw (c # s) \<longleftrightarrow>
     (if float_digit hex c \<noteq> None then under_loop hex SawDigit s
      else if c = CHR ''_'' then sw = SawDigit \<and> under_loop hex SawUnder s
      else sw \<noteq> SawUnder \<and> under_loop hex SawOther s)"

definition underscore_ok :: "string \<Rightarrow> bool" where
  "underscore_ok s =
     (let t = snd (float_sign s)
      in if length t \<ge> 2 \<and> hd t = CHR ''0'' \<and> ascii_lower (t ! 1) \<in> set ''box''
         then under_loop (ascii_lower (t ! 1) = CHR ''x'') SawDigit (drop 2 t)
         else under_loop False SawStart t)"

definition ten_pow :: "int \<Rightarrow> rat" where
  "ten_pow e = (if 0 \<le> e then 10 ^ nat e else 1 / 10 ^ nat (- e))"

text \<open>The number a text denotes; \<open>None\<close> is a syntax error.\<close>

definition read_float :: "string \<Rightarrow> rat option" where
  "read_float s =
     (let (neg, t) = float_sign s;
          hex = (length t > 2 \<and> hd t = CHR ''0'' \<and> ascii_lower (t ! 1) = CHR ''x'');
          (m, nd, dot, us, rest) = mant_loop hex 0 0 None False (if hex then drop 2 t else t);
          frac = (case dot of None \<Rightarrow> 0 | Some dp \<Rightarrow> nd - dp)
      in if nd = 0 then None
         else (case exp_part hex us rest of
                 None \<Rightarrow> None
               | Some (e, us, rest) \<Rightarrow>
                   if rest \<noteq> [] \<or> (us \<and> \<not> underscore_ok s) then None
                   else Some ((if neg then - 1 else 1) * of_int m * (if hex then two_pow (e - 4 * frac) else ten_pow (e - frac)))))"

definition parse_float :: "string \<Rightarrow> float64 \<times> num_error option" where
  "parse_float s =
     (case float_special s of
        Some x \<Rightarrow> (x, None)
      | None \<Rightarrow>
          (case read_float s of
             None \<Rightarrow> (Fin 0, Some ErrSyntax)
           | Some q \<Rightarrow> (case fl q of Fin v \<Rightarrow> (Fin v, None) | x \<Rightarrow> (x, Some ErrRange))))"

section \<open>Fields of a line\<close>

lemma space_split_nonempty [simp]: "space_split s \<noteq> []"
  by (cases s) (auto split: option.split list.split)

lemma space_split_solid:
  assumes "list_all solid w"
  shows "space_split w = [w]"
  using assms
proof (induction w)
  case (Cons c w)
  have "find (has_prefix (c # w)) space_runes = None"
  proof (rule ccontr)
    assume "find (has_prefix (c # w)) space_runes \<noteq> None"
    then obtain r where r: "r \<in> set space_runes" "has_prefix (c # w) r" by (auto simp: find_None_iff)
    with space_runes_hd [OF r(1)] have "hd r = c" by (cases r) (auto simp: has_prefix_def)
    with space_runes_hd [OF r(1)] Cons.prems show False by simp
  qed
  with Cons show ?case by simp
qed simp

lemma space_runes_plain: "r \<in> set space_runes \<Longrightarrow> r = '' '' \<or> CHR '' '' \<notin> set r"
proof -
  have "\<forall>r \<in> set space_runes. r = '' '' \<or> CHR '' '' \<notin> set r" by code_simp
  then show "r \<in> set space_runes \<Longrightarrow> r = '' '' \<or> CHR '' '' \<notin> set r" by blast
qed

lemma has_prefix_before:
  assumes "x \<notin> set r"
  shows "has_prefix (s @ x # t) r \<longleftrightarrow> has_prefix s r"
proof
  assume *: "has_prefix (s @ x # t) r"
  have "length r \<le> length s"
  proof (rule ccontr)
    assume "\<not> length r \<le> length s"
    then have "take (length r) (s @ x # t) ! length s = x" "length s < length r" by (simp_all add: nth_append)
    with * have "x \<in> set r" by (metis has_prefix_def nth_mem)
    with assms show False by simp
  qed
  with * show "has_prefix s r" by (simp add: has_prefix_def)
next
  assume "has_prefix s r"
  then have "take (length r) s = r" by (simp add: has_prefix_def)
  moreover from this have "length r \<le> length s" by (metis length_take min.cobounded1)
  ultimately show "has_prefix (s @ x # t) r" by (simp add: has_prefix_def)
qed

lemma space_split_append: "space_split (s @ CHR '' '' # t) = space_split s @ space_split t"
proof (induction s rule: space_split.induct)
  case 1
  have "find (has_prefix (CHR '' '' # t)) space_runes = Some '' ''"
    by (simp add: space_runes_def has_prefix_def)
  then show ?case by simp
next
  case (2 c s)
  have same: "has_prefix (c # s @ CHR '' '' # t) r = has_prefix (c # s) r" if "r \<in> set space_runes" for r
    using space_runes_plain [OF that] has_prefix_before [of "CHR '' ''" r "c # s" t] by (auto simp: has_prefix_def)
  then have f: "find (has_prefix (c # s @ CHR '' '' # t)) space_runes = find (has_prefix (c # s)) space_runes"
    by (rule find_cong [OF refl])
  show ?case
  proof (cases "find (has_prefix (c # s)) space_runes")
    case None
    with 2 f show ?thesis by (auto split: list.split)
  next
    case (Some r)
    then have "has_prefix (c # s) r" by (auto simp: find_Some_iff)
    then have "length r \<le> Suc (length s)" by (auto simp: has_prefix_def dest: arg_cong [of _ _ length])
    with Some 2 f show ?thesis by simp
  qed
qed

lemma fields_last: "list_all solid w \<Longrightarrow> w \<noteq> [] \<Longrightarrow> str_fields (s @ CHR '' '' # w) = str_fields s @ [w]"
  by (simp add: str_fields_def space_split_append space_split_solid)

lemma fields_nonempty:
  assumes "solid c"
  shows "str_fields (c # s) \<noteq> []"
proof -
  have "find (has_prefix (c # s)) space_runes = None"
    using space_runes_hd assms by (fastforce simp: find_None_iff has_prefix_def neq_Nil_conv)
  then have "hd (space_split (c # s)) \<noteq> []" by (auto split: list.split)
  then show ?thesis using space_split_nonempty [of "c # s"] unfolding str_fields_def by (metis (mono_tags) filter_empty_conv hd_in_set)
qed

section \<open>Decimal integers are read back\<close>

lemma mant_loop_digits:
  "list_all (\<lambda>c. digit_val c \<noteq> None) ds \<Longrightarrow>
     mant_loop False m nd None False ds = (foldl (\<lambda>m c. m * 10 + int (the (digit_val c))) m ds, nd + int (length ds), None, False, [])"
proof (induction ds arbitrary: m nd)
  case (Cons c ds)
  then have "c \<noteq> CHR ''_''" "c \<noteq> CHR ''.''" by (auto simp: digit_val_def Let_def)
  with Cons show ?case by (auto simp: float_digit_def)
qed simp

lemma show_nat_value: "foldl (\<lambda>m c. m * 10 + int (the (digit_val c))) 0 (show_nat n) = int n"
proof (induction n rule: show_nat.induct)
  case (1 n)
  show ?case
  proof (cases "n < 10")
    case True
    then show ?thesis by (subst show_nat.simps) simp
  next
    case False
    then have "show_nat n = show_nat (n div 10) @ [digit_char (n mod 10)]" by (subst show_nat.simps) simp
    moreover have "int (n div 10) * 10 + int (n mod 10) = int n" by presburger
    ultimately show ?thesis using 1 [OF False] by simp
  qed
qed

lemma show_nat_hd: "\<exists>c u. show_nat n = c # u \<and> digit_val c \<noteq> None"
  using hd_show_nat [of n] by (cases "show_nat n") auto

lemma read_float_show: "read_float (show_nat n) = Some (of_nat n)"
proof -
  obtain c u where s: "show_nat n = c # u" "digit_val c \<noteq> None" using show_nat_hd by blast
  have all: "list_all (\<lambda>c. digit_val c \<noteq> None) (show_nat n)" using show_nat_digits [of _ n] by (fastforce simp: list_all_iff)
  from s have "c \<noteq> CHR ''+''" "c \<noteq> CHR ''-''" by (auto simp: digit_val_def Let_def)
  with s have sign: "float_sign (show_nat n) = (False, show_nat n)" by (simp add: float_sign_def)
  have "\<not> (length (show_nat n) > 2 \<and> ascii_lower (show_nat n ! 1) = CHR ''x'')"
  proof
    assume *: "length (show_nat n) > 2 \<and> ascii_lower (show_nat n ! 1) = CHR ''x''"
    then have "show_nat n ! 1 \<in> set (show_nat n)" by (intro nth_mem) simp
    with all have "digit_val (show_nat n ! 1) \<noteq> None" by (simp add: list_all_iff)
    then have "ascii_lower (show_nat n ! 1) \<noteq> CHR ''x''" by (auto simp: digit_val_def ascii_lower_def Let_def split: if_splits)
    with * show False by simp
  qed
  then have hex: "(length (show_nat n) > 2 \<and> hd (show_nat n) = CHR ''0'' \<and> ascii_lower (show_nat n ! 1) = CHR ''x'') = False"
    by blast
  show ?thesis
    unfolding read_float_def sign Let_def prod.case hex
    using mant_loop_digits [OF all, of 0 0] by (simp add: show_nat_value exp_part_def ten_pow_def)
qed

lemma float_special_show: "float_special (show_nat n) = None"
proof -
  obtain c u where s: "show_nat n = c # u" "digit_val c \<noteq> None" using show_nat_hd by blast
  then have "c \<noteq> CHR ''+''" "c \<noteq> CHR ''-''" "ascii_lower c = c" "c \<noteq> CHR ''i''" "c \<noteq> CHR ''n''"
    by (auto simp: digit_val_def ascii_lower_def Let_def split: if_splits)
  with s show ?thesis by (simp add: float_special_def float_sign_def)
qed

lemma parse_float_show: "n \<le> 2 ^ 53 \<Longrightarrow> parse_float (show_nat n) = (Fin (of_nat n), None)"
  using f_of_int_exact [of "int n"]
  by (simp add: parse_float_def float_special_show read_float_show f_of_int_def)

end
