(* ===== verification/Standalone.thy ===== *)
theory Standalone
  imports Console Go_Parse
begin

text \<open>
  \<^verbatim>\<open>cmd/tui/main.go\<close>: the console that runs as its own process and sees the gateway only over HTTP.

  \<^item> \<open>standaloneModel\<close> holds the fields of the source's struct. What the requests reach is a world
    of any type: \<open>send\<close> gives the reply to a request and the world after it.
  \<^item> \<open>pollGatewayMetrics\<close> reads the metrics page line by line, and then the panic status.
  \<^item> \<open>standalone_Update\<close> handles one message. The requests of the goroutines it starts are part of its
    result; what these goroutines log goes to a copy of the model that has already been returned.

  \<open>gw_send\<close> connects the console with the gateway of \<open>Proxy\<close>. Shown: neither messages nor the
  screen panic; the polled counts are those of the gateway's own counters; and the confirmed
  cutoff does not toggle the gateway's.
\<close>

section \<open>Definitions\<close>

record 'y standaloneModel =
  sm_gatewayURL :: string
  sm_themeIdx :: nat
  sm_styles :: "'y Styles"
  sm_width :: i64
  sm_height :: i64
  sm_modal :: ModalState
  sm_logs :: "string list"
  sm_startTime :: gotime
  sm_normalCount :: i64
  sm_burstCount :: i64
  sm_blockedCount :: i64
  sm_replayBlocked :: i64
  sm_cacheFallbacks :: i64
  sm_dlqPending :: i64
  sm_p95Latency :: float64
  sm_p99Latency :: float64
  sm_revenue :: float64
  sm_cbState :: string
  sm_jitterActive :: bool
  sm_burstFrozen :: bool
  sm_recentSamples :: "float64 list"

definition emo_satellite :: string where
  "emo_satellite = [CHR 0xF0, CHR 0x9F, CHR 0x9B, CHR 0xB0, CHR 0xEF, CHR 0xB8, CHR 0x8F]"

definition initial_standalone :: "'y lipgloss \<Rightarrow> string \<Rightarrow> gotime \<Rightarrow> 'y standaloneModel" where
  "initial_standalone lg url now =
     (let initTheme = DetectInitialTheme lg
      in \<lparr>sm_gatewayURL = url, sm_themeIdx = initTheme, sm_styles = MakeStyles lg (Themes ! initTheme), sm_width = 0, sm_height = 0,
          sm_modal = NewModalState,
          sm_logs = [emo_satellite @ '' AegisPulse Standalone TUI Cockpit connected to '' @ url,
                     emo_zap @ '' Real-time telemetry poller active.''],
          sm_startTime = now, sm_normalCount = 0, sm_burstCount = 0, sm_blockedCount = 0, sm_replayBlocked = 0,
          sm_cacheFallbacks = 0, sm_dlqPending = 0, sm_p95Latency = Fin 0, sm_p99Latency = Fin 0, sm_revenue = Fin 0,
          sm_cbState = ''CLOSED'', sm_jitterActive = False, sm_burstFrozen = False, sm_recentSamples = []\<rparr>)"

definition tickRemoteCmd :: tea_cmd where
  "tickRemoteCmd = TickCmd (400 * millisecond)"

definition standalone_Init :: "tea_cmd list" where
  "standalone_Init = [EnterAltScreen, tickRemoteCmd]"

text \<open>
  The reply to a request: none, or a status, a header and a body, with whether reading the body ends
  with an error. The surroundings of a message: the time of day as text, the round trip of the poll in
  microseconds, and the implementation's conversions out of range.
\<close>

datatype remote_reply = Unreached | Reply int http_header bytes bool

record remote_env =
  rstamp :: string
  rtt_us :: i64
  roob :: "float64 \<Rightarrow> i64"

type_synonym 'w sender = "client_req \<Rightarrow> 'w \<Rightarrow> remote_reply \<times> 'w"

definition get_request :: "string \<Rightarrow> string \<Rightarrow> client_req" where
  "get_request u path = \<lparr>cr_Method = ''GET'', cr_URL = u @ path, cr_Header = [], cr_Body = []\<rparr>"

definition post_request :: "string \<Rightarrow> string \<Rightarrow> bytes \<Rightarrow> client_req" where
  "post_request u path body =
     \<lparr>cr_Method = ''POST'', cr_URL = u @ path, cr_Header = hdr_set ''Content-Type'' ''application/json'' [], cr_Body = body\<rparr>"

definition standalone_addLog :: "string \<Rightarrow> string \<Rightarrow> 'y standaloneModel \<Rightarrow> 'y standaloneModel" where
  "standalone_addLog timestamp msg m =
     (let ls = sm_logs m @ [''['' @ timestamp @ ''] '' @ msg]
      in m\<lparr>sm_logs := (if length ls > 8 then drop 1 ls else ls)\<rparr>)"

subsection \<open>Polling\<close>

definition parseLastFloat :: "string \<Rightarrow> float64" where
  "parseLastFloat line =
     (let parts = str_fields line
      in if length parts \<ge> 2 then (case parse_float (last parts) of (val, None) \<Rightarrow> val | _ \<Rightarrow> Fin 0) else Fin 0)"

definition parseLastInt :: "(float64 \<Rightarrow> i64) \<Rightarrow> string \<Rightarrow> i64" where
  "parseLastInt oob' line =
     (let parts = str_fields line
      in if length parts \<ge> 2 then (case parse_float (last parts) of (val, None) \<Rightarrow> f_to_int oob' val | _ \<Rightarrow> 0) else 0)"

definition calcPercentiles :: "(float64 \<Rightarrow> i64) \<Rightarrow> float64 list \<Rightarrow> (float64 \<times> float64) option" where
  "calcPercentiles oob' xs =
     (let n = length xs
      in if n = 0 then Some (Fin 0, Fin 0)
         else
           (let sorted = sort xs;
                p95Idx = percentile_index oob' (fl (95 / 100)) n;
                p99Idx = percentile_index oob' (fl (99 / 100)) n
            in case (slice_at sorted p95Idx, slice_at sorted p99Idx) of
                 (Some a, Some b) \<Rightarrow> Some (a, b)
               | _ \<Rightarrow> None))"

record poll_counts =
  newNormal :: i64
  newBurst :: i64
  newBlocked :: i64
  newReplay :: i64

definition status_label :: "string \<Rightarrow> string" where
  "status_label s = ''status='' @ quoted s"

definition poll_line ::
  "(float64 \<Rightarrow> i64) \<Rightarrow> string \<Rightarrow> poll_counts \<times> 'y standaloneModel \<Rightarrow> poll_counts \<times> 'y standaloneModel" where
  "poll_line oob' l pm =
     (let (p, m) = pm
      in if has_prefix l ''aegispulse_requests_total{'' then
           (if contains l (status_label ''NORMAL'') then (p\<lparr>newNormal := wrap64 (newNormal p + parseLastInt oob' l)\<rparr>, m)
            else if contains l (status_label ''BURST'') then (p\<lparr>newBurst := wrap64 (newBurst p + parseLastInt oob' l)\<rparr>, m)
            else if contains l (status_label ''BLOCKED'') \<or> contains l (status_label ''BURST_FROZEN'') then
              (p\<lparr>newBlocked := wrap64 (newBlocked p + parseLastInt oob' l)\<rparr>, m)
            else (p, m))
         else if has_prefix l ''aegispulse_replay_attacks_blocked_total{'' then
           (p\<lparr>newReplay := wrap64 (newReplay p + parseLastInt oob' l)\<rparr>, m)
         else if has_prefix l ''aegispulse_cache_fallback_total '' then (p, m\<lparr>sm_cacheFallbacks := parseLastInt oob' l\<rparr>)
         else if has_prefix l ''aegispulse_dlq_pending_total '' then (p, m\<lparr>sm_dlqPending := parseLastInt oob' l\<rparr>)
         else if has_prefix l ''aegispulse_monetized_burst_revenue_dollars '' then (p, m\<lparr>sm_revenue := parseLastFloat l\<rparr>)
         else (p, m))"

definition poll_page :: "(float64 \<Rightarrow> i64) \<Rightarrow> bytes \<Rightarrow> 'y standaloneModel \<Rightarrow> 'y standaloneModel" where
  "poll_page oob' body m =
     (case fold (poll_line oob') (split_on (CHR 0x0A) body) (\<lparr>newNormal = 0, newBurst = 0, newBlocked = 0, newReplay = 0\<rparr>, m) of
        (p, m) \<Rightarrow> m\<lparr>sm_normalCount := newNormal p, sm_burstCount := newBurst p, sm_blockedCount := newBlocked p,
                   sm_replayBlocked := newReplay p\<rparr>)"

text \<open>
  \<open>Decode\<close> into the status struct: an error when the body has no JSON value, when the value is
  neither an object nor null, or when a field has a value of another type.
\<close>

definition status_decode :: "bytes \<Rightarrow> (string \<times> bool \<times> bool \<times> bool) option" where
  "status_decode b =
     (let bools = (\<lambda>f. list_all (\<lambda>v. case v of VBool _ \<Rightarrow> True | VNull \<Rightarrow> True | _ \<Rightarrow> False) (field_values f b));
          strs = (\<lambda>f. list_all (\<lambda>v. case v of VStr _ \<Rightarrow> True | VNull \<Rightarrow> True | _ \<Rightarrow> False) (field_values f b));
          ok = (case json_decode b of
                  Some VNull \<Rightarrow> True
                | Some (VObj _) \<Rightarrow>
                    strs ''circuit_breaker'' \<and> bools ''emergency_cutoff'' \<and> bools ''burst_frozen'' \<and> bools ''jitter_active''
                | _ \<Rightarrow> False)
      in if ok then Some (body_str ''circuit_breaker'' b, body_bool ''emergency_cutoff'' b, body_bool ''burst_frozen'' b,
                          body_bool ''jitter_active'' b)
         else None)"

definition poll_status :: "remote_reply \<Rightarrow> 'y standaloneModel \<Rightarrow> 'y standaloneModel" where
  "poll_status rep m =
     (case rep of
        Unreached \<Rightarrow> m
      | Reply _ _ body _ \<Rightarrow>
          (case status_decode body of
             None \<Rightarrow> m
           | Some (st, ec, fz, jit) \<Rightarrow>
               m\<lparr>sm_cbState := (if ec then ''EMERGENCY CUTOFF'' else st), sm_burstFrozen := fz, sm_jitterActive := jit\<rparr>))"

definition poll_latency :: "remote_env \<Rightarrow> 'y standaloneModel \<Rightarrow> 'y standaloneModel option" where
  "poll_latency re m =
     (let rttMs = f_div (f_of_int (rtt_us re)) (Fin 1000)
      in if f_lt (Fin 0) rttMs then
           (let recent = sm_recentSamples m @ [rttMs];
                recent = (if length recent > 30 then drop 1 recent else recent)
            in case calcPercentiles (roob re) recent of
                 None \<Rightarrow> None
               | Some (a, b) \<Rightarrow> Some (m\<lparr>sm_recentSamples := recent, sm_p95Latency := a, sm_p99Latency := b\<rparr>))
         else Some m)"

definition pollGatewayMetrics ::
  "'w sender \<Rightarrow> remote_env \<Rightarrow> 'y standaloneModel \<times> 'w \<Rightarrow> ('y standaloneModel \<times> 'w) option" where
  "pollGatewayMetrics send re mw =
     (let (m, w) = mw
      in case send (get_request (sm_gatewayURL m) ''/metrics'') w of
           (Unreached, w) \<Rightarrow> Some (m, w)
         | (Reply _ _ body err, w) \<Rightarrow>
             (case poll_latency re m of
                None \<Rightarrow> None
              | Some m \<Rightarrow>
                  if err then Some (m, w)
                  else
                    (let m = poll_page (roob re) body m;
                         (rep, w) = send (get_request (sm_gatewayURL m) ''/api/v1/panic/status'') w
                     in Some (poll_status rep m, w))))"

subsection \<open>Actions\<close>

definition triggerRemoteBurst :: "string \<Rightarrow> 'y standaloneModel \<Rightarrow> 'y standaloneModel \<times> client_req list" where
  "triggerRemoteBurst ts m =
     (let keys = [''aegis_live_free_key_1001'', ''aegis_live_pro_key_2002'']
      in (standalone_addLog ts (emo_rocket @ '' Unleashing remote traffic burst (100 requests)...'') m,
          map (\<lambda>i. resource_request (sm_gatewayURL m) (keys ! (i mod length keys))) [0..<100]))"

definition toggleRemoteJitter :: "'w sender \<Rightarrow> string \<Rightarrow> 'y standaloneModel \<times> 'w \<Rightarrow> 'y standaloneModel \<times> 'w" where
  "toggleRemoteJitter send ts mw =
     (let (m, w) = mw;
          (rep, w) = send (post_request (sm_gatewayURL m) ''/api/v1/panic/jitter'' ''{}'') w;
          m = m\<lparr>sm_jitterActive := (case rep of
                  Unreached \<Rightarrow> \<not> sm_jitterActive m
                | Reply _ _ body _ \<Rightarrow> body_bool ''jitter_active'' body)\<rparr>
      in (standalone_addLog ts (emo_zap @ '' Upstream jitter toggled on gateway: '' @
            (if sm_jitterActive m then ''ENABLED (200-500ms)'' else ''DISABLED'')) m, w))"

definition replay_attack_request :: "string \<Rightarrow> client_req" where
  "replay_attack_request u =
     \<lparr>cr_Method = ''POST'', cr_URL = u @ ''/api/transfer'',
      cr_Header = hdr_set ''Content-Type'' ''application/json''
        (hdr_set ''X-Aegis-Signature'' ''t=100000,v1=deadbeef1234'' (hdr_set ''X-API-Key'' ''aegis_live_free_key_1001'' [])),
      cr_Body = ''{'' @ quoted ''exploit'' @ '':true}''\<rparr>"

definition triggerRemoteReplayAttack :: "string \<Rightarrow> 'y standaloneModel \<Rightarrow> 'y standaloneModel \<times> client_req" where
  "triggerRemoteReplayAttack ts m =
     (standalone_addLog ts (emo_swords @ '' Injecting simulated replay attack with expired timestamp...'') m,
      replay_attack_request (sm_gatewayURL m))"

definition executeRemoteModal :: "'w sender \<Rightarrow> string \<Rightarrow> 'y standaloneModel \<times> 'w \<Rightarrow> 'y standaloneModel \<times> 'w" where
  "executeRemoteModal send ts mw =
     (let (m, w) = mw;
          post = (\<lambda>path j. send (post_request (sm_gatewayURL m) path (json_bytes j)) w)
      in case Type (sm_modal m) of
           ModalKillSwitch \<Rightarrow>
             (let target = TargetKey (sm_modal m)
              in case post ''/api/v1/panic/kill'' (JObj [(''api_key'', JStr target)]) of
                   (Unreached, w) \<Rightarrow> (m, w)
                 | (Reply _ _ _ _, w) \<Rightarrow>
                     (standalone_addLog ts (emo_siren @ '' KILL-SWITCH CONFIRMED: Key ['' @ target @ ''] frozen!'') m, w))
         | ModalBurstFreeze \<Rightarrow>
             (let m = m\<lparr>sm_burstFrozen := (\<not> sm_burstFrozen m)\<rparr>
              in case post ''/api/v1/panic/burst-freeze'' (JObj [(''frozen'', JBool (sm_burstFrozen m))]) of
                   (Unreached, w) \<Rightarrow> (m, w)
                 | (Reply _ _ _ _, w) \<Rightarrow>
                     (standalone_addLog ts (emo_warn @ '' GLOBAL BURST FREEZE toggled: '' @ bool_text (sm_burstFrozen m)) m, w))
         | ModalEmergencyCutoff \<Rightarrow>
             (let cutoff = (sm_cbState m \<noteq> ''OPEN'')
              in case post ''/api/v1/panic/emergency-cutoff'' (JObj [(''cutoff'', JBool cutoff)]) of
                   (Unreached, w) \<Rightarrow> (m, w)
                 | (Reply _ _ _ _, w) \<Rightarrow>
                     ((standalone_addLog ts (emo_stop @ '' EMERGENCY UPSTREAM CUTOFF toggled: '' @ bool_text cutoff) m)
                        \<lparr>sm_cbState := (if cutoff then ''OPEN'' else ''CLOSED'')\<rparr>, w))
         | ModalNone \<Rightarrow> (m, w))"

subsection \<open>Messages\<close>

definition remote_modal_key :: "'w sender \<Rightarrow> string \<Rightarrow> string \<Rightarrow> 'y standaloneModel \<times> 'w \<Rightarrow> 'y standaloneModel \<times> 'w" where
  "remote_modal_key send ts key mw =
     (if key \<in> set confirm_keys then
        (case executeRemoteModal send ts mw of (m, w) \<Rightarrow> (m\<lparr>sm_modal := Close (sm_modal m)\<rparr>, w))
      else if key \<in> set cancel_keys then
        (case mw of (m, w) \<Rightarrow>
           (let m = standalone_addLog ts (emo_forbidden @ '' Panic modal canceled by operator.'') m
            in (m\<lparr>sm_modal := Close (sm_modal m)\<rparr>, w)))
      else mw)"

definition remote_plain_key ::
  "'y lipgloss \<Rightarrow> 'w sender \<Rightarrow> string \<Rightarrow> string \<Rightarrow> 'y standaloneModel \<times> 'w
     \<Rightarrow> ('y standaloneModel \<times> 'w) \<times> tea_cmd \<times> client_req list" where
  "remote_plain_key lg send ts key mw =
     (let (m, w) = mw
      in if key \<in> {''q'', ''ctrl+c''} then ((m, w), QuitCmd, [])
         else if key \<in> {''t'', ''T''} then
           (let i = (sm_themeIdx m + 1) mod length Themes;
                m = m\<lparr>sm_themeIdx := i, sm_styles := MakeStyles lg (Themes ! i)\<rparr>
            in ((standalone_addLog ts (emo_palette @ '' Theme switched to ['' @ th_Name (Themes ! i) @ '']'') m, w), NoCmd, []))
         else if key = '' '' then (let (m, reqs) = triggerRemoteBurst ts m in ((m, w), NoCmd, reqs))
         else if key \<in> {''l'', ''L''} then (toggleRemoteJitter send ts (m, w), NoCmd, [])
         else if key \<in> {''a'', ''A''} then (let (m, req) = triggerRemoteReplayAttack ts m in ((m, w), NoCmd, [req]))
         else if key = ''ctrl+k'' then
           ((m\<lparr>sm_modal := Open ModalKillSwitch ''aegis_live_compromised_key_9999'' (sm_modal m)\<rparr>, w), NoCmd, [])
         else if key = ''ctrl+b'' then ((m\<lparr>sm_modal := Open ModalBurstFreeze [] (sm_modal m)\<rparr>, w), NoCmd, [])
         else if key = ''ctrl+u'' then ((m\<lparr>sm_modal := Open ModalEmergencyCutoff [] (sm_modal m)\<rparr>, w), NoCmd, [])
         else ((m, w), NoCmd, []))"

definition standalone_Update ::
  "'y lipgloss \<Rightarrow> 'w sender \<Rightarrow> remote_env \<Rightarrow> tea_msg \<Rightarrow> 'y standaloneModel \<times> 'w
     \<Rightarrow> (('y standaloneModel \<times> 'w) \<times> tea_cmd \<times> client_req list) option" where
  "standalone_Update lg send re msg mw =
     (let (m, w) = mw
      in case msg of
           WindowSizeMsg wd ht \<Rightarrow> Some ((m\<lparr>sm_width := wd, sm_height := ht\<rparr>, w), NoCmd, [])
         | TickMsg \<Rightarrow> map_option (\<lambda>mw. (mw, tickRemoteCmd, [])) (pollGatewayMetrics send re (m, w))
         | KeyMsg key \<Rightarrow>
             Some (if Active (sm_modal m) then (remote_modal_key send (rstamp re) key (m, w), NoCmd, [])
                   else remote_plain_key lg send (rstamp re) key (m, w))
         | _ \<Rightarrow> Some ((m, w), NoCmd, []))"

subsection \<open>The screen\<close>

definition remote_telemetry :: "'y lipgloss \<Rightarrow> (float64 \<Rightarrow> i64) \<Rightarrow> 'y standaloneModel \<Rightarrow> string option" where
  "remote_telemetry lg oob' m =
     (let st = sm_styles m;
          totalReqs = wrap64 (wrap64 (sm_normalCount m + sm_burstCount m) + sm_blockedCount m);
          totalReqs = (if totalReqs = 0 then 1 else totalReqs);
          bar = (\<lambda>n s. RenderHorizontalBar lg oob' n totalReqs 20 s (sty_Dim st))
      in case (bar (sm_normalCount m) (sty_Success st), bar (sm_burstCount m) (sty_Warning st),
               bar (sm_blockedCount m) (sty_Error st)) of
           (Some normalBar, Some burstBar, Some blockedBar) \<Rightarrow>
             Some (''TRAFFIC BREAKDOWN:'' @ nl @
               ''  NORMAL : '' @ pad5 (sm_normalCount m) @ ''  '' @ normalBar @ nl @
               ''  BURST  : '' @ pad5 (sm_burstCount m) @ ''  '' @ burstBar @ nl @
               ''  BLOCKED: '' @ pad5 (sm_blockedCount m) @ ''  '' @ blockedBar @ nl @ nl @
               ''CIRCUIT BREAKER  : '' @ Render lg (sty_Success st) (''['' @ sm_cbState m @ '']'') @ nl @
               ''UPSTREAM JITTER  : '' @ bool_text (sm_jitterActive m) @ nl @
               ''BURST FREEZE     : '' @ bool_text (sm_burstFrozen m) @ nl @
               ''REPLAY BLOCKS    : '' @ show_int (sm_replayBlocked m) @ nl @
               ''FALLBACK CACHED  : '' @ show_int (sm_cacheFallbacks m) @ '' requests'' @ nl @
               ''DLQ PENDING      : '' @ show_int (sm_dlqPending m) @ '' webhooks'' @ nl @
               ''BURST REVENUE    : '' @ Render lg (sty_Success st) (''$'' @ fmt_f4 (sm_revenue m) @ '' USD''))
         | _ \<Rightarrow> None)"

definition remote_spectrum :: "'y standaloneModel \<Rightarrow> string \<Rightarrow> string" where
  "remote_spectrum m sparkline =
     ''REAL-TIME LATENCY SPECTRUM:'' @ nl @ nl @
     ''  p95 LATENCY: '' @ fmt_f2 (sm_p95Latency m) @ '' ms'' @ nl @
     ''  p99 LATENCY: '' @ fmt_f2 (sm_p99Latency m) @ '' ms'' @ nl @ nl @
     ''  LATENCY TREND (Recent '' @ show_int (int (length (sm_recentSamples m))) @ '' probes):'' @ nl @
     ''  '' @ sparkline @ nl @ nl @
     ''CHAOS & DRILL CONTROLS:'' @ nl @
     ''  [Space]  Unleash sudden traffic burst (100 reqs)'' @ nl @
     ''  [L]      Toggle upstream latency jitter'' @ nl @
     ''  [A]      Inject expired timestamp replay attack'' @ nl @
     ''  [T]      Cycle Cyberpunk / Dracula / Mocha theme'' @ nl @
     ''  [q]      Quit cockpit''"

definition standalone_View :: "'y lipgloss \<Rightarrow> (float64 \<Rightarrow> i64) \<Rightarrow> 'y standaloneModel \<Rightarrow> string option" where
  "standalone_View lg oob' m =
     (let w = (if sm_width m \<le> 0 then 100 else sm_width m);
          st = sm_styles m
      in if Active (sm_modal m) then Some (RenderModal lg (sm_modal m) st w)
         else
           (case (slice_at Themes (int (sm_themeIdx m)), remote_telemetry lg oob' m,
                  RenderSparkline lg oob' (sm_recentSamples m) 30 (sty_Sparkline st)) of
              (Some theme, Some content, Some sparkline) \<Rightarrow>
                (let header = Render lg (sty_Header st) ('' AEGISPULSE CYBER-DECK COCKPIT (STANDALONE) | TARGET: '' @
                       sm_gatewayURL m @ '' | THEME: '' @ th_Name theme @ '' '');
                     box = Width lg (w div 2 - 3) (sty_Box st);
                     mainRow = JoinHorizontal lg PosTop [Render lg box content, Render lg box (remote_spectrum m sparkline)];
                     logBox = Render lg (Width lg (w - 4) (sty_Box st))
                       (''SECURITY & GATEWAY ACTIVITY STREAM:'' @ nl @ join (sm_logs m) nl);
                     panicBar = Render lg (Width lg (w - 4) (sty_AlertBox st)) hotkey_bar
                 in Some (JoinVertical lg PosLeft [header, mainRow, logBox, panicBar]))
            | _ \<Rightarrow> None))"

subsection \<open>Runs, and the connection with the gateway\<close>

text \<open>A run gives each message the sender and the surroundings it meets.\<close>

fun standalone_run ::
  "'y lipgloss \<Rightarrow> ('w sender \<times> remote_env \<times> tea_msg) list \<Rightarrow> 'y standaloneModel \<times> 'w \<Rightarrow> ('y standaloneModel \<times> 'w) option" where
  "standalone_run lg [] mw = Some mw"
| "standalone_run lg ((send, re, msg) # ms) mw =
     (case standalone_Update lg send re msg mw of None \<Rightarrow> None | Some (mw', _, _) \<Rightarrow> standalone_run lg ms mw')"

definition standalone_ok :: "'y lipgloss \<Rightarrow> 'y standaloneModel \<Rightarrow> bool" where
  "standalone_ok lg m \<longleftrightarrow> length (sm_logs m) \<le> 8 \<and> length (sm_recentSamples m) \<le> 30 \<and> sm_themeIdx m < length Themes \<and>
     sm_styles m = MakeStyles lg (Themes ! sm_themeIdx m) \<and>
     in_i64 (sm_normalCount m) \<and> in_i64 (sm_burstCount m) \<and> in_i64 (sm_blockedCount m)"

text \<open>
  A request of a client to the gateway at \<open>base\<close>, and its reply; the server closes the connection
  of a handler that panics.
\<close>

definition to_request :: "string \<Rightarrow> client_req \<Rightarrow> http_request" where
  "to_request base c =
     (let path = drop (length base) (cr_URL c)
      in \<lparr>r_Method = cr_Method c, r_Path = path, r_RequestURI = path, r_Header = cr_Header c, r_Body = Some (cr_Body c)\<rparr>)"

definition reply_of :: "resp_writer \<Rightarrow> remote_reply" where
  "reply_of w = (case w_sent w of None \<Rightarrow> Reply 200 (w_Header w) (w_body w) False | Some (code, hdr) \<Rightarrow> Reply code hdr (w_body w) False)"

definition gw_send :: "req_env \<Rightarrow> string \<Rightarrow> string \<Rightarrow> ('l, 'd, 'k, 'r, 's) gateway sender" where
  "gw_send e h base c g =
     (case ServeHTTP e h (to_request base c) new_writer g of
        (panicked, w, g) \<Rightarrow>
          (if panicked then Unreached else reply_of w, g))"

section \<open>The console stays in range\<close>

lemma calcPercentiles_same: "calcPercentiles oob' xs = calculatePercentiles oob' xs"
  by (simp add: calcPercentiles_def calculatePercentiles_def)

lemma standalone_addLog_simps [simp]:
  "sm_themeIdx (standalone_addLog ts s m) = sm_themeIdx m" "sm_styles (standalone_addLog ts s m) = sm_styles m"
  "sm_modal (standalone_addLog ts s m) = sm_modal m" "sm_recentSamples (standalone_addLog ts s m) = sm_recentSamples m"
  "sm_normalCount (standalone_addLog ts s m) = sm_normalCount m" "sm_burstCount (standalone_addLog ts s m) = sm_burstCount m"
  "sm_blockedCount (standalone_addLog ts s m) = sm_blockedCount m" "sm_gatewayURL (standalone_addLog ts s m) = sm_gatewayURL m"
  "sm_cbState (standalone_addLog ts s m) = sm_cbState m" "sm_burstFrozen (standalone_addLog ts s m) = sm_burstFrozen m"
  by (simp_all add: standalone_addLog_def Let_def)

lemma standalone_addLog_ok: "standalone_ok lg m \<Longrightarrow> standalone_ok lg (standalone_addLog ts s m)"
  by (simp add: standalone_ok_def) (auto simp: standalone_addLog_def Let_def)

lemma standalone_ok_update:
  "standalone_ok lg (m\<lparr>sm_modal := x\<rparr>) = standalone_ok lg m" "standalone_ok lg (m\<lparr>sm_width := a, sm_height := b\<rparr>) = standalone_ok lg m"
  "standalone_ok lg (m\<lparr>sm_cbState := c\<rparr>) = standalone_ok lg m" "standalone_ok lg (m\<lparr>sm_burstFrozen := d\<rparr>) = standalone_ok lg m"
  "standalone_ok lg (m\<lparr>sm_jitterActive := d\<rparr>) = standalone_ok lg m" "standalone_ok lg (m\<lparr>sm_cacheFallbacks := n\<rparr>) = standalone_ok lg m"
  "standalone_ok lg (m\<lparr>sm_dlqPending := n\<rparr>) = standalone_ok lg m" "standalone_ok lg (m\<lparr>sm_revenue := v\<rparr>) = standalone_ok lg m"
  "standalone_ok lg (m\<lparr>sm_cbState := c, sm_burstFrozen := d, sm_jitterActive := e\<rparr>) = standalone_ok lg m"
  by (simp_all add: standalone_ok_def)

definition counts_ok :: "poll_counts \<Rightarrow> bool" where
  "counts_ok p \<longleftrightarrow> in_i64 (newNormal p) \<and> in_i64 (newBurst p) \<and> in_i64 (newBlocked p)"

definition poll_kept :: "'y lipgloss \<Rightarrow> poll_counts \<times> 'y standaloneModel \<Rightarrow> poll_counts \<times> 'y standaloneModel \<Rightarrow> bool" where
  "poll_kept lg pm pm' \<longleftrightarrow> (standalone_ok lg (snd pm) \<longrightarrow> standalone_ok lg (snd pm')) \<and> sm_modal (snd pm') = sm_modal (snd pm) \<and>
     sm_gatewayURL (snd pm') = sm_gatewayURL (snd pm) \<and> (counts_ok (fst pm) \<longrightarrow> counts_ok (fst pm'))"

lemma poll_line_kept: "poll_kept lg pm (poll_line oob' l pm)"
  by (cases pm) (simp add: poll_kept_def counts_ok_def poll_line_def standalone_ok_update Let_def)

lemma poll_lines_kept: "poll_kept lg pm (fold (poll_line oob') ls pm)"
proof (induction ls arbitrary: pm)
  case (Cons l ls)
  from Cons [of "poll_line oob' l pm"] poll_line_kept [of lg pm oob' l] show ?case by (auto simp: poll_kept_def)
qed (simp add: poll_kept_def)

lemma poll_page_keeps:
  "(standalone_ok lg m \<longrightarrow> standalone_ok lg (poll_page oob' b m)) \<and> sm_modal (poll_page oob' b m) = sm_modal m \<and>
     sm_gatewayURL (poll_page oob' b m) = sm_gatewayURL m"
proof -
  let ?p = "\<lparr>newNormal = 0, newBurst = 0, newBlocked = 0, newReplay = 0\<rparr>"
  have "counts_ok ?p" by (simp add: counts_ok_def in_i64_def)
  with poll_lines_kept [of lg "(?p, m)" oob' "split_on (CHR 0x0A) b"] show ?thesis
    by (auto simp: poll_page_def poll_kept_def counts_ok_def standalone_ok_def split: prod.split)
qed

lemmas poll_page_ok = poll_page_keeps [THEN conjunct1, rule_format]
  and poll_page_simps [simp] = poll_page_keeps [THEN conjunct2, THEN conjunct1] poll_page_keeps [THEN conjunct2, THEN conjunct2]

lemma poll_latency_keeps:
  assumes "length (sm_recentSamples m) \<le> 30"
  shows "\<exists>m'. poll_latency re m = Some m' \<and> (standalone_ok lg m \<longrightarrow> standalone_ok lg m') \<and> sm_modal m' = sm_modal m \<and>
    sm_gatewayURL m' = sm_gatewayURL m"
proof -
  let ?x = "f_div (f_of_int (rtt_us re)) (Fin 1000)"
  let ?r = "if length (sm_recentSamples m @ [?x]) > 30 then drop 1 (sm_recentSamples m @ [?x]) else sm_recentSamples m @ [?x]"
  have len: "length ?r \<le> 30" using assms by auto
  then obtain a b where "calcPercentiles (roob re) ?r = Some (a, b)"
    using percentiles_total [of ?r "roob re"] by (auto simp: calcPercentiles_same)
  with len show ?thesis by (auto simp: poll_latency_def standalone_ok_def Let_def)
qed

lemma poll_status_ok: "standalone_ok lg m \<Longrightarrow> standalone_ok lg (poll_status rep m)"
  by (simp add: poll_status_def standalone_ok_update split: remote_reply.split option.split)

lemma poll_status_modal [simp]: "sm_modal (poll_status rep m) = sm_modal m" "sm_gatewayURL (poll_status rep m) = sm_gatewayURL m"
  by (simp_all add: poll_status_def split: remote_reply.split option.split)

lemma poll_keeps:
  assumes "length (sm_recentSamples m) \<le> 30"
  shows "\<exists>m' w'. pollGatewayMetrics send re (m, w) = Some (m', w') \<and> (standalone_ok lg m \<longrightarrow> standalone_ok lg m') \<and> sm_modal m' = sm_modal m"
proof -
  obtain rep w1 where s: "send (get_request (sm_gatewayURL m) ''/metrics'') w = (rep, w1)" by (rule prod.exhaust)
  obtain m1 where m1: "poll_latency re m = Some m1" "standalone_ok lg m \<longrightarrow> standalone_ok lg m1" "sm_modal m1 = sm_modal m"
    using poll_latency_keeps [OF assms] by blast
  with s show ?thesis
    by (cases rep) (auto simp: pollGatewayMetrics_def Let_def split: prod.split intro: poll_status_ok poll_page_ok)
qed

lemma remote_execute_ok:
  "standalone_ok lg m \<Longrightarrow> standalone_ok lg (fst (executeRemoteModal send ts (m, w)))"
  by (simp add: executeRemoteModal_def standalone_addLog_ok standalone_ok_update Let_def
      split: ModalType.split prod.split remote_reply.split)

lemma remote_plain_key_ok:
  assumes "standalone_ok lg m"
  shows "standalone_ok lg (fst (fst (remote_plain_key lg send ts key (m, w))))"
proof -
  have "standalone_ok lg (m\<lparr>sm_themeIdx := i, sm_styles := MakeStyles lg (Themes ! i)\<rparr>)" if "i < length Themes" for i
    using assms that by (simp add: standalone_ok_def)
  moreover have "standalone_ok lg (fst (toggleRemoteJitter send ts (m, w)))"
    using assms by (simp add: toggleRemoteJitter_def standalone_addLog_ok standalone_ok_update Let_def split: prod.split)
  ultimately show ?thesis
    using assms unfolding remote_plain_key_def Let_def prod.case case_prod_unfold
    by (simp only: if_distrib [of fst] fst_conv)
      (simp add: standalone_addLog_ok standalone_ok_update triggerRemoteBurst_def triggerRemoteReplayAttack_def Let_def)
qed

lemma standalone_Update_ok:
  assumes "standalone_ok lg m"
  shows "\<exists>m' w' c rs. standalone_Update lg send re msg (m, w) = Some ((m', w'), c, rs) \<and> standalone_ok lg m'"
proof (cases msg)
  case TickMsg
  have "length (sm_recentSamples m) \<le> 30" using assms by (simp add: standalone_ok_def)
  from poll_keeps [OF this, of send re w lg] assms TickMsg show ?thesis by (auto simp: standalone_Update_def)
next
  case (KeyMsg key)
  have "standalone_ok lg (fst (remote_modal_key send (rstamp re) key (m, w)))"
    using remote_execute_ok [OF assms, of send "rstamp re" w] assms
    by (auto simp: remote_modal_key_def standalone_ok_update standalone_addLog_ok Let_def split: prod.split)
  with remote_plain_key_ok [OF assms, of send "rstamp re" key w] KeyMsg show ?thesis
    by (cases "remote_modal_key send (rstamp re) key (m, w)"; cases "remote_plain_key lg send (rstamp re) key (m, w)")
      (auto simp: standalone_Update_def)
qed (use assms in \<open>simp_all add: standalone_Update_def standalone_ok_update\<close>)

lemma standalone_run_ok:
  "standalone_ok lg m \<Longrightarrow> \<exists>m' w'. standalone_run lg ms (m, w) = Some (m', w') \<and> standalone_ok lg m'"
proof (induction ms arbitrary: m w)
  case (Cons x ms)
  obtain send re msg where "x = (send, re, msg)" by (cases x) auto
  with standalone_Update_ok [OF Cons.prems, of send re msg w] Cons.IH show ?case by fastforce
qed simp

lemma initial_standalone_ok: "standalone_ok lg (initial_standalone lg url now)"
  by (simp add: initial_standalone_def standalone_ok_def DetectInitialTheme_def in_i64_def Let_def)

lemma remote_telemetry_total: "remote_telemetry lg oob' m \<noteq> None"
proof -
  let ?t = "wrap64 (wrap64 (sm_normalCount m + sm_burstCount m) + sm_blockedCount m)"
  have "in_i64 (if ?t = 0 then 1 else ?t)" by simp
  from bar_cells [OF this, of 20]
  have "RenderHorizontalBar lg oob' n (if ?t = 0 then 1 else ?t) 20 fs es \<noteq> None" for n fs es by fastforce
  then show ?thesis
    unfolding remote_telemetry_def Let_def by (simp only: split: option.split prod.split) blast
qed

lemma standalone_View_total: "standalone_ok lg m \<Longrightarrow> standalone_View lg oob' m \<noteq> None"
  using remote_telemetry_total [of lg oob' m] RenderSparkline_total [of 30 lg oob' "sm_recentSamples m" "sty_Sparkline (sm_styles m)"]
  unfolding standalone_View_def Let_def standalone_ok_def slice_at_def
  by (simp only: split: option.split prod.split if_split) (simp; blast)

section \<open>The panic status of the gateway\<close>

lemma gw_send_internal:
  assumes "cr_Method c \<noteq> ''OPTIONS''"
  obtains w' where "w_sent w' = None" "w_body w' = []"
    "ServeHTTP e h (to_request base c) new_writer g = serveInternal e h (to_request base c) w' g"
proof (cases rule: ServeHTTP_cases [of e h "to_request base c" new_writer g])
  case (served w')
  then show ?thesis using that [of w'] by (simp add: new_writer_def)
qed (use assms in \<open>simp add: to_request_def Let_def\<close>)

lemma to_request_get:
  "to_request base (get_request base p) = \<lparr>r_Method = ''GET'', r_Path = p, r_RequestURI = p, r_Header = [], r_Body = Some []\<rparr>"
  by (simp add: to_request_def get_request_def)

lemma gw_send_metrics: "\<exists>code hdr body. gw_send e h base (get_request base ''/metrics'') g = (Reply code hdr body False, g)"
proof -
  have "is_page_path ''/metrics''" by code_simp
  moreover have "cr_Method (get_request base ''/metrics'') \<noteq> ''OPTIONS''" by (simp add: get_request_def)
  from gw_send_internal [OF this] obtain w' where
    "ServeHTTP e h (to_request base (get_request base ''/metrics'')) new_writer g =
       serveInternal e h (to_request base (get_request base ''/metrics'')) w' g" by metis
  ultimately show ?thesis by (simp add: gw_send_def serveInternal_def to_request_get reply_of_def split: option.split)
qed

definition status_json :: "('l, 'd, 'k, 'r, 's) gateway \<Rightarrow> json" where
  "status_json g =
     JObj [(''burst_frozen'', JBool (redis_IsGlobalBurstFrozen (fst (gw_limiter g)))),
           (''circuit_breaker'', JStr (state_String (GetState (circuitBreaker g)))),
           (''emergency_cutoff'', JBool (IsEmergencyCutoff (circuitBreaker g))),
           (''jitter_active'', JBool (IsJitterActive g))]"

lemma gw_send_status:
  "\<exists>code hdr. gw_send e h base (get_request base ''/api/v1/panic/status'') g = (Reply code hdr (encode_json (status_json g)) False, g)"
proof -
  have p: "\<not> is_page_path ''/api/v1/panic/status''" "is_admin_path ''/api/v1/panic/status''"
    "clean_path ''/api/v1/panic/status'' = ''/panic/status''" by code_simp+
  have "cr_Method (get_request base ''/api/v1/panic/status'') \<noteq> ''OPTIONS''" by (simp add: get_request_def)
  from gw_send_internal [OF this] obtain w' where "w_sent w' = None" "w_body w' = []"
    "ServeHTTP e h (to_request base (get_request base ''/api/v1/panic/status'')) new_writer g =
       serveInternal e h (to_request base (get_request base ''/api/v1/panic/status'')) w' g" by metis
  with p show ?thesis
    by (simp add: gw_send_def serveInternal_def to_request_get handleAdminAPI_def admin_status_def
         reply_def w_Write_def WriteHeader_def w_set_def status_json_def reply_of_def Let_def)
qed

lemma status_decoded:
  "status_decode (encode_json (status_json g)) =
     Some (state_String (GetState (circuitBreaker g)), IsEmergencyCutoff (circuitBreaker g),
           redis_IsGlobalBurstFrozen (fst (gw_limiter g)), IsJitterActive g)"
proof -
  obtain kvs where j: "status_json g = JObj kvs" and kvs: "kvs = [(''burst_frozen'', JBool (redis_IsGlobalBurstFrozen (fst (gw_limiter g)))),
      (''circuit_breaker'', JStr (state_String (GetState (circuitBreaker g)))),
      (''emergency_cutoff'', JBool (IsEmergencyCutoff (circuitBreaker g))), (''jitter_active'', JBool (IsJitterActive g))]"
    by (simp add: status_json_def)
  have states: "utf8_ok (state_String CircuitClosed)" "utf8_ok (state_String CircuitHalfOpen)" "utf8_ok (state_String CircuitOpen)"
    by code_simp+
  then have "utf8_ok (state_String s)" for s by (cases s) simp_all
  moreover have names: "utf8_ok ''burst_frozen''" "utf8_ok ''circuit_breaker''" "utf8_ok ''emergency_cutoff''" "utf8_ok ''jitter_active''"
    by code_simp+
  ultimately have ok: "json_ok 0 (JObj kvs)" by (simp add: kvs)
  have "distinct (map fold_name [''burst_frozen'', ''circuit_breaker'', ''emergency_cutoff'', ''jitter_active''])" by code_simp
  then have dist: "distinct (map (fold_name \<circ> fst) kvs)" unfolding kvs by (simp only: list.map comp_def fst_conv)
  note vals = field_values_single [OF ok dist, where t = "[CHR 0x0A]"]
  show ?thesis
    using vals [of "''burst_frozen''"] vals [of "''circuit_breaker''"] vals [of "''emergency_cutoff''"] vals [of "''jitter_active''"]
      json_decode_obj [OF ok, of "[CHR 0x0A]"]
    by (simp add: status_decode_def encode_json_def j body_str_def body_bool_def kvs Let_def del: json_bytes.simps)
qed

lemma poll_gateway:
  assumes "sm_gatewayURL m = base" and "pollGatewayMetrics (gw_send e h base) re (m, g) = Some (m', g')"
  shows "g' = g \<and> sm_gatewayURL m' = base \<and> sm_modal m' = sm_modal m \<and>
    sm_cbState m' = (if IsEmergencyCutoff (circuitBreaker g) then ''EMERGENCY CUTOFF'' else state_String (GetState (circuitBreaker g)))"
proof -
  obtain code hdr body where met: "gw_send e h base (get_request base ''/metrics'') g = (Reply code hdr body False, g)"
    using gw_send_metrics by blast
  obtain code' hdr' where st: "gw_send e h base (get_request base ''/api/v1/panic/status'') g = (Reply code' hdr' (encode_json (status_json g)) False, g)"
    using gw_send_status by blast
  from assms met obtain m1 where m1: "poll_latency re m = Some m1"
    by (auto simp: pollGatewayMetrics_def split: option.splits)
  then have "sm_gatewayURL m1 = base" "sm_modal m1 = sm_modal m"
    using assms(1) by (auto simp: poll_latency_def Let_def split: if_splits option.splits)
  with assms met st m1 show ?thesis
    by (auto simp: pollGatewayMetrics_def poll_status_def status_decoded Let_def)
qed

lemma to_request_post:
  "to_request base (post_request base p b) =
     \<lparr>r_Method = ''POST'', r_Path = p, r_RequestURI = p, r_Header = hdr_set ''Content-Type'' ''application/json'' [], r_Body = Some b\<rparr>"
  by (simp add: to_request_def post_request_def)

lemma gw_send_post:
  assumes "is_admin_path p" "\<not> is_page_path p" "p \<noteq> ''/healthz''"
  obtains w' where "gw_send e h base (post_request base p b) g =
    (case handleAdminAPI e (to_request base (post_request base p b)) w' g of
       (panicked, w, g) \<Rightarrow>
         (if panicked then Unreached else reply_of w, g))"
proof -
  have "cr_Method (post_request base p b) \<noteq> ''OPTIONS''" by (simp add: post_request_def)
  from gw_send_internal [OF this] obtain w' where
    "ServeHTTP e h (to_request base (post_request base p b)) new_writer g =
       serveInternal e h (to_request base (post_request base p b)) w' g" by metis
  with assms that show ?thesis by (simp add: gw_send_def serveInternal_def to_request_post)
qed

lemma remote_cutoff:
  assumes "sm_gatewayURL m = base" and "Type (sm_modal m) = ModalEmergencyCutoff"
    and "executeRemoteModal (gw_send e h base) ts (m, g) = (m', g')"
  shows "emergencyCutoff (circuitBreaker g') \<longleftrightarrow> sm_cbState m \<noteq> ''OPEN''"
proof -
  let ?j = "JObj [(''cutoff'', JBool (sm_cbState m \<noteq> ''OPEN''))]"
  have p: "is_admin_path ''/api/v1/panic/emergency-cutoff''" "\<not> is_page_path ''/api/v1/panic/emergency-cutoff''"
    "clean_path ''/api/v1/panic/emergency-cutoff'' = ''/panic/emergency-cutoff''" by code_simp+
  obtain w' where s: "gw_send e h base (post_request base ''/api/v1/panic/emergency-cutoff'' (json_bytes ?j)) g =
    (case handleAdminAPI e (to_request base (post_request base ''/api/v1/panic/emergency-cutoff'' (json_bytes ?j))) w' g of
       (panicked, w, g) \<Rightarrow>
         (if panicked then Unreached else reply_of w, g))"
    by (rule gw_send_post [OF p(1,2), of e h base "json_bytes ?j" g]) simp
  have "body_bool ''cutoff'' (json_bytes (JObj [(''cutoff'', JBool True)]))" "\<not> body_bool ''cutoff'' (json_bytes (JObj [(''cutoff'', JBool False)]))"
    by code_simp+
  then have b: "body_bool ''cutoff'' (json_bytes ?j) = (sm_cbState m \<noteq> ''OPEN'')" by (cases "sm_cbState m \<noteq> ''OPEN''") simp_all
  have "emergencyCutoff (circuitBreaker (snd (gw_send e h base (post_request base ''/api/v1/panic/emergency-cutoff'' (json_bytes ?j)) g)))
      \<longleftrightarrow> sm_cbState m \<noteq> ''OPEN''"
    unfolding s using p(3) b
    by (simp add: handleAdminAPI_def to_request_post admin_body_def admin_cutoff_def SetEmergencyCutoff_def Let_def del: json_bytes.simps)
  then show ?thesis
    using assms by (auto simp: executeRemoteModal_def Let_def simp del: json_bytes.simps split: prod.splits remote_reply.splits)
qed

section \<open>Properties\<close>

text \<open>
  The standalone console stays well-formed. From its initial state, whatever the gateway or any other
  server answers, every sequence of messages is handled without a panic, the theme index, the log
  and the window of samples stay in range, and the screen can be drawn.
\<close>

theorem standalone_well_formed:
  "\<exists>m' w' screen. standalone_run lg ms (initial_standalone lg url now, w) = Some (m', w') \<and>
     sm_themeIdx m' < length Themes \<and> length (sm_logs m') \<le> 8 \<and> length (sm_recentSamples m') \<le> 30 \<and>
     standalone_View lg oob' m' = Some screen"
proof -
  obtain m' w' where run: "standalone_run lg ms (initial_standalone lg url now, w) = Some (m', w')" and ok: "standalone_ok lg m'"
    using standalone_run_ok [OF initial_standalone_ok [of lg url now], of ms w] by blast
  from standalone_View_total [OF ok, of oob'] obtain screen where "standalone_View lg oob' m' = Some screen" by blast
  with run ok show ?thesis unfolding standalone_ok_def by blast
qed

text \<open>
  C39. The remote cutoff does not toggle. After a poll, the cutoff hotkey and a confirmation leave the
  gateway's emergency cutoff on exactly when it was on or the breaker was not open: an active
  cutoff cannot be lifted this way, and with an open breaker it cannot be engaged.
\<close>

theorem remote_cutoff_stuck:
  assumes "\<not> Active (sm_modal m)" and "sm_gatewayURL m = base" and "c \<in> set confirm_keys"
    and "standalone_run lg [(gw_send e1 h base, re1, TickMsg), (gw_send e2 h base, re2, KeyMsg ''ctrl+u''),
      (gw_send e3 h base, re3, KeyMsg c)] (m, g) = Some (m', g')"
  shows "emergencyCutoff (circuitBreaker g') \<longleftrightarrow>
    emergencyCutoff (circuitBreaker g) \<or> cb_state (circuitBreaker g) \<noteq> CircuitOpen"
proof -
  from assms(4) obtain m1 g1 where poll: "pollGatewayMetrics (gw_send e1 h base) re1 (m, g) = Some (m1, g1)"
    by (auto simp: standalone_Update_def split: option.splits)
  from poll_gateway [OF assms(2) this] have g1: "g1 = g" and m1: "sm_gatewayURL m1 = base" "\<not> Active (sm_modal m1)"
    and cb: "sm_cbState m1 = (if IsEmergencyCutoff (circuitBreaker g) then ''EMERGENCY CUTOFF'' else state_String (GetState (circuitBreaker g)))"
    using assms(1) by auto
  let ?m2 = "m1\<lparr>sm_modal := Open ModalEmergencyCutoff [] (sm_modal m1)\<rparr>"
  from assms(3,4) poll m1(2) g1 obtain m3 where ex: "executeRemoteModal (gw_send e3 h base) (rstamp re3) (?m2, g) = (m3, g')"
    by (auto simp: standalone_Update_def remote_plain_key_def remote_modal_key_def split: prod.splits)
  have "sm_cbState ?m2 \<noteq> ''OPEN'' \<longleftrightarrow> emergencyCutoff (circuitBreaker g) \<or> cb_state (circuitBreaker g) \<noteq> CircuitOpen"
    by (cases "cb_state (circuitBreaker g)") (simp_all add: cb IsEmergencyCutoff_def GetState_def)
  with remote_cutoff [OF _ _ ex] m1(1) show ?thesis by simp
qed

definition sample_remote :: remote_env where
  "sample_remote = \<lparr>rstamp = ''10:00:00'', rtt_us = 1500, roob = (\<lambda>_. 0)\<rparr>"

theorem remote_cutoff_stuck_witness:
  "\<exists>m' g'. standalone_run toy_lipgloss [(gw_send sample_reqenv [] ''http://gw'', sample_remote, TickMsg),
       (gw_send sample_reqenv [] ''http://gw'', sample_remote, KeyMsg ''ctrl+u''), (gw_send sample_reqenv [] ''http://gw'', sample_remote, KeyMsg ''y'')]
       (initial_standalone toy_lipgloss ''http://gw'' 0, sample_gateway\<lparr>circuitBreaker := SetEmergencyCutoff True fresh_breaker\<rparr>) = Some (m', g') \<and>
     emergencyCutoff (circuitBreaker g')"
  (is "\<exists>m' g'. standalone_run _ ?ms (?m, ?g) = _ \<and> _")
proof -
  obtain m' g' where run: "standalone_run toy_lipgloss ?ms (?m, ?g) = Some (m', g')"
    using standalone_run_ok [OF initial_standalone_ok [of toy_lipgloss "''http://gw''" 0], of ?ms ?g] by blast
  have "\<not> Active (sm_modal ?m)" "sm_gatewayURL ?m = ''http://gw''" "''y'' \<in> set confirm_keys"
    by (simp_all add: initial_standalone_def NewModalState_def confirm_keys_def Let_def)
  from remote_cutoff_stuck [OF this run] run show ?thesis by (simp add: SetEmergencyCutoff_def)
qed

end
