(* ===== verification/Drills.thy ===== *)
theory Drills
  imports Standalone "HOL-Library.State_Monad"
begin

text \<open>
  \<^verbatim>\<open>cmd/chaos/main.go\<close>, \<^verbatim>\<open>cmd/mockupstream/main.go\<close> and \<^verbatim>\<open>cmd/mockwebhook/main.go\<close>: the drill programs and the
  servers they are run against.

  A drill is a program of the state monad over its output, the world its requests reach and the
  message of \<open>log.Fatalf\<close>, after which nothing more happens. \<open>for_each\<close> is a loop over a list. The
  pauses between requests and the text of a network error are not modelled, and the gateway URL is one that parses. The 150
  concurrent requests of the attack suite reach the gateway in an order that is an argument.

  Shown, and applied to a started gateway in \<open>Startup\<close>: the kill-switch drill ends with the compromised key
  answered 403, and all ten replay attacks of the suite are answered 401.
\<close>

section \<open>Definitions\<close>

subsection \<open>Drill programs\<close>

record 'w dstate =
  d_out :: "string list"
  d_world :: 'w
  d_exit :: "string option"

definition emit_text :: "string \<Rightarrow> ('w dstate, unit) state" where
  "emit_text s = State (\<lambda>st. ((), if d_exit st = None then st\<lparr>d_out := d_out st @ [s]\<rparr> else st))"

definition Println :: "string \<Rightarrow> ('w dstate, unit) state" where
  "Println s = emit_text (s @ nl)"

definition Fatalf :: "string \<Rightarrow> ('w dstate, unit) state" where
  "Fatalf s = State (\<lambda>st. ((), if d_exit st = None then st\<lparr>d_exit := Some s\<rparr> else st))"

definition Do :: "'w sender \<Rightarrow> client_req \<Rightarrow> ('w dstate, remote_reply) state" where
  "Do send c = State (\<lambda>st.
     if d_exit st = None then (case send c (d_world st) of (rep, w) \<Rightarrow> (rep, st\<lparr>d_world := w\<rparr>)) else (Unreached, st))"

fun for_each :: "'a list \<Rightarrow> ('a \<Rightarrow> ('s, unit) state) \<Rightarrow> ('s, unit) state" where
  "for_each [] f = State_Monad.return ()"
| "for_each (x # xs) f = do { f x; for_each xs f }"

definition rule_line :: string where
  "rule_line = replicate 67 (CHR ''='')"

definition banner :: "string \<Rightarrow> ('w dstate, unit) state" where
  "banner title = do { Println rule_line; Println title; Println rule_line }"

definition emo_party :: string where "emo_party = [CHR 0xF0, CHR 0x9F, CHR 0x8E, CHR 0x89]"
definition emo_fire :: string where "emo_fire = [CHR 0xF0, CHR 0x9F, CHR 0x94, CHR 0xA5]"

text \<open>The requests of the three numbered phases: one line per answered request.\<close>

definition phase_request :: "'w sender \<Rightarrow> string \<Rightarrow> string \<Rightarrow> (int \<Rightarrow> http_header \<Rightarrow> string) \<Rightarrow> ('w dstate, unit) state" where
  "phase_request send u key line =
     do { rep \<leftarrow> Do send (resource_request u key);
          case rep of
            Unreached \<Rightarrow> State_Monad.return ()
          | Reply code hdr _ _ \<Rightarrow> emit_text (line code hdr) }"

definition phase2_line :: "nat \<Rightarrow> int \<Rightarrow> http_header \<Rightarrow> string" where
  "phase2_line i code hdr =
     '' -> Req '' @ show_nat i @ '': HTTP '' @ show_int code @ '' | Status: '' @ hdr_get hdr ''X-RateLimit-Status'' @
     '' | Remaining: '' @ hdr_get hdr ''X-RateLimit-Remaining'' @ '' | Burst-Remaining: '' @
     hdr_get hdr ''X-RateLimit-Burst-Remaining'' @ nl"

definition phase3_line :: "nat \<Rightarrow> int \<Rightarrow> http_header \<Rightarrow> string" where
  "phase3_line i code hdr =
     '' -> Req '' @ show_nat i @ '': HTTP '' @ show_int code @ '' | Status: '' @ hdr_get hdr ''X-RateLimit-Status'' @
     '' | Burst-Remaining: '' @ hdr_get hdr ''X-RateLimit-Burst-Remaining'' @ nl"

definition phase4_line :: "nat \<Rightarrow> int \<Rightarrow> http_header \<Rightarrow> string" where
  "phase4_line i code hdr =
     '' -> Req '' @ show_nat i @ '': HTTP '' @ show_int code @ '' | Status: '' @ hdr_get hdr ''X-RateLimit-Status'' @
     '' (BLOCKED as expected)'' @ nl"

definition attack_body :: bytes where
  "attack_body = ''{'' @ quoted ''action'' @ '':'' @ quoted ''fraudulent_credit_transfer'' @ '','' @ quoted ''amount'' @ '':50000}''"

definition demo_replay :: "golib \<Rightarrow> i64 \<Rightarrow> 'w sender \<Rightarrow> string \<Rightarrow> ('w dstate, unit) state" where
  "demo_replay l now send u =
     do { Println (nl @ ''[PHASE 5] Executing Simulated Replay Attack with Expired Timestamp...'');
          rep \<leftarrow> Do send (signed_request l u attack_body ''aegis_live_pro_key_2002'' (wrap64 (now - 600)));
          case rep of
            Unreached \<Rightarrow> State_Monad.return ()
          | Reply code _ _ _ \<Rightarrow>
              emit_text ('' -> Anti-Replay Defense Response: HTTP '' @ show_int code @ '' (401 Replay Blocked as expected!)'' @ nl) }"

definition cutoff_json :: "bool \<Rightarrow> bytes" where
  "cutoff_json b = ''{'' @ quoted ''cutoff'' @ '':'' @ bool_text b @ ''}''"

definition demo_fallback :: "'w sender \<Rightarrow> string \<Rightarrow> ('w dstate, unit) state" where
  "demo_fallback send u =
     do { Println (nl @ ''[PHASE 6] Testing L1 Smart Cache Stale Fallback via Emergency Cutoff...'');
          Do send (resource_request u ''aegis_live_pro_key_2002'');
          Do send (post_request u ''/api/v1/panic/emergency-cutoff'' (cutoff_json True));
          rep \<leftarrow> Do send (resource_request u ''aegis_live_pro_key_2002'');
          (case rep of
            Unreached \<Rightarrow> State_Monad.return ()
          | Reply code hdr _ _ \<Rightarrow>
              emit_text ('' -> Cache Fallback Response: HTTP '' @ show_int code @ '' | X-Cache-Status: '' @ hdr_get hdr ''X-Cache-Status'' @ nl));
          Do send (post_request u ''/api/v1/panic/emergency-cutoff'' (cutoff_json False));
          State_Monad.return () }"

definition run60SecondDemo :: "golib \<Rightarrow> i64 \<Rightarrow> 'w sender \<Rightarrow> string \<Rightarrow> ('w dstate, unit) state" where
  "run60SecondDemo l now send u =
     do { banner (''        '' @ emo_rocket @ '' STARTING 60-SECOND GUIDED END-TO-END DEMO SCENARIO       '');
          Println (nl @ ''[PHASE 1] Checking Gateway Health & Baseline Telemetry...'');
          rep \<leftarrow> Do send (get_request u ''/healthz'');
          (case rep of
            Unreached \<Rightarrow> Fatalf ''Gateway health check failed''
          | Reply _ _ body _ \<Rightarrow> emit_text ('' -> Health Status: '' @ body @ nl));
          Println (nl @ ''[PHASE 2] Firing Normal Tier Traffic (Under Soft Limit 20 req/min)...'');
          for_each [1..<6] (\<lambda>i. phase_request send u ''aegis_live_free_key_1001'' (phase2_line i));
          Println (nl @ ''[PHASE 3] Unleashing Burst Overages (Soft Limit -> Hard Limit)...'');
          Println '' -> Expecting monetized burst revenue accumulation & Webhook event dispatch...'';
          for_each [6..<23] (\<lambda>i. phase_request send u ''aegis_live_free_key_1001'' (phase3_line i));
          Println (nl @ ''[PHASE 4] Exceeding Hard Limit (25 req/min) -> Enforcing HTTP 429...'');
          for_each [23..<29] (\<lambda>i. phase_request send u ''aegis_live_free_key_1001'' (phase4_line i));
          demo_replay l now send u;
          demo_fallback send u;
          Println (nl @ rule_line);
          Println (''       '' @ emo_party @ '' 60-SECOND GUIDED DEMO SCENARIO COMPLETED SUCCESSFULLY!    '');
          Println rule_line }"

subsection \<open>The attack suite\<close>

record flood_counts =
  fc_normal :: int
  fc_burst :: int
  fc_blocked :: int

definition tally :: "remote_reply \<Rightarrow> flood_counts \<Rightarrow> flood_counts" where
  "tally rep fc =
     (case rep of
        Unreached \<Rightarrow> fc
      | Reply _ hdr _ _ \<Rightarrow>
          (let status = hdr_get hdr ''X-RateLimit-Status''
           in if status = ''NORMAL'' then fc\<lparr>fc_normal := fc_normal fc + 1\<rparr>
              else if status = ''BURST'' then fc\<lparr>fc_burst := fc_burst fc + 1\<rparr>
              else if status = ''BLOCKED'' then fc\<lparr>fc_blocked := fc_blocked fc + 1\<rparr>
              else fc))"

fun flood :: "'w sender \<Rightarrow> string \<Rightarrow> nat list \<Rightarrow> flood_counts \<Rightarrow> ('w dstate, flood_counts) state" where
  "flood send u [] fc = State_Monad.return fc"
| "flood send u (idx # idxs) fc =
     do { rep \<leftarrow> Do send (resource_request u (burst_keys ! (idx mod length burst_keys))); flood send u idxs (tally rep fc) }"

definition index_body :: "nat \<Rightarrow> bytes" where
  "index_body i = ''{'' @ quoted ''attack_index'' @ '':'' @ show_nat i @ ''}''"

fun replays :: "golib \<Rightarrow> (nat \<Rightarrow> i64) \<Rightarrow> 'w sender \<Rightarrow> string \<Rightarrow> nat list \<Rightarrow> nat \<Rightarrow> ('w dstate, nat) state" where
  "replays l now send u [] n = State_Monad.return n"
| "replays l now send u (i # is) n =
     do { rep \<leftarrow> Do send (signed_request l u (index_body i) (burst_keys ! 0) (wrap64 (now i - int (100 * (i + 1)))));
          replays l now send u is (case rep of Unreached \<Rightarrow> n | Reply code _ _ _ \<Rightarrow> if code = 401 then n + 1 else n) }"

definition flood_attack :: "nat list \<Rightarrow> 'w sender \<Rightarrow> string \<Rightarrow> ('w dstate, unit) state" where
  "flood_attack order send u =
     do { banner (''             '' @ emo_fire @ '' RUNNING AUTOMATED CHAOS LOAD & REPLAY SUITE        '');
          Println (nl @ ''[ATTACK 1] Firing 150 concurrent requests to trigger rate limiters...'');
          fc \<leftarrow> flood send u order \<lparr>fc_normal = 0, fc_burst = 0, fc_blocked = 0\<rparr>;
          emit_text ('' -> Attack 1 Results: Normal='' @ show_int (fc_normal fc) @ '' | Burst='' @ show_int (fc_burst fc) @
            '' | Blocked='' @ show_int (fc_blocked fc) @ nl) }"

definition replay_summary :: "nat \<Rightarrow> string" where
  "replay_summary n = '' -> Attack 2 Results: Replay Attacks Intercepted & Blocked: '' @ show_nat n @ ''/10'' @ nl"

definition replay_attacks :: "golib \<Rightarrow> (nat \<Rightarrow> i64) \<Rightarrow> 'w sender \<Rightarrow> string \<Rightarrow> ('w dstate, unit) state" where
  "replay_attacks l now send u =
     do { Println (nl @ ''[ATTACK 2] Injecting 10 replay attacks with expired timestamps...'');
          n \<leftarrow> replays l now send u [0..<10] 0;
          emit_text (replay_summary n);
          Println rule_line }"

definition runChaosAttackSuite :: "golib \<Rightarrow> (nat \<Rightarrow> i64) \<Rightarrow> nat list \<Rightarrow> 'w sender \<Rightarrow> string \<Rightarrow> ('w dstate, unit) state" where
  "runChaosAttackSuite l now order send u = do { flood_attack order send u; replay_attacks l now send u }"

subsection \<open>The kill-switch drill\<close>

definition drill_key :: string where
  "drill_key = ''aegis_live_compromised_key_9999''"

definition drill_probe :: "'w sender \<Rightarrow> string \<Rightarrow> ('w dstate, unit) state" where
  "drill_probe send u =
     do { banner (''           '' @ emo_siren @ '' EXECUTING TWO-STEP KILL-SWITCH DRILL                 '');
          Println (nl @ ''[DRILL 1] Probing key before kill-switch activation...'');
          rep \<leftarrow> Do send (resource_request u drill_key);
          case rep of
            Unreached \<Rightarrow> Fatalf ''Drill failed''
          | Reply code _ _ _ \<Rightarrow> emit_text ('' -> Key initial status: HTTP '' @ show_int code @ nl) }"

definition drill_kill :: "'w sender \<Rightarrow> string \<Rightarrow> ('w dstate, unit) state" where
  "drill_kill send u =
     do { Println (nl @ ''[DRILL 2] Triggering Emergency Kill-Switch for compromised key...'');
          rep \<leftarrow> Do send (post_request u ''/api/v1/panic/kill'' (json_bytes (JObj [(''api_key'', JStr drill_key)])));
          case rep of
            Unreached \<Rightarrow> Fatalf ''Kill-switch dispatch error''
          | Reply _ _ body _ \<Rightarrow> emit_text ('' -> Kill-Switch Response: '' @ body @ nl) }"

definition verdict_line :: "int \<Rightarrow> string" where
  "verdict_line code = '' -> Post-kill verification status: HTTP '' @ show_int code @ '' (403 Forbidden as expected!)'' @ nl"

definition passed_line :: string where
  "passed_line = ''       '' @ emo_check @ '' KILL-SWITCH DRILL PASSED: COMPROMISED KEY NEUTRALIZED!    ''"

definition drill_verify :: "'w sender \<Rightarrow> string \<Rightarrow> ('w dstate, unit) state" where
  "drill_verify send u =
     do { Println (nl @ ''[DRILL 3] Verifying key is hard-blocked platform-wide...'');
          rep \<leftarrow> Do send (resource_request u drill_key);
          (case rep of
             Unreached \<Rightarrow> Fatalf ''Verification error''
           | Reply code _ _ _ \<Rightarrow> emit_text (verdict_line code));
          banner passed_line }"

definition runKillSwitchDrill :: "'w sender \<Rightarrow> string \<Rightarrow> ('w dstate, unit) state" where
  "runKillSwitchDrill send u = do { drill_probe send u; drill_kill send u; drill_verify send u }"

subsection \<open>main\<close>

definition squote :: "string \<Rightarrow> string" where
  "squote s = [CHR 0x27] @ s @ [CHR 0x27]"

text \<open>\<open>demoNow\<close> and \<open>now\<close> are the clock readings of the demo and of the suite's replay attacks.\<close>

definition chaos_main :: "golib \<Rightarrow> i64 \<Rightarrow> (nat \<Rightarrow> i64) \<Rightarrow> nat list \<Rightarrow> 'w sender \<Rightarrow> string \<Rightarrow> string \<Rightarrow> ('w dstate, unit) state" where
  "chaos_main l demoNow now order send mode u =
     (if mode = ''demo'' then run60SecondDemo l demoNow send u
      else if mode = ''attack'' then runChaosAttackSuite l now order send u
      else if mode = ''kill-drill'' then runKillSwitchDrill send u
      else Fatalf (''Unknown mode: '' @ mode @ ''. Use '' @ squote ''demo'' @ '', '' @ squote ''attack'' @ '', or '' @ squote ''kill-drill'' @ ''.''))"

subsection \<open>The mock servers\<close>

text \<open>
  The upstream's answer: a delay in milliseconds, the status, the header and the body. Paths are
  those the multiplexer does not redirect.
\<close>

definition mock_header :: http_header where
  "mock_header = hdr_set ''Content-Type'' ''application/json'' []"

definition mock_upstream :: "i64 \<Rightarrow> http_request \<Rightarrow> int \<times> int \<times> http_header \<times> bytes" where
  "mock_upstream now r =
     (if r_Path r = ''/api/resource'' then
        (0, 200, mock_header,
         encode_json (JObj [(''headers'', JObj [(''X-API-Key'', JStr (hdr_get (r_Header r) ''X-API-Key''))]), (''method'', JStr (r_Method r)),
           (''path'', JStr (r_Path r)), (''service'', JStr ''MockUpstreamService''), (''status'', JStr ''healthy''), (''timestamp'', JInt now)]))
      else if r_Path r = ''/api/slow'' then
        (1200, 200, mock_header, encode_json (JObj [(''message'', JStr ''delayed upstream response'')]))
      else if r_Path r = ''/api/fault'' then
        (0, 500, mock_header, encode_json (JObj [(''error'', JStr ''upstream database connection failure simulation'')]))
      else
        (0, 200, mock_header,
         encode_json (JObj [(''message'', JStr ''AegisPulse Mock Upstream target reachable''), (''path'', JStr (r_Path r)),
           (''timestamp'', JInt now)])))"

text \<open>
  The webhook receiver: the counter of accepted deliveries, the log line, the status, the header and the
  body; other paths get the multiplexer's answer.
\<close>

definition mock_webhook :: "string \<Rightarrow> http_header \<Rightarrow> bytes \<Rightarrow> i64 \<Rightarrow> i64 \<times> string \<times> int \<times> http_header \<times> bytes" where
  "mock_webhook path hdr body received =
     (let count = wrap64 (received + 1);
          ok = (\<lambda>s. ''{'' @ quoted ''status'' @ '':'' @ quoted s @ ''}'')
      in if path = ''/webhook/generic'' then
           (count, ''[MOCK-WEBHOOK] [GENERIC] #'' @ show_int count @ '' Received Sig: '' @ hdr_get hdr ''X-Aegis-Signature'' @
              '' | Payload: '' @ body, 200, mock_header, ok ''delivered'')
         else if path = ''/webhook/discord'' then
           (count, ''[MOCK-WEBHOOK] [DISCORD] #'' @ show_int count @ '' Embed Received: '' @ body, 200, mock_header,
            ok ''discord_embed_accepted'')
         else if path = ''/webhook/slack'' then
           (count, ''[MOCK-WEBHOOK] [SLACK] #'' @ show_int count @ '' Blocks Received: '' @ body, 200, mock_header,
            ok ''slack_blocks_accepted'')
         else if path = ''/webhook/failing'' then
           (received, ''[MOCK-WEBHOOK] [FAILING] Intentionally rejecting webhook to trigger DLQ!'', 500, mock_header,
            encode_json (JObj [(''error'', JStr ''sink temporarily down'')]))
         else
           (received, [], 404, hdr_set ''X-Content-Type-Options'' ''nosniff'' (hdr_set ''Content-Type'' ''text/plain; charset=utf-8'' []),
            ''404 page not found'' @ nl))"

subsection \<open>The gateway as a drill's world\<close>

text \<open>Each request meets the next surroundings of the list.\<close>

definition gw_world_send :: "string \<Rightarrow> string \<Rightarrow> (('l, 'd, 'k, 'r, 's) gateway \<times> req_env list) sender" where
  "gw_world_send h base c gw =
     (case gw of
        (g, []) \<Rightarrow> (Unreached, (g, []))
      | (g, e # es) \<Rightarrow> (case gw_send e h base c g of (rep, g) \<Rightarrow> (rep, (g, es))))"

section \<open>Client requests keep the key store\<close>

definition same_store :: "('l, 'd, 'k, 'r, 's) gateway \<Rightarrow> ('l, 'd, 'k, 'r, 's) gateway \<Rightarrow> bool" where
  "same_store g g' \<longleftrightarrow> repo (gw_repo g') = repo (gw_repo g) \<and> kv (gw_repo g') = kv (gw_repo g) \<and> gw_redis g' = gw_redis g \<and>
     cfgManager g' = cfgManager g"

lemma same_store_refl [simp]: "same_store g g"
  by (simp add: same_store_def)

lemma same_store_trans: "same_store g g1 \<Longrightarrow> same_store g1 g2 \<Longrightarrow> same_store g g2"
  by (simp add: same_store_def)

lemma same_store_update [simp]:
  "same_store g (g'\<lparr>gw_metrics := x\<rparr>) = same_store g g'" "same_store g (g'\<lparr>gw_limiter := y\<rparr>) = same_store g g'"
  "same_store g (g'\<lparr>webhookEngine := z\<rparr>) = same_store g g'" "same_store g (g'\<lparr>gw_limiter := y, gw_metrics := x\<rparr>) = same_store g g'"
  by (simp_all add: same_store_def)

lemma finish_upstream_fixed:
  "gw_redis (snd (snd (finish_upstream e r rcd w g))) = gw_redis g" "cfgManager (snd (snd (finish_upstream e r rcd w g))) = cfgManager g"
  by (simp_all add: finish_upstream_def Let_def split: option.split)

lemma serve_upstream_fixed:
  "gw_redis (snd (snd (serve_upstream e h r w g))) = gw_redis g" "cfgManager (snd (snd (serve_upstream e h r w g))) = cfgManager g"
  by (simp_all add: serve_upstream_def finish_upstream_fixed Let_def split: prod.split option.split)

lemma serve_upstream_store: "same_store g (snd (snd (serve_upstream e h r w g)))"
  by (simp add: same_store_def serve_upstream_repo serve_upstream_fixed)

lemma billing_store [simp]:
  "repo (snd (RecordBillingOverage s k mo u c)) = repo s" "kv (snd (RecordBillingOverage s k mo u c)) = kv s"
  by (simp_all add: RecordBillingOverage_def split: option.split prod.split)

lemma bill_burst_store: "same_store g (bill_burst e k t g)"
  unfolding bill_burst_def Let_def by (simp add: same_store_def)

lemma serve_limited_store: "same_store g (snd (snd (serve_limited e h k tn t r w g)))"
proof -
  obtain res lim where c: "redis_Check (gw_limiter g) (limit_call e k tn t) = (res, lim)" by (rule prod.exhaust)
  let ?g = "g\<lparr>gw_limiter := lim, gw_metrics := RecordRequest tn (Status res) (gw_metrics g)\<rparr>"
  let ?b = "if Status res = ''BURST'' then bill_burst e k tn ?g else ?g"
  have "same_store g (bill_burst e k tn ?g)" by (rule same_store_trans [OF _ bill_burst_store]) simp
  then have "same_store g (if c then bill_burst e k tn ?g else ?g)" for c by simp
  then have s: "same_store g ?b" .
  have u: "same_store g (snd (snd (serve_upstream e h r w' ?b)))" for w'
    by (rule same_store_trans [OF s serve_upstream_store])
  have "snd (snd (serve_limited e h k tn t r w g)) \<in> {?g, ?b, snd (snd (serve_upstream e h r (w\<lparr>w_Header := ApplyHeaders res (w_Header w)\<rparr>) ?b))}"
    unfolding serve_limited_def c Let_def prod.case by (simp split: option.split if_split)
  with s u show ?thesis by auto
qed

lemma serve_client_store:
  assumes "map_of (memKeys (repo (gw_repo g))) (HashKey (lib e) (hdr_get (r_Header r) ''X-API-Key'')) = Some rec"
  shows "same_store g (snd (snd (serve_client e h r w g)))"
proof -
  let ?k = "hdr_get (r_Header r) ''X-API-Key''"
  have "snd (GetAPIKey (lib e) (gw_repo g) ?k) = gw_repo g" using assms by (simp add: GetAPIKey_def Let_def)
  then obtain v where v: "GetAPIKey (lib e) (gw_repo g) ?k = (v, gw_repo g)" by (metis prod.collapse)
  have same: "g\<lparr>gw_repo := gw_repo g\<rparr> = g" by simp
  have sg: "same_store g (snd (snd (serve_signed e h ?k tn t r w g)))" for tn t
    using serve_limited_store [of g e h ?k tn t r w]
    by (auto simp: serve_signed_def Let_def split: option.split prod.split)
  show ?thesis
    using sg by (auto simp: serve_client_def v same Let_def split: sum.split key_error.split)
qed

lemma gw_send_client:
  assumes "cr_Method c \<noteq> ''OPTIONS''" "r_Path (to_request base c) = p" "\<not> is_admin_path p" "\<not> is_page_path p" "p \<noteq> ''/healthz''"
  shows "\<exists>w'. w_sent w' = None \<and> gw_send e h base c g =
    (case serve_client e h (to_request base c) w' g of (panicked, w, g) \<Rightarrow> (if panicked then Unreached else reply_of w, g))"
proof -
  from gw_send_internal [OF assms(1)] obtain w' where w': "w_sent w' = None"
    "ServeHTTP e h (to_request base c) new_writer g = serveInternal e h (to_request base c) w' g" by metis
  then show ?thesis using assms(2-) by (intro exI [of _ w']) (simp add: gw_send_def serveInternal_def)
qed

lemma drill_paths:
  "\<not> is_admin_path ''/api/resource''" "\<not> is_page_path ''/api/resource''" "\<not> is_admin_path ''/api/transfer''"
  "\<not> is_page_path ''/api/transfer''" "is_admin_path ''/api/v1/panic/kill''" "\<not> is_page_path ''/api/v1/panic/kill''"
  "clean_path ''/api/v1/panic/kill'' = ''/panic/kill''"
  by code_simp+

lemma header_names:
  "canonical_key ''X-API-Key'' = ''X-Api-Key''" "canonical_key ''X-Aegis-Signature'' = ''X-Aegis-Signature''"
  "canonical_key ''Content-Type'' = ''Content-Type''"
  by code_simp+

lemma resource_to_request:
  "r_Path (to_request base (resource_request base k)) = ''/api/resource''"
  "hdr_get (r_Header (to_request base (resource_request base k))) ''X-API-Key'' = k"
  "cr_Method (resource_request base k) = ''GET''"
  by (simp_all add: to_request_def resource_request_def hdr_get_set Let_def)

lemma signed_to_request:
  "r_Path (to_request base (signed_request l base body k ts)) = ''/api/transfer''"
  "hdr_get (r_Header (to_request base (signed_request l base body k ts))) ''X-API-Key'' = k"
  "hdr_get (r_Header (to_request base (signed_request l base body k ts))) ''X-Aegis-Signature'' = GenerateSignature l body k ts"
  "r_Body (to_request base (signed_request l base body k ts)) = Some body"
  "cr_Method (signed_request l base body k ts) = ''POST''"
  by (simp_all add: to_request_def signed_request_def hdr_get_set header_names Let_def)

lemma resource_store:
  assumes "map_of (memKeys (repo (gw_repo g))) (HashKey (lib e) k) = Some rec"
  shows "same_store g (snd (gw_send e h base (resource_request base k) g))"
proof -
  have "cr_Method (resource_request base k) \<noteq> ''OPTIONS''" by (simp add: resource_to_request)
  from gw_send_client [OF this resource_to_request(1) drill_paths(1,2), where e = e and h = h and g = g] obtain w' where
    "gw_send e h base (resource_request base k) g =
      (case serve_client e h (to_request base (resource_request base k)) w' g of (panicked, w, g) \<Rightarrow> (if panicked then Unreached else reply_of w, g))"
    by auto
  with serve_client_store [of g e "to_request base (resource_request base k)" rec h w'] assms show ?thesis
    by (simp add: resource_to_request split: prod.splits)
qed

section \<open>Replayed signatures are rejected\<close>

definition live_key :: "golib \<Rightarrow> ('l, 'd, 'k, 'r, 's) gateway \<Rightarrow> string \<Rightarrow> APIKeyRecord \<Rightarrow> bool" where
  "live_key l g k rec \<longleftrightarrow>
     k \<noteq> [] \<and> map_of (memKeys (repo (gw_repo g))) (HashKey l k) = Some rec \<and> key_verdict rec = Inr rec \<and>
     \<not> (case gw_redis g of None \<Rightarrow> False | Some rc \<Rightarrow> IsKeyFrozen rc k (kv (gw_repo g))) \<and>
     \<not> (case redisClient (repo (gw_repo g)) of None \<Rightarrow> False
        | Some rc \<Rightarrow> IsKeyFrozen rc k (kv (gw_repo g)) \<or> IsKeyFrozen rc (HashKey l k) (kv (gw_repo g)))"

definition tier_of :: "golib \<Rightarrow> ('l, 'd, 'k, 'r, 's) gateway \<Rightarrow> APIKeyRecord \<Rightarrow> TierConfig" where
  "tier_of l g rec =
     (case GetTier (unicode_lower l) (cfgManager g) (to_lower (unicode_lower l) (Tier rec)) of None \<Rightarrow> default_tier | Some t \<Rightarrow> t)"

lemma same_store_live: "same_store g g' \<Longrightarrow> live_key l g' k rec = live_key l g k rec \<and> tier_of l g' rec = tier_of l g rec"
  by (simp add: same_store_def live_key_def tier_of_def cong: option.case_cong)

lemma replay_rejected:
  assumes "live_key (lib e) g k rec" and "hdr_get (r_Header r) ''X-API-Key'' = k" and "r_Body r = Some body"
    and "hdr_get (r_Header r) ''X-Aegis-Signature'' = GenerateSignature (lib e) body k ts" and "w_sent w = None"
    and "in_i64 ts" and "hmac_sha256 (lib e) k (show_int ts @ ''.'' @ body) \<noteq> []" and "time_unix (clk e AtReplay) \<noteq> 0"
    and "\<not> fresh (ReplayWindowSeconds (tier_of (lib e) g rec)) (time_unix (clk e AtReplay)) ts"
  shows "\<exists>w' hdr g'. serve_client e h r w g = (False, w', g') \<and> w_sent w' = Some (401, hdr) \<and> same_store g g'"
proof -
  let ?t = "tier_of (lib e) g rec" and ?tn = "to_lower (unicode_lower (lib e)) (Tier rec)"
  let ?v = "VerifySignature (lib e) (time_unix (clk e AtVerify)) body (GenerateSignature (lib e) body k ts) k
      (ReplayWindowSeconds ?t) (time_unix (clk e AtReplay))"
  have g: "GetAPIKey (lib e) (gw_repo g) k = (Inr rec, gw_repo g)" "g\<lparr>gw_repo := gw_repo g\<rparr> = g"
    using assms(1) by (simp_all add: live_key_def GetAPIKey_def Let_def)
  have sig: "GenerateSignature (lib e) body k ts \<noteq> []" by (simp add: GenerateSignature_def)
  obtain err where v: "?v = (False, Some err)"
    using verify_generated [OF assms(6-8), of "time_unix (clk e AtVerify)" "ReplayWindowSeconds ?t"] assms(9) by (simp split: if_splits)
  let ?g = "g\<lparr>gw_metrics := RecordReplayBlocked ?tn (gw_metrics g)\<rparr>"
  let ?w = "respondJSON 401 (JObj [(''details'', JStr (sig_error_text err)), (''error'', JStr ''anti-replay defense rejected signature'')]) w"
  have "serve_client e h r w g = serve_signed e h k ?tn ?t r w g"
    using assms(1,2) g by (simp add: serve_client_def live_key_def tier_of_def Let_def)
  also have "\<dots> = (False, ?w, ?g)"
    using assms(3,4) sig v by (simp add: serve_signed_def Let_def del: encode_json_def)
  finally have "serve_client e h r w g = (False, ?w, ?g)" .
  moreover obtain hdr where "w_sent ?w = Some (401, hdr)" using respondJSON_sent [OF assms(5)] by fastforce
  moreover have "same_store g ?g" by simp
  ultimately show ?thesis by blast
qed

text \<open>The surroundings in which the i-th replay attack is answered: the gateway's clock is not behind the attacker's.\<close>

definition replay_env :: "golib \<Rightarrow> (nat \<Rightarrow> i64) \<Rightarrow> nat \<Rightarrow> req_env \<Rightarrow> bool" where
  "replay_env l now i e \<longleftrightarrow> lib e = l \<and> i < 10 \<and> 1000 < now i \<and> now i \<le> time_unix (clk e AtReplay) \<and> time_unix (clk e AtReplay) \<le> 2 ^ 62"

lemma replay_env_stale:
  assumes "replay_env l now i e" and "ReplayWindowSeconds t < 100"
  shows "in_i64 (wrap64 (now i - int (100 * (i + 1))))" "time_unix (clk e AtReplay) \<noteq> 0"
    "\<not> fresh (ReplayWindowSeconds t) (time_unix (clk e AtReplay)) (wrap64 (now i - int (100 * (i + 1))))"
proof -
  let ?u = "time_unix (clk e AtReplay)" and ?a = "int (100 * (i + 1))"
  have b: "100 \<le> ?a" "?a \<le> 1000" "?a < now i" "now i \<le> ?u" "?u \<le> 2 ^ 62" using assms(1) by (auto simp: replay_env_def)
  then have ts: "wrap64 (now i - ?a) = now i - ?a" by (intro wrap64_id) (simp add: in_i64_def)
  have "wrap64 (?u - (now i - ?a)) = ?u - (now i - ?a)" using b by (intro wrap64_id) (simp add: in_i64_def)
  with b assms(2) show "\<not> fresh (ReplayWindowSeconds t) ?u (wrap64 (now i - ?a))" unfolding ts fresh_def by simp
  show "in_i64 (wrap64 (now i - ?a))" "?u \<noteq> 0" using b by simp_all
qed

lemma replay_send:
  assumes "replay_env l now i e" and "live_key l g k rec" and "ReplayWindowSeconds (tier_of l g rec) < 100"
    and "\<forall>m. hmac_sha256 l k m \<noteq> []"
  shows "\<exists>hdr body g'. gw_send e h base (signed_request l base b k (wrap64 (now i - int (100 * (i + 1))))) g = (Reply 401 hdr body False, g') \<and>
    same_store g g'"
proof -
  let ?c = "signed_request l base b k (wrap64 (now i - int (100 * (i + 1))))"
  have l: "lib e = l" using assms(1) by (simp add: replay_env_def)
  have "cr_Method ?c \<noteq> ''OPTIONS''" by (simp add: signed_to_request)
  from gw_send_client [OF this signed_to_request(1) drill_paths(3,4), where e = e and h = h and g = g] obtain w' where
    w': "w_sent w' = None" "gw_send e h base ?c g =
      (case serve_client e h (to_request base ?c) w' g of (panicked, w, g) \<Rightarrow> (if panicked then Unreached else reply_of w, g))"
    by auto
  obtain w'' hdr g' where "serve_client e h (to_request base ?c) w' g = (False, w'', g')" "w_sent w'' = Some (401, hdr)" "same_store g g'"
    using replay_rejected [of e g k rec "to_request base ?c" b "wrap64 (now i - int (100 * (i + 1)))" w' h] assms(2-4) w'(1)
      replay_env_stale [OF assms(1,3)] by (auto simp: signed_to_request l)
  with w' show ?thesis by (simp add: reply_of_def)
qed

section \<open>The loops of the attack suite\<close>

lemma run_emit [simp]: "d_exit st = None \<Longrightarrow> run_state (emit_text s) st = ((), st\<lparr>d_out := d_out st @ [s]\<rparr>)"
  by (simp add: emit_text_def)

lemma run_Println [simp]: "d_exit st = None \<Longrightarrow> run_state (Println s) st = ((), st\<lparr>d_out := d_out st @ [s @ nl]\<rparr>)"
  by (simp add: Println_def)

lemma run_Do:
  "d_exit st = None \<Longrightarrow> d_world st = (g, e # es) \<Longrightarrow> gw_send e h base c g = (rep, g') \<Longrightarrow>
     run_state (Do (gw_world_send h base) c) st = (rep, st\<lparr>d_world := (g', es)\<rparr>)"
  by (simp add: Do_def gw_world_send_def)

lemma world_same: "d_world st = w \<Longrightarrow> st\<lparr>d_world := w\<rparr> = st"
  by simp

definition keys_stored :: "golib \<Rightarrow> ('l, 'd, 'k, 'r, 's) gateway \<Rightarrow> bool" where
  "keys_stored l g \<longleftrightarrow> list_all (\<lambda>k. map_of (memKeys (repo (gw_repo g))) (HashKey l k) \<noteq> None) burst_keys"

lemma same_store_keys: "same_store g g' \<Longrightarrow> keys_stored l g' = keys_stored l g"
  by (simp add: same_store_def keys_stored_def)

lemma flood_runs:
  assumes "d_exit st = None" "d_world st = (g, es @ rest)" "length es = length order" "list_all (\<lambda>e. lib e = l) es" "keys_stored l g"
  shows "\<exists>fc' g'. run_state (flood (gw_world_send h base) base order fc) st = (fc', st\<lparr>d_world := (g', rest)\<rparr>) \<and> same_store g g'"
  using assms
proof (induction order arbitrary: st g es fc)
  case (Cons i order)
  then obtain e es' where es: "es = e # es'" by (cases es) auto
  let ?k = "burst_keys ! (i mod length burst_keys)"
  have "?k \<in> set burst_keys" by (intro nth_mem) (simp add: burst_keys_def)
  with Cons.prems(4,5) es obtain rec where "map_of (memKeys (repo (gw_repo g))) (HashKey (lib e) ?k) = Some rec"
    by (auto simp: keys_stored_def list_all_iff)
  note store = resource_store [OF this, of h base]
  obtain rep g1 where send: "gw_send e h base (resource_request base ?k) g = (rep, g1)" by (rule prod.exhaust)
  with store have s1: "same_store g g1" by simp
  have d: "run_state (Do (gw_world_send h base) (resource_request base ?k)) st = (rep, st\<lparr>d_world := (g1, es' @ rest)\<rparr>)"
    using run_Do [OF Cons.prems(1) _ send] Cons.prems(2) es by simp
  obtain fc' g' where "run_state (flood (gw_world_send h base) base order (tally rep fc)) (st\<lparr>d_world := (g1, es' @ rest)\<rparr>) =
      (fc', st\<lparr>d_world := (g', rest)\<rparr>)" "same_store g1 g'"
    using Cons.IH [of "st\<lparr>d_world := (g1, es' @ rest)\<rparr>" g1 es' "tally rep fc"] Cons.prems es same_store_keys [OF s1] by auto
  with d s1 show ?case using same_store_trans by (simp, blast)
next
  case Nil
  then show ?case by (intro exI [of _ fc] exI [of _ g]) (simp add: world_same)
qed

lemma replays_run:
  assumes "d_exit st = None" "d_world st = (g, es)" "list_all2 (replay_env l now) is es" "live_key l g (burst_keys ! 0) rec"
    "ReplayWindowSeconds (tier_of l g rec) < 100" "\<forall>m. hmac_sha256 l (burst_keys ! 0) m \<noteq> []"
  shows "\<exists>g'. run_state (replays l now (gw_world_send h base) base is n) st = (n + length is, st\<lparr>d_world := (g', [])\<rparr>) \<and> same_store g g'"
  using assms
proof (induction "is" arbitrary: st g es n)
  case Nil
  then show ?case by (intro exI [of _ g]) (simp add: world_same)
next
  case (Cons i "is")
  then obtain e es' where es: "es = e # es'" and env: "replay_env l now i e" and envs: "list_all2 (replay_env l now) is es'"
    by (auto simp: list_all2_Cons1)
  let ?c = "signed_request l base (index_body i) (burst_keys ! 0) (wrap64 (now i - int (100 * (i + 1))))"
  obtain hdr body g1 where send: "gw_send e h base ?c g = (Reply 401 hdr body False, g1)" and s1: "same_store g g1"
    using replay_send [OF env Cons.prems(4-6)] by blast
  have d: "run_state (Do (gw_world_send h base) ?c) st = (Reply 401 hdr body False, st\<lparr>d_world := (g1, es')\<rparr>)"
    using run_Do [OF Cons.prems(1) _ send] Cons.prems(2) es by simp
  obtain g' where "run_state (replays l now (gw_world_send h base) base is (n + 1)) (st\<lparr>d_world := (g1, es')\<rparr>) =
      (n + 1 + length is, st\<lparr>d_world := (g', [])\<rparr>)" "same_store g1 g'"
    using Cons.IH [of "st\<lparr>d_world := (g1, es')\<rparr>" g1 es' "n + 1"] Cons.prems envs same_store_live [OF s1] by auto
  with d s1 show ?case using same_store_trans by (simp, blast)
qed

lemma prints:
  assumes "d_exit st = None"
  shows "\<exists>out. run_state (Println s) st = ((), st\<lparr>d_out := out\<rparr>)" "\<exists>out. run_state (emit_text s) st = ((), st\<lparr>d_out := out\<rparr>)"
    "\<exists>out. run_state (banner s) st = ((), st\<lparr>d_out := out\<rparr>)"
  using assms by (auto simp: banner_def)

lemma flood_attack_runs:
  assumes "d_exit st = None" "d_world st = (g, es @ rest)" "length es = length order" "list_all (\<lambda>e. lib e = l) es" "keys_stored l g"
  shows "\<exists>out g'. run_state (flood_attack order (gw_world_send h base) base) st = ((), st\<lparr>d_out := out, d_world := (g', rest)\<rparr>) \<and>
    same_store g g'"
proof -
  let ?b = "banner (''             '' @ emo_fire @ '' RUNNING AUTOMATED CHAOS LOAD & REPLAY SUITE        '')"
  let ?p = "Println (nl @ ''[ATTACK 1] Firing 150 concurrent requests to trigger rate limiters...'')"
  obtain o1 where b: "run_state ?b st = ((), st\<lparr>d_out := o1\<rparr>)" using prints(3) [OF assms(1)] by blast
  obtain o2 where p: "run_state ?p (st\<lparr>d_out := o1\<rparr>) = ((), st\<lparr>d_out := o2\<rparr>)" using prints(1) [of "st\<lparr>d_out := o1\<rparr>"] assms(1) by auto
  let ?fc = "\<lparr>fc_normal = 0, fc_burst = 0, fc_blocked = 0\<rparr>"
  obtain fc g' where fl: "run_state (flood (gw_world_send h base) base order ?fc) (st\<lparr>d_out := o2\<rparr>) =
      (fc, st\<lparr>d_out := o2, d_world := (g', rest)\<rparr>)" "same_store g g'"
    using flood_runs [of "st\<lparr>d_out := o2\<rparr>" g es rest order l h base ?fc] assms by auto
  have "run_state (emit_text s) (st\<lparr>d_out := o2, d_world := (g', rest)\<rparr>) = ((), st\<lparr>d_out := o2 @ [s], d_world := (g', rest)\<rparr>)" for s
    using assms(1) by (cases st) (simp add: emit_text_def)
  then show ?thesis unfolding flood_attack_def run_state_bind b p fl(1) prod.case using fl(2) by blast
qed

lemma replay_attacks_run:
  assumes "d_exit st = None" "d_world st = (g, es)" "list_all2 (replay_env l now) [0..<10] es" "live_key l g (burst_keys ! 0) rec"
    "ReplayWindowSeconds (tier_of l g rec) < 100" "\<forall>m. hmac_sha256 l (burst_keys ! 0) m \<noteq> []"
  shows "\<exists>out g'. run_state (replay_attacks l now (gw_world_send h base) base) st =
    ((), st\<lparr>d_out := out @ [replay_summary 10, rule_line @ nl], d_world := (g', [])\<rparr>)"
proof -
  let ?st = "st\<lparr>d_out := d_out st @ [(nl @ ''[ATTACK 2] Injecting 10 replay attacks with expired timestamps...'') @ nl]\<rparr>"
  obtain g' where r: "run_state (replays l now (gw_world_send h base) base [0..<10] 0) ?st = (10, ?st\<lparr>d_world := (g', [])\<rparr>)"
    using replays_run [of ?st g es l now "[0..<10]" rec h base 0] assms by auto
  have p: "run_state (Println (nl @ ''[ATTACK 2] Injecting 10 replay attacks with expired timestamps...'')) st = ((), ?st)"
    using assms(1) by (rule run_Println)
  show ?thesis
    unfolding replay_attacks_def run_state_bind p prod.case r
    using assms(1) by (intro exI [of _ "d_out ?st"] exI [of _ g']) simp
qed

section \<open>The kill-switch drill\<close>

lemma frozen_send:
  assumes "gw_frozen (lib e) g drill_key"
  shows "\<exists>hdr body g'. gw_send e h base (resource_request base drill_key) g = (Reply 403 hdr body False, g')"
proof -
  have "cr_Method (resource_request base drill_key) \<noteq> ''OPTIONS''" by (simp add: resource_to_request)
  from gw_send_client [OF this resource_to_request(1) drill_paths(1,2), where e = e and h = h and g = g] obtain w' where
    w': "w_sent w' = None" "gw_send e h base (resource_request base drill_key) g =
      (case serve_client e h (to_request base (resource_request base drill_key)) w' g of (panicked, w, g) \<Rightarrow> (if panicked then Unreached else reply_of w, g))"
    by auto
  have "fst (GetAPIKey (lib e) (gw_repo g) drill_key) = Inl ErrKeyFrozen"
    using assms by (auto simp: frozen_in_def GetAPIKey_def key_verdict_def Let_def split: option.splits)
  then obtain s where "GetAPIKey (lib e) (gw_repo g) drill_key = (Inl ErrKeyFrozen, s)" by (metis prod.collapse)
  moreover have "drill_key \<noteq> []" by (simp add: drill_key_def)
  ultimately have "serve_client e h (to_request base (resource_request base drill_key)) w' g \<in>
      {(False, respondJSON 403 frozen_json w', g), (False, respondJSON 403 frozen_json w', g\<lparr>gw_repo := s\<rparr>)}"
    by (simp add: serve_client_def resource_to_request Let_def)
  with w' respondJSON_sent [OF w'(1), of 403 frozen_json] show ?thesis by (auto simp: reply_of_def)
qed

lemma kill_send:
  assumes "map_of (memKeys (repo (gw_repo g))) (HashKey (lib e) drill_key) = Some rec"
    and "set (map_order e) = fst ` set (memKeys (repo (gw_repo g)))"
    and "\<forall>(hk, r) \<in> set (memKeys (repo (gw_repo g))). rec_ID r = drill_key \<or> EncryptedKey r = drill_key \<longrightarrow> hk = HashKey (lib e) drill_key"
  shows "\<exists>code hdr body g'. gw_send e h base (post_request base ''/api/v1/panic/kill'' (json_bytes (JObj [(''api_key'', JStr drill_key)]))) g =
    (Reply code hdr body False, g') \<and> gw_frozen (lib e) g' drill_key"
proof -
  let ?c = "post_request base ''/api/v1/panic/kill'' (json_bytes (JObj [(''api_key'', JStr drill_key)]))"
  have body: "body_str ''api_key'' (json_bytes (JObj [(''api_key'', JStr drill_key)])) = drill_key" by code_simp
  have ne: "drill_key \<noteq> []" by (simp add: drill_key_def)
  obtain w' where "gw_send e h base ?c g = (case handleAdminAPI e (to_request base ?c) w' g of
       (panicked, w, g) \<Rightarrow> (if panicked then Unreached else reply_of w, g))"
    by (rule gw_send_post [OF drill_paths(5,6), of e h base "json_bytes (JObj [(''api_key'', JStr drill_key)])" g]) simp
  moreover have "handleAdminAPI e (to_request base ?c) w' g = admin_kill e drill_key (w_set ''Content-Type'' ''application/json'' w') g"
    using body drill_paths(7) by (simp add: handleAdminAPI_def to_request_post admin_body_def Let_def del: json_bytes.simps)
  moreover obtain p w2 g2 where k: "admin_kill e drill_key (w_set ''Content-Type'' ''application/json'' w') g = (p, w2, g2)"
    by (metis prod.exhaust)
  moreover have "p = False" using k ne by (auto simp: admin_kill_def Let_def)
  moreover have "gw_frozen (lib e) g2 drill_key"
    using admin_kill_frozen [of "lib e" e drill_key "w_set ''Content-Type'' ''application/json'' w'" g drill_key]
      FreezeAPIKey_freezes [OF assms] ne k by simp
  ultimately show ?thesis by (simp add: reply_of_def del: json_bytes.simps split: option.split)
qed

lemma drill_step:
  assumes "d_exit st = None" "d_world st = (g, e # es)" "gw_send e h base c g = (Reply code hdr body err, g')"
  shows "\<exists>out. run_state (do { Println s; rep \<leftarrow> Do (gw_world_send h base) c;
      case rep of Unreached \<Rightarrow> Fatalf f | Reply code hdr body err \<Rightarrow> emit_text (line code hdr body) }) st =
    ((), st\<lparr>d_out := out @ [line code hdr body], d_world := (g', es)\<rparr>)"
proof -
  obtain o1 where p: "run_state (Println s) st = ((), st\<lparr>d_out := o1\<rparr>)" using prints(1) [OF assms(1)] by blast
  have d: "run_state (Do (gw_world_send h base) c) (st\<lparr>d_out := o1\<rparr>) = (Reply code hdr body err, st\<lparr>d_out := o1, d_world := (g', es)\<rparr>)"
    using run_Do [of "st\<lparr>d_out := o1\<rparr>" g e es h base c] assms by simp
  have "run_state (emit_text t) (st\<lparr>d_out := o1, d_world := (g', es)\<rparr>) = ((), st\<lparr>d_out := o1 @ [t], d_world := (g', es)\<rparr>)" for t
    using assms(1) by (cases st) simp
  then show ?thesis unfolding run_state_bind p d prod.case remote_reply.case by blast
qed

lemma run_banner:
  "d_exit st = None \<Longrightarrow> run_state (banner t) st = ((), st\<lparr>d_out := d_out st @ [rule_line @ nl, t @ nl, rule_line @ nl]\<rparr>)"
  by (simp add: banner_def)

lemma drill_verify_runs:
  assumes "d_exit st = None" "d_world st = (g, e # es)" "gw_frozen (lib e) g drill_key"
  shows "\<exists>out g'. run_state (drill_verify (gw_world_send h base) base) st =
    ((), st\<lparr>d_out := out @ [verdict_line 403, rule_line @ nl, passed_line @ nl, rule_line @ nl], d_world := (g', es)\<rparr>)"
proof -
  obtain hdr body g' where send: "gw_send e h base (resource_request base drill_key) g = (Reply 403 hdr body False, g')"
    using frozen_send [OF assms(3)] by blast
  obtain o1 where p: "run_state (Println (nl @ ''[DRILL 3] Verifying key is hard-blocked platform-wide...'')) st = ((), st\<lparr>d_out := o1\<rparr>)"
    using prints(1) [OF assms(1)] by blast
  have d: "run_state (Do (gw_world_send h base) (resource_request base drill_key)) (st\<lparr>d_out := o1\<rparr>) =
      (Reply 403 hdr body False, st\<lparr>d_out := o1, d_world := (g', es)\<rparr>)"
    using run_Do [of "st\<lparr>d_out := o1\<rparr>" g e es h base] send assms by simp
  have "run_state (emit_text t) (st\<lparr>d_out := o1, d_world := (g', es)\<rparr>) = ((), st\<lparr>d_out := o1 @ [t], d_world := (g', es)\<rparr>)" for t
    using assms(1) by (cases st) simp
  moreover have "run_state (banner t) (st\<lparr>d_out := o2, d_world := (g', es)\<rparr>) =
      ((), st\<lparr>d_out := o2 @ [rule_line @ nl, t @ nl, rule_line @ nl], d_world := (g', es)\<rparr>)" for t o2
    using assms(1) by (cases st) (simp add: run_banner)
  ultimately show ?thesis
    unfolding drill_verify_def run_state_bind p d prod.case remote_reply.case
    by (intro exI [of _ o1] exI [of _ g']) simp
qed

section \<open>The drills against a gateway\<close>

text \<open>
  The attack suite against the gateway. Whatever the order of its 150 concurrent requests, when the
  three keys it uses are in the shadow map, the free key is not frozen, its tier's replay window is
  below 100 seconds and the gateway's clock is not behind the suite's, all ten replay attacks are
  answered 401: the suite reports 10/10.
\<close>

lemma attack_suite_blocked:
  assumes "d_exit st = None" and "d_world st = (g, es @ es')" and "length es = length order" and "list_all (\<lambda>e. lib e = l) es"
    and "list_all2 (replay_env l now) [0..<10] es'" and "keys_stored l g" and "live_key l g (burst_keys ! 0) rec"
    and "ReplayWindowSeconds (tier_of l g rec) < 100" and "\<forall>m. hmac_sha256 l (burst_keys ! 0) m \<noteq> []"
  shows "\<exists>out. d_out (snd (run_state (runChaosAttackSuite l now order (gw_world_send h base) base) st)) =
    out @ [replay_summary 10, rule_line @ nl]"
proof -
  obtain out g1 where fl: "run_state (flood_attack order (gw_world_send h base) base) st = ((), st\<lparr>d_out := out, d_world := (g1, es')\<rparr>)"
    and s1: "same_store g g1" using flood_attack_runs [OF assms(1-4,6), of h base] by blast
  let ?st = "st\<lparr>d_out := out, d_world := (g1, es')\<rparr>"
  obtain out' g2 where "run_state (replay_attacks l now (gw_world_send h base) base) ?st =
      ((), ?st\<lparr>d_out := out' @ [replay_summary 10, rule_line @ nl], d_world := (g2, [])\<rparr>)"
    using replay_attacks_run [of ?st g1 es' l now rec h base] assms same_store_live [OF s1] by auto
  with fl show ?thesis by (simp add: runChaosAttackSuite_def)
qed

text \<open>Without jitter, and when the upstream sends no answer that breaks the handler, a request is always answered.\<close>

lemma quiet_probe:
  assumes "\<not> IsJitterActive g" and "cache_good (smartCache g)" and "\<And>host r. \<not> breaks_handler (upstream e host r)"
  shows "fst (gw_send e h base (resource_request base k) g) \<noteq> Unreached"
proof -
  have "cr_Method (resource_request base k) \<noteq> ''OPTIONS''" by (simp add: resource_to_request)
  from gw_send_client [OF this resource_to_request(1) drill_paths(1,2), where e = e and h = h and g = g] obtain w' where
    w': "gw_send e h base (resource_request base k) g =
      (case serve_client e h (to_request base (resource_request base k)) w' g of
        (panicked, w, g) \<Rightarrow> (if panicked then Unreached else reply_of w, g))"
    by auto
  have "\<not> fst (serve_client e h (to_request base (resource_request base k)) w' g)"
    using serve_client_panic [OF assms(2)] assms(1,3) unfolding panic_cause_def by blast
  with w' show ?thesis by (auto simp: reply_of_def split: prod.splits option.split)
qed

text \<open>
  The kill-switch drill against the gateway. When the compromised key is in the shadow map, no other record
  has it as its id or ciphertext, and the probe is answered, the drill runs to its end and reports
  status 403 for the key it has just frozen.
\<close>

lemma kill_drill_passes:
  assumes "d_exit st = None" and "d_world st = (g, e1 # e2 # e3 # es)" and "lib e1 = l" and "lib e2 = l" and "lib e3 = l"
    and "map_of (memKeys (repo (gw_repo g))) (HashKey l drill_key) = Some rec"
    and "set (map_order e2) = fst ` set (memKeys (repo (gw_repo g)))"
    and "\<forall>(hk, r) \<in> set (memKeys (repo (gw_repo g))). rec_ID r = drill_key \<or> EncryptedKey r = drill_key \<longrightarrow> hk = HashKey l drill_key"
    and "fst (gw_send e1 h base (resource_request base drill_key) g) \<noteq> Unreached"
  shows "\<exists>out g'. run_state (runKillSwitchDrill (gw_world_send h base) base) st =
    ((), st\<lparr>d_out := out @ [verdict_line 403, rule_line @ nl, passed_line @ nl, rule_line @ nl], d_world := (g', es)\<rparr>)"
proof -
  obtain code hdr body err g1 where probe: "gw_send e1 h base (resource_request base drill_key) g = (Reply code hdr body err, g1)"
    using assms(9) by (cases "gw_send e1 h base (resource_request base drill_key) g"; cases "fst (gw_send e1 h base (resource_request base drill_key) g)") auto
  with resource_store [of g e1 drill_key rec h base] assms(3,6) have s1: "repo (gw_repo g1) = repo (gw_repo g)" by (simp add: same_store_def)
  obtain o1 where b: "run_state (banner (''           '' @ emo_siren @ '' EXECUTING TWO-STEP KILL-SWITCH DRILL                 '')) st =
      ((), st\<lparr>d_out := o1\<rparr>)" using prints(3) [OF assms(1)] by blast
  obtain o2 where probed: "run_state (drill_probe (gw_world_send h base) base) st = ((), st\<lparr>d_out := o2, d_world := (g1, e2 # e3 # es)\<rparr>)"
    using drill_step [of "st\<lparr>d_out := o1\<rparr>" g e1 "e2 # e3 # es" h base "resource_request base drill_key" code hdr body err g1
        "nl @ ''[DRILL 1] Probing key before kill-switch activation...''" "''Drill failed''"
        "\<lambda>code hdr body. '' -> Key initial status: HTTP '' @ show_int code @ nl"] probe assms(1,2)
    unfolding drill_probe_def run_state_bind b prod.case by auto
  let ?st = "st\<lparr>d_out := o2, d_world := (g1, e2 # e3 # es)\<rparr>"
  obtain code' hdr' body' g2 where kill: "gw_send e2 h base (post_request base ''/api/v1/panic/kill''
      (json_bytes (JObj [(''api_key'', JStr drill_key)]))) g1 = (Reply code' hdr' body' False, g2)" and fz: "gw_frozen l g2 drill_key"
    using kill_send [of g1 e2 rec h base] assms(4,6-8) s1 by auto
  obtain o3 where killed: "run_state (drill_kill (gw_world_send h base) base) ?st = ((), ?st\<lparr>d_out := o3, d_world := (g2, e3 # es)\<rparr>)"
    using drill_step [of ?st g1 e2 "e3 # es" h base _ code' hdr' body' False g2
        "nl @ ''[DRILL 2] Triggering Emergency Kill-Switch for compromised key...''" "''Kill-switch dispatch error''"
        "\<lambda>code hdr body. '' -> Kill-Switch Response: '' @ body @ nl", OF _ _ kill] assms(1)
    unfolding drill_kill_def by auto
  let ?st3 = "?st\<lparr>d_out := o3, d_world := (g2, e3 # es)\<rparr>"
  obtain out g' where "run_state (drill_verify (gw_world_send h base) base) ?st3 =
      ((), ?st3\<lparr>d_out := out @ [verdict_line 403, rule_line @ nl, passed_line @ nl, rule_line @ nl], d_world := (g', es)\<rparr>)"
    using drill_verify_runs [of ?st3 g2 e3 es h base] fz assms(1,5) by auto
  with probed killed show ?thesis unfolding runKillSwitchDrill_def run_state_bind by (cases st) auto
qed

end
