(* ===== verification/Startup.thy ===== *)
theory Startup
  imports Drills
begin

text \<open>
  \<^verbatim>\<open>cmd/gateway/main.go\<close>: the gateway's process, from the configuration to the exit.

  \<^item> \<open>startup\<close> builds the components in the order of \<open>main\<close>, joins them and listens; a call of \<open>log.Fatalf\<close>, also that of the
    goroutine that listens, is an \<open>Inl\<close>. Listening fails at once or not at all. The environment, the files, the servers, the clock and the random source are the record
    \<open>start_env\<close>. The three views of one Redis connection (keys, scripts, streams) are parameters, used when
    the connection was made.
  \<^item> \<open>report_memory\<close> is one tick of the reporter goroutine.
  \<^item> \<open>main_exit\<close> is the end of \<open>main\<close>: its last statements, then its deferred calls in reverse order.
    A deferred call that panics does not keep the remaining ones from running.

  Shown: nothing but an upstream URL that does not parse and an address at which it cannot listen keeps the gateway from starting; a started
  gateway without servers passes the kill-switch drill with its built-in keys; and every exit panics
  after the message of a clean stop.
\<close>

section \<open>Definitions\<close>

subsection \<open>Start\<close>

record ('d, 'k, 'r, 's) start_env =
  s_path :: string  \<comment> \<open>flag \<open>-config\<close>\<close>
  s_file :: "bytes option"
  s_getenv :: "string \<Rightarrow> string"
  s_yaml :: "bytes \<Rightarrow> Config option"
  s_watcher :: bool
  s_watch_add :: "string \<Rightarrow> bool"
  s_dial :: "string \<Rightarrow> string \<Rightarrow> i64 \<Rightarrow> 'k redis_kv option"
  s_scripts :: "'r redis"
  s_streams :: "'s dlq_stream"
  s_connect :: "string \<Rightarrow> 'd pgpool option"
  s_nonces :: "string \<Rightarrow> bytes option"  \<comment> \<open>by the id of the built-in key\<close>
  s_listen :: "string \<Rightarrow> string option"  \<comment> \<open>the error of \<open>ListenAndServe\<close> at an address\<close>
  s_item :: "bytes \<Rightarrow> DLQItem option"
  s_req :: req_env  \<comment> \<open>library and URL parser\<close>
  s_seeded :: gotime
  s_breaker :: gotime
  s_started :: gotime
  s_db :: 'd
  s_kv :: 'k
  s_script_state :: 'r
  s_stream_state :: 's

datatype start_error = CipherFatal envelope_error | ProxyFatal | ListenFatal string

record http_server =
  srv_Addr :: string
  srv_ReadTimeout :: i64
  srv_WriteTimeout :: i64
  srv_MaxHeaderBytes :: i64

record ('l, 'd, 'k, 'r, 's) process =
  pr_gateway :: "('l, 'd, 'k, 'r, 's) gateway"
  pr_host :: string
  pr_watching :: bool
  pr_cleaning :: bool
  pr_server :: http_server
  pr_chaos :: ChaosEngine
  pr_log :: "string list"

definition start_redis :: "('d, 'k, 'r, 's) start_env \<Rightarrow> Config \<Rightarrow> 'k RedisClient" where
  "start_redis s c = NewRedisClient (s_dial s) (Addr (RedisCfg c)) (redis_Password (RedisCfg c)) (DB (RedisCfg c))"

definition start_repo :: "('d, 'k, 'r, 's) start_env \<Rightarrow> Config \<Rightarrow> EnvelopeCipher \<Rightarrow> ('d, 'k) repo_sys" where
  "start_repo s c ec =
     NewPostgresRepo (lib (s_req s)) (s_seeded s) (s_nonces s) (s_connect s) (DSN (s_getenv s) (Postgres c)) ec
       (Some (start_redis s c)) (s_db s) (s_kv s)"

definition start_breaker :: "('d, 'k, 'r, 's) start_env \<Rightarrow> Config \<Rightarrow> CircuitBreaker" where
  "start_breaker s c =
     (let cb = CircuitBreakerCfg (CacheCfg c);
          cbCooldown = wrap64 (CooldownSeconds cb * second);
          cbLatency = wrap64 (FailureLatencyMs cb * millisecond)
      in NewCircuitBreaker (MaxConsecutiveFailures cb) cbLatency cbCooldown (s_breaker s))"

definition start_limiter :: "('d, 'k, 'r, 's) start_env \<Rightarrow> Config \<Rightarrow> 'r RedisLimiter" where
  "start_limiter s c =
     NewLimiter (if Client (start_redis s c) = None then None else Some (s_scripts s)) (StreamEvents (RedisCfg c))"

definition start_dlq :: "('d, 'k, 'r, 's) start_env \<Rightarrow> Config \<Rightarrow> 's DLQManager" where
  "start_dlq s c =
     snd (LoadFromRedis (s_item s)
       (NewDLQManager (if Client (start_redis s c) = None then None else Some (s_streams s)) (StreamDLQ (RedisCfg c))) (s_stream_state s))"

definition start_engine :: "('d, 'k, 'r, 's) start_env \<Rightarrow> Config \<Rightarrow> 's Engine" where
  "start_engine s c = engine_Start (NewEngine c (Client (start_redis s c) \<noteq> None) (start_dlq s c) (Some NewMetrics))"

definition start_server :: "Config \<Rightarrow> http_server" where
  "start_server c =
     \<lparr>srv_Addr = '':'' @ show_int (Port (Server c)), srv_ReadTimeout = wrap64 (ReadTimeoutMs (Server c) * millisecond),
      srv_WriteTimeout = wrap64 (WriteTimeoutMs (Server c) * millisecond), srv_MaxHeaderBytes = 2 ^ 20\<rparr>"

definition startup :: "('d, 'k, 'r, 's) start_env \<Rightarrow> start_error + ('l, 'd, 'k, 'r, 's) process" where
  "startup s =
     (let cm = NewConfigManager (s_getenv s) (s_yaml s) (s_file s) (s_path s);
          watching = (Watch (s_watcher s) (s_watch_add s) cm = Inr True);
          c = cm_Get cm
      in case NewEnvelopeCipher (lib (s_req s)) (s_getenv s) (MasterKey (Security c)) of
           Inl err \<Rightarrow> Inl (CipherFatal err)
         | Inr ec \<Rightarrow>
             (let rs = start_repo s c ec;
                  (sc, cleaning) = NewSmartCache (wrap64 (CleanupIntervalSeconds (CacheCfg c) * second))
              in case NewGatewayProxy (s_req s) (s_started s) cm rs (start_limiter s c, s_script_state s) sc (start_breaker s c)
                        (start_engine s c) (s_stream_state s) NewMetrics (Some (start_redis s c)) of
                   None \<Rightarrow> Inl ProxyFatal
                 | Some (host, g) \<Rightarrow>
                     (case s_listen s (srv_Addr (start_server c)) of
                        Some err \<Rightarrow> Inl (ListenFatal err)
                      | None \<Rightarrow>
                          Inr \<lparr>pr_gateway = g, pr_host = host, pr_watching = watching, pr_cleaning = cleaning, pr_server = start_server c,
                               pr_chaos = NewChaosEngine (''http://localhost:'' @ show_int (Port (Server c))), pr_log = []\<rparr>)))"

subsection \<open>The memory reporter\<close>

definition report_memory :: "(float64 \<Rightarrow> i64) \<Rightarrow> 'k RedisClient option \<Rightarrow> 'k \<Rightarrow> Metrics \<Rightarrow> Metrics" where
  "report_memory oob' rc k m =
     (case rc of
        None \<Rightarrow> m
      | Some rc \<Rightarrow>
          if Client rc = None then m
          else (case GetMemoryUsage rc k of
                  (mem, None) \<Rightarrow> if mem > 0 then SetRedisMemory oob' (f_of_int mem) m else m
                | (_, Some _) \<Rightarrow> m))"

subsection \<open>Exit\<close>

text \<open>A call of the exit sequence: whether it panicked, and the process after it.\<close>

type_synonym ('l, 'd, 'k, 'r, 's) exit_call = "('l, 'd, 'k, 'r, 's) process \<Rightarrow> bool \<times> ('l, 'd, 'k, 'r, 's) process"

definition call_stop :: "('l, 'd, 'k, 'r, 's) exit_call" where
  "call_stop p =
     (case engine_Stop (webhookEngine (pr_gateway p)) of
        None \<Rightarrow> (True, p)
      | Some eng \<Rightarrow> (False, p\<lparr>pr_gateway := (pr_gateway p)\<lparr>webhookEngine := eng\<rparr>\<rparr>))"

definition call_cache_close :: "('l, 'd, 'k, 'r, 's) exit_call" where
  "call_cache_close p =
     (False, p\<lparr>pr_gateway := (pr_gateway p)\<lparr>smartCache := cache_Close (smartCache (pr_gateway p))\<rparr>\<rparr>)"

definition call_repo_close :: "('l, 'd, 'k, 'r, 's) exit_call" where
  "call_repo_close p = (False, p\<lparr>pr_gateway := (pr_gateway p)\<lparr>gw_repo := repo_Close (gw_repo (pr_gateway p))\<rparr>\<rparr>)"

definition call_redis_close :: "('l, 'd, 'k, 'r, 's) exit_call" where
  "call_redis_close p =
     (let g = pr_gateway p
      in case gw_redis g of
           None \<Rightarrow> (True, p)
         | Some rc \<Rightarrow> (False, p\<lparr>pr_gateway := g\<lparr>gw_repo := (gw_repo g)\<lparr>kv := snd (rc_Close rc (kv (gw_repo g)))\<rparr>\<rparr>\<rparr>))"

definition call_log :: "string \<Rightarrow> ('l, 'd, 'k, 'r, 's) exit_call" where
  "call_log msg p = (False, p\<lparr>pr_log := pr_log p @ [msg]\<rparr>)"

text \<open>Statements stop at a panic; deferred calls all run.\<close>

fun run_calls :: "('p \<Rightarrow> bool \<times> 'p) list \<Rightarrow> 'p \<Rightarrow> bool \<times> 'p" where
  "run_calls [] p = (False, p)"
| "run_calls (f # fs) p = (case f p of (True, p) \<Rightarrow> (True, p) | (False, p) \<Rightarrow> run_calls fs p)"

fun run_defers :: "('p \<Rightarrow> bool \<times> 'p) list \<Rightarrow> 'p \<Rightarrow> bool \<times> 'p" where
  "run_defers [] p = (False, p)"
| "run_defers (f # fs) p = (case f p of (b, p) \<Rightarrow> (case run_defers fs p of (b', p) \<Rightarrow> (b \<or> b', p)))"

definition stopped_line :: string where
  "stopped_line = ''[SHUTDOWN] AegisPulse Gateway v1.4.0 stopped cleanly.''"

definition signal_line :: string where
  "signal_line = ''[SHUTDOWN] Signal received. Initiating graceful shutdown...''"

text \<open>
  The console is run when it was not disabled and standard output is a terminal; otherwise the process
  waits for a signal, which it logs.
\<close>

definition main_exit :: "bool \<Rightarrow> bool \<Rightarrow> ('l, 'd, 'k, 'r, 's) exit_call" where
  "main_exit headlessFlag isTTY p =
     (let front = (if \<not> headlessFlag \<and> isTTY then [] else [call_log signal_line]);
          (b, p) = run_calls (front @ [call_stop, call_cache_close, call_log stopped_line]) p;
          (b', p) = run_defers [call_stop, call_cache_close, call_repo_close, call_redis_close] p
      in (b \<or> b', p))"

section \<open>The started gateway\<close>

lemma NewEnvelopeCipher_total: "\<exists>ec. NewEnvelopeCipher l env k = Inr ec"
  by (simp add: NewEnvelopeCipher_def resolveMasterKey_def Let_def split: option.split sum.split)

text \<open>What a started gateway is: the environment applied, breaker and cache empty, nothing frozen, the engine at work.\<close>

definition gateway_ready :: "(string \<Rightarrow> string) \<Rightarrow> ('l, 'd, 'k, 'r, 's) gateway \<Rightarrow> bool" where
  "gateway_ready env g \<longleftrightarrow>
     env_respected env (cfg (cfgManager g)) \<and>
     cb_ok (circuitBreaker g) \<and> cb_state (circuitBreaker g) = CircuitClosed \<and> \<not> emergencyCutoff (circuitBreaker g) \<and>
     entries (smartCache g) = [] \<and> \<not> stopCh (smartCache g) \<and>
     \<not> redisBurstFreeze (fst (gw_limiter g)) \<and>
     0 < workers (webhookEngine g) \<and> eventsChan (webhookEngine g) = [] \<and> \<not> stopCh_closed (webhookEngine g) \<and>
     gw_metrics g = NewMetrics \<and> forwarded g = []"

abbreviation start_cm :: "('d, 'k, 'r, 's) start_env \<Rightarrow> 'l ConfigManager" where
  "start_cm s \<equiv> NewConfigManager (s_getenv s) (s_yaml s) (s_file s) (s_path s)"

lemma start_cm_respected: "env_respected (s_getenv s) (cfg (start_cm s))"
  by (simp add: NewConfigManager_def applyEnvOverrides_def applyEnvOverridesLocked_def env_overrides_respected Let_def)

lemma start_breaker_ok:
  assumes "in_i64 (MaxConsecutiveFailures (CircuitBreakerCfg (CacheCfg c)))"
  shows "cb_ok (start_breaker s c)" "cb_state (start_breaker s c) = CircuitClosed" "\<not> emergencyCutoff (start_breaker s c)"
  using assms by (auto simp: start_breaker_def NewCircuitBreaker_def cb_ok_def Let_def in_i64_def second_def millisecond_def)

lemma start_engine_ready:
  "0 < workers (start_engine s c)" "eventsChan (start_engine s c) = []" "\<not> stopCh_closed (start_engine s c)"
  by (simp_all add: start_engine_def engine_Start_def NewEngine_def Let_def)

lemma startup_cases:
  obtains (fatal) "(startup s :: start_error + ('l, 'd, 'k, 'r, 's) process) = Inl ProxyFatal" "parse_host (s_req s) (TargetURL (Upstream (cm_Get (start_cm s :: 'l ConfigManager)))) = None"
  | (deaf) err where "(startup s :: start_error + ('l, 'd, 'k, 'r, 's) process) = Inl (ListenFatal err)"
      "parse_host (s_req s) (TargetURL (Upstream (cm_Get (start_cm s :: 'l ConfigManager)))) \<noteq> None"
      "s_listen s ('':'' @ show_int (Port (Server (cm_Get (start_cm s :: 'l ConfigManager))))) = Some err"
  | (up) p ec where "(startup s :: start_error + ('l, 'd, 'k, 'r, 's) process) = Inr p"
      "parse_host (s_req s) (TargetURL (Upstream (cm_Get (start_cm s :: 'l ConfigManager)))) = Some (pr_host p)"
      "pr_gateway p = \<lparr>cfgManager = start_cm s, gw_repo = start_repo s (cm_Get (start_cm s :: 'l ConfigManager)) ec,
         gw_redis = Some (start_redis s (cm_Get (start_cm s :: 'l ConfigManager))),
         gw_limiter = (start_limiter s (cm_Get (start_cm s :: 'l ConfigManager)), s_script_state s),
         smartCache = \<lparr>entries = [], stopCh = False\<rparr>, circuitBreaker = start_breaker s (cm_Get (start_cm s :: 'l ConfigManager)),
         webhookEngine = start_engine s (cm_Get (start_cm s :: 'l ConfigManager)), dlq_state = s_stream_state s, gw_metrics = NewMetrics,
         jitterOverride = - 1, gw_cors = Some (NewCORSMiddleware DefaultCORSConfig), startedAt = s_started s, forwarded = []\<rparr>"
      "pr_log p = []" "s_listen s ('':'' @ show_int (Port (Server (cm_Get (start_cm s :: 'l ConfigManager))))) = None"
proof -
  let ?c = "cm_Get (start_cm s :: 'l ConfigManager)"
  obtain ec where ec: "NewEnvelopeCipher (lib (s_req s)) (s_getenv s) (MasterKey (Security ?c)) = Inr ec"
    using NewEnvelopeCipher_total by blast
  show ?thesis
  proof (cases "parse_host (s_req s) (TargetURL (Upstream ?c))")
    case None
    then have "(startup s :: start_error + ('l, 'd, 'k, 'r, 's) process) = Inl ProxyFatal"
      by (simp add: startup_def ec NewGatewayProxy_def NewSmartCache_def Let_def)
    with None fatal show ?thesis by blast
  next
    case (Some host)
    note build = startup_def ec NewGatewayProxy_def NewSmartCache_def start_server_def Let_def
    show ?thesis
    proof (cases "s_listen s ('':'' @ show_int (Port (Server ?c)))")
      case None
      with Some show ?thesis by (intro up [of _ ec]) (auto simp: build)
    next
      case (Some err)
      with \<open>parse_host _ _ = Some host\<close> have "(startup s :: start_error + ('l, 'd, 'k, 'r, 's) process) = Inl (ListenFatal err)"
        by (simp add: build)
      with Some \<open>parse_host _ _ = Some host\<close> deaf show ?thesis by simp
    qed
  qed
qed

section \<open>Requests keep the engine running\<close>

lemma Publish_stop [simp]: "stopCh_closed (Publish ev eng) = stopCh_closed eng"
  by (simp add: Publish_def)

lemma bill_burst_stop: "stopCh_closed (webhookEngine (bill_burst e k t g)) = stopCh_closed (webhookEngine g)"
  by (simp add: bill_burst_def Let_def)

lemma finish_upstream_stop: "webhookEngine (snd (snd (finish_upstream e r rcd w g))) = webhookEngine g"
  by (simp add: finish_upstream_def Let_def split: option.split)

lemma serve_upstream_stop: "webhookEngine (snd (snd (serve_upstream e h r w g))) = webhookEngine g"
  by (simp add: serve_upstream_def finish_upstream_stop Let_def split: prod.split option.split)

lemma serve_limited_stop: "stopCh_closed (webhookEngine (snd (snd (serve_limited e h k tn t r w g)))) = stopCh_closed (webhookEngine g)"
proof -
  obtain res lim where c: "redis_Check (gw_limiter g) (limit_call e k tn t) = (res, lim)" by (rule prod.exhaust)
  show ?thesis unfolding serve_limited_def c Let_def prod.case
    by (cases "Status res = ''BURST''") (simp_all add: serve_upstream_stop bill_burst_stop split: option.split)
qed

lemma serve_signed_stop: "stopCh_closed (webhookEngine (snd (snd (serve_signed e h k tn t r w g)))) = stopCh_closed (webhookEngine g)"
  by (simp add: serve_signed_def serve_limited_stop Let_def split: option.split prod.split)

lemma serve_client_stop: "stopCh_closed (webhookEngine (snd (snd (serve_client e h r w g)))) = stopCh_closed (webhookEngine g)"
  by (simp add: serve_client_def serve_signed_stop Let_def split: option.split prod.split sum.split key_error.split)

lemma admin_stop: "stopCh_closed (webhookEngine (snd (snd (handleAdminAPI e r w g)))) = stopCh_closed (webhookEngine g)"
  by (simp add: handleAdminAPI_def admin_kill_def admin_burst_freeze_def admin_cutoff_def admin_jitter_def admin_status_def
      admin_dlq_retry_def admin_dlq_list_def audit_and_publish_def ToggleJitter_def Let_def split: option.split prod.split)

lemma gw_apply_stop: "stopCh_closed (webhookEngine (snd (gw_apply l h g er))) = stopCh_closed (webhookEngine g)"
  by (cases rule: ServeHTTP_cases [of "(fst er)\<lparr>lib := l\<rparr>" h "snd er" new_writer g])
    (simp_all add: gw_apply_state serveInternal_def admin_stop serve_client_stop)

lemma gw_run_stop:
  "\<not> stopCh_closed (webhookEngine g) \<Longrightarrow> \<not> stopCh_closed (webhookEngine (snd (run_ops (gw_apply l h) g ers)))"
  by (rule run_ops_invariant [of "\<lambda>g. \<not> stopCh_closed (webhookEngine g)"]) (simp_all add: gw_apply_stop)

section \<open>The exit\<close>

lemma call_stop_first:
  assumes "\<not> stopCh_closed (webhookEngine (pr_gateway p))"
  obtains eng where "call_stop p = (False, p\<lparr>pr_gateway := (pr_gateway p)\<lparr>webhookEngine := eng\<rparr>\<rparr>)" "stopCh_closed eng"
proof -
  let ?e = "webhookEngine (pr_gateway p)"
  from assms obtain eng where "engine_Stop ?e = Some eng" "stopCh_closed eng"
    by (cases "pollCancel ?e") (simp_all add: engine_Stop_def close_stop_def Let_def)
  then show ?thesis by (intro that [of eng]) (simp_all add: call_stop_def)
qed

lemma call_stop_again: "stopCh_closed (webhookEngine (pr_gateway p)) \<Longrightarrow> call_stop p = (True, p)"
  by (simp add: call_stop_def engine_Stop_def close_stop_def Let_def)

lemma cache_Close_twice [simp]: "cache_Close (cache_Close sc) = cache_Close sc" "stopCh (cache_Close sc)"
  by (simp_all add: cache_Close_def)

lemma main_exit_panics:
  assumes "\<not> stopCh_closed (webhookEngine (pr_gateway p))"
  shows "\<exists>p' out. main_exit hf tty p = (True, p') \<and> pr_log p' = out @ [stopped_line] \<and>
    stopCh_closed (webhookEngine (pr_gateway p')) \<and> stopCh (smartCache (pr_gateway p')) \<and>
    db (gw_repo (pr_gateway p')) = db (repo_Close (gw_repo (pr_gateway p)))"
proof -
  let ?q = "if \<not> hf \<and> tty then p else p\<lparr>pr_log := pr_log p @ [signal_line]\<rparr>"
  have "\<not> stopCh_closed (webhookEngine (pr_gateway ?q))" using assms by simp
  then obtain eng where eng: "call_stop ?q = (False, ?q\<lparr>pr_gateway := (pr_gateway ?q)\<lparr>webhookEngine := eng\<rparr>\<rparr>)" "stopCh_closed eng"
    by (rule call_stop_first)
  let ?front = "if \<not> hf \<and> tty then [] else [call_log signal_line]"
  have "run_calls (?front @ [call_stop, call_cache_close, call_log stopped_line]) p =
      run_calls [call_stop, call_cache_close, call_log stopped_line] ?q"
    by (simp add: call_log_def)
  then show ?thesis
    unfolding main_exit_def Let_def
    using eng by (simp add: call_stop_again call_cache_close_def call_log_def call_repo_close_def call_redis_close_def Let_def
        split: prod.split option.split)
qed

section \<open>The built-in keys\<close>

lemma b64_char_no_underscore: "CHR ''_'' \<noteq> b64_char n"
proof (cases "n < 64")
  case True
  then show ?thesis using b64_val_char [of n] by (auto simp: b64_val_def dest: sym)
qed (simp add: b64_char_def)

lemma b64_no_underscore: "CHR ''_'' \<notin> set (b64_encode x)"
  by (induction x rule: b64_encode.induct) (simp_all add: b64_char_no_underscore Let_def)

lemma Encrypt_not_drill: "Encrypt l rnd ec x = Inr ct \<Longrightarrow> ct \<noteq> drill_key"
proof -
  assume "Encrypt l rnd ec x = Inr ct"
  then obtain y where "ct = b64_encode y" by (auto simp: Encrypt_def Let_def split: option.splits if_splits)
  then have "CHR ''_'' \<notin> set ct" using b64_no_underscore by blast
  moreover have "CHR ''_'' \<in> set drill_key" by (simp add: drill_key_def)
  ultimately show ?thesis by blast
qed

lemma in_update: "x \<in> set (AList.update k v al) \<Longrightarrow> x = (k, v) \<or> x \<in> set al"
  by (induction al) (auto split: if_splits)

lemma seed_loop_entries:
  "(hk, r) \<in> set (seed_loop l ec now ks m) \<Longrightarrow>
     (hk, r) \<in> set m \<or> (\<exists>k rnd. (k, rnd) \<in> set ks \<and> r = seed_record l ec now rnd k)"
proof (induction l ec now ks m rule: seed_loop.induct)
  case (2 l ec now k rnd ks m)
  then have "(hk, r) \<in> set (gm_set (HashKey l (fst (snd k))) (seed_record l ec now rnd k) m) \<or>
      (\<exists>k' rnd'. (k', rnd') \<in> set ks \<and> r = seed_record l ec now rnd' k')" by simp
  then show ?case by (cases k) (auto simp: gm_set_def dest!: in_update)
qed simp

lemma seed_not_drill:
  assumes "(k, rnd) \<in> set (seed_input rnds)"
  shows "rec_ID (seed_record l ec now rnd k) \<noteq> drill_key" "EncryptedKey (seed_record l ec now rnd k) \<noteq> drill_key"
proof -
  have "fst k \<noteq> drill_key" using assms by (auto simp: seed_input_def seed_keys_def drill_key_def)
  then show "rec_ID (seed_record l ec now rnd k) \<noteq> drill_key" by (auto simp: seed_record_def split: prod.split)
  have "drill_key \<noteq> []" by (simp add: drill_key_def)
  then show "EncryptedKey (seed_record l ec now rnd k) \<noteq> drill_key"
    using Encrypt_not_drill by (auto simp: seed_record_def split: prod.split sum.split)
qed

text \<open>A gateway whose PostgreSQL does not answer holds the four built-in records only.\<close>

lemma offline_repo:
  assumes "s_connect s = (\<lambda>_. None)"
  shows "memKeys (repo (start_repo s c ec)) = seed_loop (lib (s_req s)) ec (s_seeded s) (seed_input (s_nonces s)) []"
    "redisClient (repo (start_repo s c ec)) = Some (start_redis s c)"
  using assms by (simp_all add: start_repo_def NewPostgresRepo_def seedDefaultKeys_def Let_def)

lemma offline_start:
  fixes p :: "('l, 'd, 'k, 'r, 's) process"
  assumes "startup s = Inr p" and "s_connect s = (\<lambda>_. None)"
  obtains ec where "memKeys (repo (gw_repo (pr_gateway p))) = seed_loop (lib (s_req s)) ec (s_seeded s) (seed_input (s_nonces s)) []"
    "gw_redis (pr_gateway p) = Some (start_redis s (cm_Get (cfgManager (pr_gateway p))))"
    "redisClient (repo (gw_repo (pr_gateway p))) = Some (start_redis s (cm_Get (cfgManager (pr_gateway p))))" "jitterOverride (pr_gateway p) = - 1"
    "entries (smartCache (pr_gateway p)) = []"
  using assms(1) by (cases rule: startup_cases [of s, where 'l = 'l]) (auto simp: offline_repo [OF assms(2)])

section \<open>Properties\<close>

text \<open>
  C23. The gateway starts. Whatever the configuration file, the environment and the servers are, two things are fatal and no other: an
  upstream URL that does not parse, and an address of the configured port at which the server cannot listen. A started gateway respects the environment's overrides, its
  breaker is closed with positive thresholds, its cache is empty, nothing is frozen or cut off, and
  the webhook engine runs with at least one worker. (The failure threshold of the file is an \<open>int\<close>.)
\<close>

theorem startup_outcome:
  fixes s :: "('d, 'k, 'r, 's) start_env"
  assumes "in_i64 (MaxConsecutiveFailures (CircuitBreakerCfg (CacheCfg (cm_Get (start_cm s :: 'l ConfigManager)))))"
  shows "case (startup s :: start_error + ('l, 'd, 'k, 'r, 's) process) of
      Inl err \<Rightarrow>
        (case parse_host (s_req s) (TargetURL (Upstream (cm_Get (start_cm s :: 'l ConfigManager)))) of
           None \<Rightarrow> err = ProxyFatal
         | Some _ \<Rightarrow> (\<exists>m. err = ListenFatal m \<and> s_listen s ('':'' @ show_int (Port (Server (cm_Get (start_cm s :: 'l ConfigManager))))) = Some m))
    | Inr p \<Rightarrow> parse_host (s_req s) (TargetURL (Upstream (cm_Get (start_cm s :: 'l ConfigManager)))) = Some (pr_host p) \<and>
        s_listen s ('':'' @ show_int (Port (Server (cm_Get (start_cm s :: 'l ConfigManager))))) = None \<and>
        gateway_ready (s_getenv s) (pr_gateway p)"
proof (cases rule: startup_cases [of s, where 'l = 'l])
  case (up p ec)
  have "gateway_ready (s_getenv s) (pr_gateway p)"
    unfolding up(3) gateway_ready_def using assms start_cm_respected [of s]
    by (simp add: start_breaker_ok start_engine_ready start_limiter_def NewLimiter_def)
  with up(1,2,5) show ?thesis by simp
qed auto

text \<open>A process without Redis and PostgreSQL.\<close>

definition sample_start :: "(unit, unit, toy_state, unit) start_env" where
  "sample_start = \<lparr>s_path = ''config.yaml'', s_file = None, s_getenv = sample_env, s_yaml = (\<lambda>_. None), s_watcher = True,
     s_watch_add = (\<lambda>_. False), s_dial = (\<lambda>_ _ _. None),
     s_scripts = toy_redis,
     s_streams = \<lparr>XRANGE_all = (\<lambda>_ _. None), XADD_dlq = (\<lambda>_ _ x. (False, x))\<rparr>, s_connect = (\<lambda>_. None),
     s_nonces = (\<lambda>_. Some ''123456789012''), s_listen = (\<lambda>_. None), s_item = (\<lambda>_. None), s_req = sample_reqenv\<lparr>lib := toy_lib2\<rparr>,
     s_seeded = 0, s_breaker = 0, s_started = 0, s_db = (), s_kv = (), s_script_state = toy_empty, s_stream_state = ()\<rparr>"

lemma sample_start_failures:
  "in_i64 (MaxConsecutiveFailures (CircuitBreakerCfg (CacheCfg (cm_Get (start_cm sample_start)))))"
  by (simp add: cm_Get_def cloneConfig_def sample_start_def NewConfigManager_def loadFromFile_cfg applyEnvOverrides_def
      applyEnvOverridesLocked_def env_overrides_def env_string_def env_port_def sample_env_def defaultConfig_def in_i64_def)

lemma sample_start_host: "parse_host (s_req sample_start) u = Some ''up''"
  by (simp add: sample_start_def sample_reqenv_def)

lemma sample_start_listen: "s_listen sample_start a = None"
  by (simp add: sample_start_def)

theorem startup_outcome_witness:
  "\<exists>p :: (nat, unit, unit, toy_state, unit) process. startup sample_start = Inr p \<and> gateway_ready sample_env (pr_gateway p)"
proof -
  have "s_getenv sample_start = sample_env" by (simp add: sample_start_def)
  then show ?thesis
    using startup_outcome [OF sample_start_failures, where 'l = nat] by (auto simp: sample_start_host sample_start_listen split: sum.splits)
qed

text \<open>
  C29. Every exit panics. Whatever requests a started gateway has answered, the end of \<open>main\<close> stops the webhook
  engine, closes the cache and logs a clean stop; then the deferred \<open>Stop\<close> closes the stop channel again
  and panics. The deferred calls after it still close the cache and the database.
\<close>

theorem exit_panics:
  fixes p :: "('l, 'd, 'k, 'r, 's) process"
  assumes "startup s = Inr p" and "p' = p\<lparr>pr_gateway := snd (run_ops (gw_apply l (pr_host p)) (pr_gateway p) ers)\<rparr>"
  shows "\<exists>q out. main_exit headlessFlag isTTY p' = (True, q) \<and> pr_log q = out @ [stopped_line] \<and>
    stopCh_closed (webhookEngine (pr_gateway q)) \<and> stopCh (smartCache (pr_gateway q)) \<and>
    db (gw_repo (pr_gateway q)) = db (repo_Close (gw_repo (pr_gateway p')))"
proof -
  have "\<not> stopCh_closed (webhookEngine (pr_gateway p))"
    using assms(1) by (cases rule: startup_cases [of s, where 'l = 'l]) (simp_all add: start_engine_ready)
  from gw_run_stop [OF this] have "\<not> stopCh_closed (webhookEngine (pr_gateway p'))" unfolding assms(2) by simp
  then show ?thesis by (rule main_exit_panics)
qed

definition sample_process :: "(nat, unit, unit, toy_state, unit) process" where
  "sample_process = projr (startup sample_start)"

lemma sample_process: "startup sample_start = Inr sample_process"
proof -
  obtain p :: "(nat, unit, unit, toy_state, unit) process" where "startup sample_start = Inr p"
    by (cases rule: startup_cases [of sample_start, where 'l = nat]) (auto simp: sample_start_host sample_start_listen)
  then show ?thesis by (simp add: sample_process_def)
qed

theorem exit_panics_witness:
  "\<exists>q out. main_exit True False (sample_process\<lparr>pr_gateway := snd (run_ops (gw_apply toy_lib2 (pr_host sample_process)) (pr_gateway sample_process)
       [(sample_reqenv, sample_request ''/x'')])\<rparr>) = (True, q) \<and> pr_log q = out @ [stopped_line]"
  using exit_panics [OF sample_process refl, of True False toy_lib2 "[(sample_reqenv, sample_request ''/x'')]"] by blast

text \<open>
  C24. A fresh gateway passes the kill-switch drill. Started without PostgreSQL and with jitter off,
  the gateway answers the drill's probe of its built-in compromised key, freezes the key, and the drill ends with
  status 403. Assumed: the upstream does not break the handler of the probe with an answer that breaks off or has an invalid status, the hashes of the four built-in keys differ, and the loop of the freeze visits every record.
\<close>

theorem startup_drill_passes:
  fixes p :: "('l, 'd, 'k, 'r, 's) process"
  assumes "startup s = Inr p" and "s_connect s = (\<lambda>_. None)"
    and "distinct (map (\<lambda>(kid, rawKey, tier). HashKey (lib (s_req s)) rawKey) seed_keys)"
    and "\<not> jit_Enabled (Jitter (Upstream (cm_Get (cfgManager (pr_gateway p)))))" and "\<And>host r. \<not> breaks_handler (upstream e1 host r)"
    and "d_exit st = None" and "d_world st = (pr_gateway p, e1 # e2 # e3 # es)" and "lib e1 = lib (s_req s)" and "lib e2 = lib (s_req s)"
    and "lib e3 = lib (s_req s)" and "set (map_order e2) = fst ` set (memKeys (repo (gw_repo (pr_gateway p))))"
  shows "\<exists>out g'. run_state (runKillSwitchDrill (gw_world_send (pr_host p) base) base) st =
    ((), st\<lparr>d_out := out @ [verdict_line 403, rule_line @ nl, passed_line @ nl, rule_line @ nl], d_world := (g', es)\<rparr>)"
proof -
  let ?l = "lib (s_req s)" and ?g = "pr_gateway p"
  obtain ec where mem: "memKeys (repo (gw_repo ?g)) = seed_loop ?l ec (s_seeded s) (seed_input (s_nonces s)) []"
    and jit: "jitterOverride ?g = - 1" and cache: "entries (smartCache ?g) = []"
    using offline_start [OF assms(1,2)] by blast
  have "(''key_compromised_99'', drill_key, ''enterprise'') \<in> set seed_keys" by (simp add: seed_keys_def drill_key_def)
  from seed_input_get [OF assms(3) this, of ec "s_seeded s"]
  obtain rec where rec: "map_of (memKeys (repo (gw_repo ?g))) (HashKey ?l drill_key) = Some rec" by (auto simp: mem)
  have other: "rec_ID r \<noteq> drill_key \<and> EncryptedKey r \<noteq> drill_key" if "(hk, r) \<in> set (memKeys (repo (gw_repo ?g)))" for hk r
    using seed_loop_entries [OF that [unfolded mem]] seed_not_drill by auto
  have "\<not> IsJitterActive ?g" using assms(4) jit by (simp add: IsJitterActive_def)
  moreover have "cache_good (smartCache ?g)" using cache by (simp add: cache_good_def cache_Get_def)
  ultimately have "fst (gw_send e1 (pr_host p) base (resource_request base drill_key) ?g) \<noteq> Unreached"
    using quiet_probe assms(5) by blast
  then show ?thesis
    using kill_drill_passes [OF assms(6-10) rec assms(11)] other by blast
qed

text \<open>The drill's surroundings for the sample process.\<close>

definition start_reqenv :: req_env where
  "start_reqenv = sample_reqenv\<lparr>lib := toy_lib2, clk := (\<lambda>_. 2000 * second), upstream := (\<lambda>_ _. UpResponse 200 [] ''data''), map_order := map (\<lambda>(kid, rawKey, tier). HashKey toy_lib2 rawKey) seed_keys\<rparr>"

definition drill_start :: "nat \<Rightarrow> ((nat, unit, unit, toy_state, unit) gateway \<times> req_env list) dstate" where
  "drill_start n = \<lparr>d_out = [], d_world = (pr_gateway sample_process, replicate n start_reqenv), d_exit = None\<rparr>"

lemma start_reqenv_lib [simp]: "lib start_reqenv = toy_lib2" "lib (s_req sample_start) = toy_lib2"
  by (simp_all add: start_reqenv_def sample_start_def)

lemma sample_hashes: "distinct (map (\<lambda>(kid, rawKey, tier). HashKey toy_lib2 rawKey) seed_keys)"
  by code_simp

lemma sample_offline:
  "s_dial sample_start = (\<lambda>_ _ _. None)" "s_connect sample_start = (\<lambda>_. None)"
  by (simp_all add: sample_start_def)

lemma sample_process_cm: "cfgManager (pr_gateway sample_process) = start_cm sample_start"
  using sample_process by (cases rule: startup_cases [of sample_start, where 'l = nat]) auto

lemma sample_process_cfg: "cfg (cfgManager (pr_gateway sample_process)) = defaultConfig\<lparr>Upstream := (Upstream defaultConfig)\<lparr>TargetURL := ''http://up''\<rparr>\<rparr>"
  unfolding sample_process_cm
  by (simp add: sample_start_def NewConfigManager_def loadFromFile_cfg applyEnvOverrides_def cloneConfig_def
      applyEnvOverridesLocked_def env_overrides_def env_string_def env_port_def sample_env_def defaultConfig_def gm_set_def)

theorem startup_drill_passes_witness:
  "\<exists>out g'. run_state (runKillSwitchDrill (gw_world_send (pr_host sample_process) ''http://gw'') ''http://gw'') (drill_start 3) =
     ((), (drill_start 3)\<lparr>d_out := out @ [verdict_line 403, rule_line @ nl, passed_line @ nl, rule_line @ nl], d_world := (g', [])\<rparr>)"
proof -
  have start: "d_exit (drill_start 3) = None"
    "d_world (drill_start 3) = (pr_gateway sample_process, start_reqenv # start_reqenv # start_reqenv # [])"
    by (simp_all add: drill_start_def numeral_3_eq_3)
  have quiet: "\<not> jit_Enabled (Jitter (Upstream (cm_Get (cfgManager (pr_gateway sample_process)))))"
    by (simp add: cm_Get_def cloneConfig_def sample_process_cfg defaultConfig_def)
  have whole: "\<not> breaks_handler (upstream start_reqenv host r)" for host r
    by (simp add: start_reqenv_def sample_reqenv_def breaks_handler_def bad_status_def)
  have "memKeys (repo (start_repo sample_start c ec)) = seed_loop toy_lib2 ec 0 (seed_input (s_nonces sample_start)) []" for c ec
    by (subst offline_repo) (simp_all add: sample_start_def)
  then have keys: "set (map_order start_reqenv) = fst ` set (memKeys (repo (gw_repo (pr_gateway sample_process))))"
    using sample_process
    by (cases rule: startup_cases [of sample_start, where 'l = nat])
      (auto simp: start_reqenv_def seed_input_def seed_keys_def sample_start_def numeral_eq_Suc gm_set_def dom_update)
  show ?thesis
    using startup_drill_passes [OF sample_process sample_offline(2) _ quiet whole start, of "''http://gw''"] keys sample_hashes by simp
qed

text \<open>
  C37. A fresh gateway blocks the attack suite. Started without Redis and PostgreSQL, the gateway answers 401 to all
  ten replay attacks that follow the suite's 150 concurrent requests, whatever their order: the suite
  reports 10/10. Assumed: the hashes of the built-in keys differ, no signature is empty, the free tier's replay
  window is below 100 seconds, and the gateway's clock is not behind the suite's.
\<close>

theorem startup_suite_blocked:
  fixes p :: "('l, 'd, 'k, 'r, 's) process"
  assumes "startup s = Inr p" and "s_dial s = (\<lambda>_ _ _. None)" and "s_connect s = (\<lambda>_. None)"
    and "distinct (map (\<lambda>(kid, rawKey, tier). HashKey (lib (s_req s)) rawKey) seed_keys)"
    and "\<And>r. Tier r = ''free'' \<Longrightarrow> ReplayWindowSeconds (tier_of (lib (s_req s)) (pr_gateway p) r) < 100"
    and "\<forall>m. hmac_sha256 (lib (s_req s)) (burst_keys ! 0) m \<noteq> []"
    and "d_exit st = None" and "d_world st = (pr_gateway p, es @ es')" and "length es = length order"
    and "list_all (\<lambda>e. lib e = lib (s_req s)) es" and "list_all2 (replay_env (lib (s_req s)) now) [0..<10] es'"
  shows "\<exists>out. d_out (snd (run_state (runChaosAttackSuite (lib (s_req s)) now order (gw_world_send (pr_host p) base) base) st)) =
    out @ [replay_summary 10, rule_line @ nl]"
proof -
  let ?l = "lib (s_req s)" and ?g = "pr_gateway p"
  have off: "Client (start_redis s c) = None" for c using assms(2) by (simp add: start_redis_def NewRedisClient_def Let_def)
  obtain ec where mem: "memKeys (repo (gw_repo ?g)) = seed_loop ?l ec (s_seeded s) (seed_input (s_nonces s)) []"
    and red: "gw_redis ?g = Some (start_redis s (cm_Get (cfgManager ?g)))" "redisClient (repo (gw_repo ?g)) = Some (start_redis s (cm_Get (cfgManager ?g)))"
    using offline_start [OF assms(1,3)] by blast
  have seeded: "\<exists>rnd. map_of (memKeys (repo (gw_repo ?g))) (HashKey ?l rawKey) = Some (seed_record ?l ec (s_seeded s) rnd (kid, rawKey, tier))"
    if "(kid, rawKey, tier) \<in> set seed_keys" for kid rawKey tier
    using seed_input_get [OF assms(4) that, of ec "s_seeded s"] by (auto simp: mem)
  have "keys_stored ?l ?g"
    using seeded [of "''key_free_01''" "burst_keys ! 0" "''free''"] seeded [of "''key_pro_01''" "burst_keys ! 1" "''pro''"]
      seeded [of "''key_enterprise_01''" "burst_keys ! 2" "''enterprise''"]
    by (auto simp: keys_stored_def burst_keys_def seed_keys_def)
  moreover obtain rnd where rnd: "map_of (memKeys (repo (gw_repo ?g))) (HashKey ?l (burst_keys ! 0)) =
      Some (seed_record ?l ec (s_seeded s) rnd (''key_free_01'', burst_keys ! 0, ''free''))"
    using seeded [of "''key_free_01''" "burst_keys ! 0" "''free''"] by (auto simp: burst_keys_def seed_keys_def)
  let ?r = "seed_record ?l ec (s_seeded s) rnd (''key_free_01'', burst_keys ! 0, ''free'')"
  have "live_key ?l ?g (burst_keys ! 0) ?r"
    using rnd red off by (simp add: live_key_def IsKeyFrozen_def key_verdict_def seed_record_def) (simp add: burst_keys_def)
  moreover have "ReplayWindowSeconds (tier_of ?l ?g ?r) < 100" by (rule assms(5)) (simp add: seed_record_def)
  ultimately show ?thesis using attack_suite_blocked [OF assms(7-11)] assms(6) by blast
qed

theorem startup_suite_blocked_witness:
  "\<exists>out. d_out (snd (run_state (runChaosAttackSuite toy_lib2 (\<lambda>_. 2000) [0..<150] (gw_world_send (pr_host sample_process) ''http://gw'') ''http://gw'')
       (drill_start 160))) = out @ [replay_summary 10, rule_line @ nl]"
proof -
  have "replay_env toy_lib2 (\<lambda>_. 2000) i start_reqenv" if "i < 10" for i
    using that by (simp add: replay_env_def start_reqenv_def time_unix_def second_def)
  then have envs: "list_all2 (replay_env toy_lib2 (\<lambda>_. 2000)) [0..<10] (replicate 10 start_reqenv)"
    by (simp add: list_all2_conv_all_nth)
  have start: "d_exit (drill_start 160) = None"
    "d_world (drill_start 160) = (pr_gateway sample_process, replicate 150 start_reqenv @ replicate 10 start_reqenv)"
    by (simp_all add: drill_start_def flip: replicate_add)
  have es: "length (replicate 150 start_reqenv) = length [0..<150]" "list_all (\<lambda>e. lib e = toy_lib2) (replicate 150 start_reqenv)"
    by (simp_all add: list_all_length)
  have "unicode_lower toy_lib2 = (\<lambda>s. s)" by (simp add: toy_lib2_def toy_lib_def)
  then have tier: "ReplayWindowSeconds (tier_of toy_lib2 (pr_gateway sample_process) r) < 100" if "Tier r = ''free''" for r
    using that sample_lower by (simp add: tier_of_def GetTier_def sample_process_cfg defaultConfig_def)
  have "\<forall>m. hmac_sha256 toy_lib2 (burst_keys ! 0) m \<noteq> []" by (simp add: toy_lib2_def toy_lib_def)
  then show ?thesis
    using startup_suite_blocked [OF sample_process sample_offline _ _ _ start es(1)] sample_hashes tier es(2) envs by simp
qed

end
