(* ===== verification/Standalone_Poll.thy ===== *)
theory Standalone_Poll
  imports Standalone
begin

text \<open>
  The counts that the standalone console polls are those of the gateway. The metrics page is
  written by the Prometheus client, which is not part of the source; what is used of it is its text
  format: one line per pair of label values of a counter vector, with the labels in alphabetical
  order, and the number of times the pair was incremented. Under that hypothesis
  the counts a poll reads are the internal counters that the console inside the gateway shows.
\<close>

section \<open>Labels in a line\<close>

lemma contains_iff: "contains s sub \<longleftrightarrow> (\<exists>u v. s = u @ sub @ v)"
proof (induction s)
  case (Cons c s)
  have p: "has_prefix (c # s) sub \<longleftrightarrow> (\<exists>v. c # s = sub @ v)"
    by (metis append_eq_conv_conj append_take_drop_id has_prefix_append has_prefix_def)
  show ?case unfolding contains.simps Cons p by (metis append_Cons append_Nil append_eq_Cons_conv)
qed simp

lemma split_on_append_any: "split_on c (u @ c # r) = split_on c u @ split_on c r"
  by (induction u) (auto split: list.split)

lemma split_on_append_last:
  assumes "c \<notin> set y"
  shows "split_on c (x @ y) = butlast (split_on c x) @ [last (split_on c x) @ y]"
proof (induction x)
  case Nil
  then show ?case using assms by (simp add: split_on_none)
next
  case (Cons a x)
  obtain b bs where "split_on c x = b # bs" by (cases "split_on c x") auto
  with Cons show ?case by (cases bs) auto
qed

definition requests_line :: "string \<Rightarrow> string \<Rightarrow> string \<Rightarrow> string" where
  "requests_line t s num = ''aegispulse_requests_total{status='' @ quoted s @ '',tier='' @ quoted t @ ''} '' @ num"

lemma split_requests_line:
  assumes "dquote \<notin> set s" "dquote \<notin> set t" "dquote \<notin> set num"
  shows "split_on dquote (requests_line t s num) = [''aegispulse_requests_total{status='', s, '',tier='', t, ''} '' @ num]"
proof -
  have l: "dquote \<notin> set ''aegispulse_requests_total{status=''" "dquote \<notin> set '',tier=''" "dquote \<notin> set ''} ''"
    by code_simp+
  have "requests_line t s num =
      ''aegispulse_requests_total{status='' @ dquote # s @ dquote # '',tier='' @ dquote # t @ dquote # ''} '' @ num"
    by (simp add: requests_line_def quoted_def)
  moreover have "split_on dquote (''} '' @ num) = [''} '' @ num]" using l assms by (intro split_on_none) simp
  ultimately show ?thesis
    by (simp only: split_on_append [OF l(1)] split_on_append [OF l(2)] split_on_append [OF assms(1)] split_on_append [OF assms(2)])
qed

lemma label_contains:
  assumes "dquote \<notin> set s" "dquote \<notin> set t" "dquote \<notin> set num" "dquote \<notin> set x" "x \<noteq> '',tier=''"
  shows "contains (requests_line t s num) (status_label x) \<longleftrightarrow> x = s"
proof
  assume "x = s"
  then show "contains (requests_line t s num) (status_label x)"
    unfolding contains_iff requests_line_def status_label_def
    by (intro exI [of _ "''aegispulse_requests_total{''"] exI [of _ "'',tier='' @ quoted t @ ''} '' @ num"]) simp
next
  assume "contains (requests_line t s num) (status_label x)"
  then obtain u v where uv: "requests_line t s num = (u @ ''status='') @ dquote # x @ dquote # v"
    by (auto simp: contains_iff status_label_def quoted_def)
  let ?u = "split_on dquote (u @ ''status='')"
  have eq: "?u @ x # split_on dquote v = [''aegispulse_requests_total{status='', s, '',tier='', t, ''} '' @ num]"
    using split_requests_line [OF assms(1-3)] uv split_on_append_any split_on_append [OF assms(4)] by metis
  have st: "dquote \<notin> set ''status=''" by code_simp
  have l: "last ?u = last (split_on dquote u) @ ''status=''" unfolding split_on_append_last [OF st] by (rule last_snoc)
  have no: "y @ ''status='' \<noteq> '',tier=''" for y by (auto simp: append_eq_Cons_conv)
  obtain a ys where u: "?u = a # ys" by (cases ?u) auto
  obtain b zs where v: "split_on dquote v = b # zs" by (cases "split_on dquote v") auto
  show "x = s"
    using eq l no assms(5) unfolding u v
    by (cases ys rule: remdups_adj.cases) (auto simp: append_eq_Cons_conv Cons_eq_append_conv)
qed

section \<open>What a poll adds up\<close>

definition is_requests :: "string \<Rightarrow> bool" where
  "is_requests l \<longleftrightarrow> has_prefix l ''aegispulse_requests_total{''"

definition normal_amount :: "(float64 \<Rightarrow> i64) \<Rightarrow> string \<Rightarrow> int" where
  "normal_amount oob' l = (if is_requests l \<and> contains l (status_label ''NORMAL'') then parseLastInt oob' l else 0)"

definition burst_amount :: "(float64 \<Rightarrow> i64) \<Rightarrow> string \<Rightarrow> int" where
  "burst_amount oob' l =
     (if is_requests l \<and> \<not> contains l (status_label ''NORMAL'') \<and> contains l (status_label ''BURST'') then parseLastInt oob' l else 0)"

definition blocked_amount :: "(float64 \<Rightarrow> i64) \<Rightarrow> string \<Rightarrow> int" where
  "blocked_amount oob' l =
     (if is_requests l \<and> \<not> contains l (status_label ''NORMAL'') \<and> \<not> contains l (status_label ''BURST'') \<and>
         (contains l (status_label ''BLOCKED'') \<or> contains l (status_label ''BURST_FROZEN'')) then parseLastInt oob' l else 0)"

lemma poll_line_counts:
  assumes "counts_ok p"
  shows "newNormal (fst (poll_line oob' l (p, m))) = wrap64 (newNormal p + normal_amount oob' l)"
    and "newBurst (fst (poll_line oob' l (p, m))) = wrap64 (newBurst p + burst_amount oob' l)"
    and "newBlocked (fst (poll_line oob' l (p, m))) = wrap64 (newBlocked p + blocked_amount oob' l)"
  using assms
  by (simp_all add: poll_line_def normal_amount_def burst_amount_def blocked_amount_def is_requests_def counts_ok_def wrap64_id Let_def)

lemma poll_lines_counts:
  assumes "counts_ok p"
  shows "newNormal (fst (fold (poll_line oob') ls (p, m))) = wrap64 (newNormal p + sum_list (map (normal_amount oob') ls)) \<and>
    newBurst (fst (fold (poll_line oob') ls (p, m))) = wrap64 (newBurst p + sum_list (map (burst_amount oob') ls)) \<and>
    newBlocked (fst (fold (poll_line oob') ls (p, m))) = wrap64 (newBlocked p + sum_list (map (blocked_amount oob') ls))"
  using assms
proof (induction ls arbitrary: p m)
  case Nil
  then show ?case by (simp add: counts_ok_def wrap64_id)
next
  case (Cons l ls)
  obtain p1 m1 where pl: "poll_line oob' l (p, m) = (p1, m1)" by (rule prod.exhaust)
  with poll_line_kept [of undefined "(p, m)" oob' l] Cons.prems have "counts_ok p1" by (simp add: poll_kept_def)
  from Cons.IH [OF this, of m1] poll_line_counts [OF Cons.prems, of oob' l m] pl show ?case by (simp add: add.assoc)
qed

lemma poll_page_counts:
  "sm_normalCount (poll_page oob' b m) = wrap64 (sum_list (map (normal_amount oob') (split_on (CHR 0x0A) b))) \<and>
   sm_burstCount (poll_page oob' b m) = wrap64 (sum_list (map (burst_amount oob') (split_on (CHR 0x0A) b))) \<and>
   sm_blockedCount (poll_page oob' b m) = wrap64 (sum_list (map (blocked_amount oob') (split_on (CHR 0x0A) b)))"
proof -
  let ?p = "\<lparr>newNormal = 0, newBurst = 0, newBlocked = 0, newReplay = 0\<rparr>"
  have "counts_ok ?p" by (simp add: counts_ok_def in_i64_def)
  from poll_lines_counts [OF this, of oob' "split_on (CHR 0x0A) b" m] show ?thesis
    by (auto simp: poll_page_def split: prod.split)
qed

text \<open>A line with a number that reads back.\<close>

definition reads_back :: "string \<Rightarrow> nat \<Rightarrow> bool" where
  "reads_back num n \<longleftrightarrow> parse_float num = (Fin (of_nat n), None) \<and> list_all solid num \<and> num \<noteq> [] \<and> dquote \<notin> set num"

lemma parseLastInt_line:
  assumes "reads_back num n" and "int n \<le> 9223372036854775807"
  shows "parseLastInt oob' (requests_line t s num) = int n"
proof -
  let ?x = "''aegispulse_requests_total{status='' @ quoted s @ '',tier='' @ quoted t @ ''}''"
  have line: "requests_line t s num = ?x @ CHR '' '' # num" by (simp add: requests_line_def)
  have "solid (CHR ''a'')" by code_simp
  then have "str_fields ?x \<noteq> []" using fields_nonempty [of "CHR ''a''"] by simp
  moreover have "str_fields (requests_line t s num) = str_fields ?x @ [num]"
    unfolding line using assms(1) by (intro fields_last) (simp_all add: reads_back_def)
  moreover have "f_to_int oob' (Fin (of_nat n)) = int n"
    using assms(2) by (simp add: f_to_int_def rat_trunc_def in_i64_def)
  ultimately show ?thesis
    using assms(1) by (cases "str_fields ?x") (simp_all add: parseLastInt_def reads_back_def Let_def)
qed

lemma amounts_line:
  assumes "reads_back num n" "int n \<le> 9223372036854775807" "dquote \<notin> set s" "dquote \<notin> set t"
  shows "normal_amount oob' (requests_line t s num) = (if s = ''NORMAL'' then int n else 0)"
    and "burst_amount oob' (requests_line t s num) = (if s = ''BURST'' then int n else 0)"
    and "blocked_amount oob' (requests_line t s num) = (if s \<in> {''BLOCKED'', ''BURST_FROZEN''} then int n else 0)"
    and "is_requests (requests_line t s num)"
proof -
  have num: "dquote \<notin> set num" using assms(1) by (simp add: reads_back_def)
  have x: "dquote \<notin> set ''NORMAL''" "dquote \<notin> set ''BURST''" "dquote \<notin> set ''BLOCKED''" "dquote \<notin> set ''BURST_FROZEN''" by code_simp+
  define l where "l = requests_line t s num"
  have c: "contains l (status_label ''NORMAL'') \<longleftrightarrow> ''NORMAL'' = s" "contains l (status_label ''BURST'') \<longleftrightarrow> ''BURST'' = s"
    "contains l (status_label ''BLOCKED'') \<longleftrightarrow> ''BLOCKED'' = s" "contains l (status_label ''BURST_FROZEN'') \<longleftrightarrow> ''BURST_FROZEN'' = s"
    unfolding l_def by (rule label_contains [OF assms(3,4) num]; use x in simp)+
  have r: "is_requests l" by (simp add: l_def is_requests_def requests_line_def has_prefix_def)
  have n: "parseLastInt oob' l = int n" unfolding l_def by (rule parseLastInt_line [OF assms(1,2)])
  show "is_requests (requests_line t s num)" using r by (simp only: l_def)
  show "normal_amount oob' (requests_line t s num) = (if s = ''NORMAL'' then int n else 0)"
    "burst_amount oob' (requests_line t s num) = (if s = ''BURST'' then int n else 0)"
    "blocked_amount oob' (requests_line t s num) = (if s \<in> {''BLOCKED'', ''BURST_FROZEN''} then int n else 0)"
    unfolding l_def [symmetric] normal_amount_def burst_amount_def blocked_amount_def c using r n by auto
qed

section \<open>What the gateway counted\<close>

definition inc_of :: "string \<times> string \<Rightarrow> prom_call" where
  "inc_of ts = RequestsTotalInc (fst ts) (snd ts)"

definition status_calls :: "string set \<Rightarrow> prom_call list \<Rightarrow> nat" where
  "status_calls S calls = length (filter (\<lambda>c. \<exists>t. \<exists>s \<in> S. c = RequestsTotalInc t s) calls)"

text \<open>The internal counters count the same calls as the counter vector.\<close>

definition counted :: "Metrics \<Rightarrow> bool" where
  "counted m \<longleftrightarrow> normalCount m = wrap64 (int (status_calls {''NORMAL''} (prom m))) \<and>
     burstCount m = wrap64 (int (status_calls {''BURST''} (prom m))) \<and>
     blockedCount m = wrap64 (int (status_calls {''BLOCKED'', ''BURST_FROZEN''} (prom m)))"

lemma status_calls_simps [simp]:
  "status_calls S [] = 0"
  "status_calls S (c # cs) = (case c of RequestsTotalInc t s \<Rightarrow> if s \<in> S then 1 else 0 | _ \<Rightarrow> 0) + status_calls S cs"
  "status_calls S (cs @ ds) = status_calls S cs + status_calls S ds"
  by (auto simp: status_calls_def split: prom_call.split)

lemma wrap64_add_right: "wrap64 (y + wrap64 x) = wrap64 (y + x)"
  using wrap64_add_left [of x y] by (simp only: add.commute)

lemma counted_request: "counted m \<Longrightarrow> counted (RecordRequest t s m)"
  by (simp add: counted_def RecordRequest_def emit_def Let_def add.commute wrap64_add_right)

lemma counted_step: "counted m \<Longrightarrow> counted (metrics_apply oob' op m)"
proof (cases op)
  case (MBreaker s)
  then show "counted m \<Longrightarrow> ?thesis" by (simp add: counted_def SetCircuitBreakerStateMetric_def emit_def Let_def)
qed (simp_all add: counted_request, simp_all add: counted_def RecordBurstOverage_def RecordLatency_def RecordReplayBlocked_def
      RecordCacheFallback_def SetDLQCount_def SetRevenue_def SetRedisMemory_def emit_def Let_def)

lemma counted_run: "counted (metrics_run oob' ops)"
proof -
  have "counted m \<Longrightarrow> counted (fold (metrics_apply oob') ops m)" for m
    by (induction ops arbitrary: m) (simp_all add: counted_step)
  moreover have "counted NewMetrics" by (simp add: counted_def NewMetrics_def status_calls_def wrap64_def)
  ultimately show ?thesis by (simp add: metrics_run_def)
qed

lemma filter_or_count: "\<not> Q a \<Longrightarrow> length (filter (\<lambda>c. c = a \<or> Q c) xs) = count_list xs a + length (filter Q xs)"
  by (induction xs) auto

lemma sum_counts:
  assumes "distinct ps" and "inj f"
  shows "sum_list (map (\<lambda>p. count_list xs (f p)) ps) = length (filter (\<lambda>c. c \<in> f ` set ps) xs)"
  using assms(1)
proof (induction ps)
  case (Cons p ps)
  then have "f p \<notin> f ` set ps" using assms(2) by (auto dest: injD)
  from filter_or_count [of "\<lambda>c. c \<in> f ` set ps" "f p" xs, OF this] Cons show ?case by simp
qed simp

lemma sum_pairs:
  assumes "distinct pairs" and "\<And>t s. RequestsTotalInc t s \<in> set calls \<Longrightarrow> (t, s) \<in> set pairs"
  shows "sum_list (map (\<lambda>ts. if snd ts \<in> S then int (count_list calls (inc_of ts)) else 0) pairs) = int (status_calls S calls)"
proof -
  let ?P = "filter (\<lambda>ts. snd ts \<in> S) pairs"
  have "inj inc_of" by (auto simp: inj_def inc_of_def)
  then have "sum_list (map (\<lambda>ts. count_list calls (inc_of ts)) ?P) = length (filter (\<lambda>c. c \<in> inc_of ` set ?P) calls)"
    using assms(1) by (intro sum_counts) simp
  also have "filter (\<lambda>c. c \<in> inc_of ` set ?P) calls = filter (\<lambda>c. \<exists>t. \<exists>s \<in> S. c = RequestsTotalInc t s) calls"
    using assms(2) by (intro filter_cong [OF refl]) (force simp: inc_of_def image_iff)
  finally have "int (sum_list (map (\<lambda>ts. count_list calls (inc_of ts)) ?P)) = int (status_calls S calls)" by (simp add: status_calls_def)
  moreover have "sum_list (map (\<lambda>ts. if snd ts \<in> S then int (count_list calls (inc_of ts)) else 0) pairs) =
      int (sum_list (map (\<lambda>ts. count_list calls (inc_of ts)) ?P))" by (induction pairs) auto
  ultimately show ?thesis by simp
qed

section \<open>The two agree\<close>

text \<open>
  A page that shows the calls on the request counter in Prometheus' text format: \<open>fmt\<close> writes the
  numbers, and the label values hold no quote.
\<close>

definition shows_requests :: "(nat \<Rightarrow> string) \<Rightarrow> (string \<times> string) list \<Rightarrow> prom_call list \<Rightarrow> string list \<Rightarrow> bool" where
  "shows_requests fmt pairs calls ls \<longleftrightarrow>
     filter is_requests ls = map (\<lambda>ts. requests_line (fst ts) (snd ts) (fmt (count_list calls (inc_of ts)))) pairs \<and> distinct pairs \<and>
     list_all (\<lambda>c. case c of RequestsTotalInc t s \<Rightarrow> (t, s) \<in> set pairs | _ \<Rightarrow> True) calls \<and>
     list_all (\<lambda>(t, s). dquote \<notin> set t \<and> dquote \<notin> set s) pairs"

lemma sum_amounts:
  assumes "\<And>l. \<not> is_requests l \<Longrightarrow> amt l = 0"
  shows "sum_list (map amt ls) = sum_list (map amt (filter is_requests ls) :: int list)"
  using assms by (induction ls) auto

lemma count_list_le: "count_list xs a \<le> length xs"
  by (simp add: count_le_length)

text \<open>
  C27. The polled counts are the gateway's. When the metrics page shows the request counter of a gateway
  that has made any sequence of metric calls, with numbers that read back, the NORMAL, BURST and
  BLOCKED counts that a poll stores are the internal counters of that gateway, which its own
  console shows.
\<close>

theorem poll_agrees:
  assumes "m = metrics_run oob' ops" and "shows_requests fmt pairs (prom m) (split_on (CHR 0x0A) body)"
    and "length (prom m) \<le> 2 ^ 53" and "\<forall>n. n \<le> 2 ^ 53 \<longrightarrow> reads_back (fmt n) n"
  shows "sm_normalCount (poll_page oob' body sm) = normalCount m \<and> sm_burstCount (poll_page oob' body sm) = burstCount m \<and>
    sm_blockedCount (poll_page oob' body sm) = blockedCount m"
proof -
  let ?ls = "split_on (CHR 0x0A) body" and ?n = "\<lambda>ts. count_list (prom m) (inc_of ts)"
  let ?line = "\<lambda>ts. requests_line (fst ts) (snd ts) (fmt (?n ts))"
  have ls: "filter is_requests ?ls = map ?line pairs" and dist: "distinct pairs"
    and cover: "\<And>t s. RequestsTotalInc t s \<in> set (prom m) \<Longrightarrow> (t, s) \<in> set pairs"
    and quotes: "\<And>ts. ts \<in> set pairs \<Longrightarrow> dquote \<notin> set (fst ts) \<and> dquote \<notin> set (snd ts)"
    using assms(2) by (auto simp: shows_requests_def list_all_iff split: prom_call.splits)
  have n: "reads_back (fmt (?n ts)) (?n ts)" "int (?n ts) \<le> 9223372036854775807" for ts
    using assms(3,4) count_list_le [of "prom m" "inc_of ts"] by simp_all
  have sum: "sum_list (map amt ?ls) = int (status_calls S (prom m))"
    if "\<And>l. \<not> is_requests l \<Longrightarrow> amt l = 0" and "\<And>ts. ts \<in> set pairs \<Longrightarrow> amt (?line ts) = (if snd ts \<in> S then int (?n ts) else 0)" for amt S
  proof -
    have "sum_list (map amt ?ls) = sum_list (map (\<lambda>ts. amt (?line ts)) pairs)"
      using sum_amounts [OF that(1), where ls = ?ls] ls by (simp add: comp_def)
    also have "\<dots> = sum_list (map (\<lambda>ts. if snd ts \<in> S then int (?n ts) else 0) pairs)"
      using that(2) by (intro arg_cong [of _ _ sum_list] map_cong) auto
    finally show ?thesis using sum_pairs [OF dist cover] by simp
  qed
  have "sum_list (map (normal_amount oob') ?ls) = int (status_calls {''NORMAL''} (prom m))"
    by (rule sum) (simp add: normal_amount_def, use quotes amounts_line(1) [OF n] in simp)
  moreover have "sum_list (map (burst_amount oob') ?ls) = int (status_calls {''BURST''} (prom m))"
    by (rule sum) (simp add: burst_amount_def, use quotes amounts_line(2) [OF n] in simp)
  moreover have "sum_list (map (blocked_amount oob') ?ls) = int (status_calls {''BLOCKED'', ''BURST_FROZEN''} (prom m))"
    by (rule sum) (simp add: blocked_amount_def, use quotes amounts_line(3) [OF n] in simp)
  ultimately show ?thesis
    using counted_run [of oob' ops] assms(1) poll_page_counts [of oob' body sm] by (simp add: counted_def)
qed

definition sample_ops :: "metrics_op list" where
  "sample_ops = [MRequest ''free'' ''NORMAL'', MRequest ''pro'' ''BURST'', MReplay ''pro'', MRequest ''free'' ''NORMAL'']"

definition sample_page :: bytes where
  "sample_page = join [''# TYPE aegispulse_requests_total counter'', requests_line ''free'' ''NORMAL'' ''2'',
     requests_line ''pro'' ''BURST'' ''1'', ''aegispulse_dlq_pending_total 0'', []] nl"

lemma show_nat_reads_back: "n \<le> 2 ^ 53 \<Longrightarrow> reads_back (show_nat n) n"
proof -
  assume n: "n \<le> 2 ^ 53"
  have "solid c \<and> c \<noteq> dquote" if c: "c \<in> set (show_nat n)" for c
  proof -
    obtain d where d: "d < 10" "c = digit_char d" using show_nat_digits [OF c] by blast
    then have "digit_val c = Some d" by simp
    moreover have "digit_val dquote = None" by code_simp
    ultimately have "c \<noteq> dquote" by auto
    with d show ?thesis by simp
  qed
  then show ?thesis using parse_float_show [OF n] by (auto simp: reads_back_def list_all_iff)
qed

theorem poll_agrees_witness:
  "sm_normalCount (poll_page (\<lambda>_. 0) sample_page (initial_standalone toy_lipgloss [] 0)) = 2"
proof -
  have "shows_requests show_nat [(''free'', ''NORMAL''), (''pro'', ''BURST'')] (prom (metrics_run (\<lambda>_. 0) sample_ops))
      (split_on (CHR 0x0A) sample_page)" by code_simp
  moreover have "length (prom (metrics_run (\<lambda>_. 0) sample_ops)) = 4" "normalCount (metrics_run (\<lambda>_. 0) sample_ops) = 2" by code_simp+
  ultimately show ?thesis
    using poll_agrees [OF refl, of show_nat "[(''free'', ''NORMAL''), (''pro'', ''BURST'')]" "\<lambda>_. 0" sample_ops sample_page
        "initial_standalone toy_lipgloss [] 0"] show_nat_reads_back by simp
qed

end
