(* ===== verification/Token_Bucket.thy ===== *)
theory Token_Bucket
  imports Rate_Limit Go_Float
begin

text \<open>
  \<^verbatim>\<open>internal/ratelimit/token_bucket.go\<close>: the second implementation of the \<open>Limiter\<close> interface,
  with float64 token counts (\<open>Go_Float\<close>).

  A check takes two locks one after the other, so it is two atomic steps: \<open>tb_lookup\<close> finds or
  creates the bucket under the limiter's lock, \<open>tb_consume\<close> refills it and takes a token under
  the bucket's lock. \<open>tb_Check\<close> is their sequence for one caller. Clock readings are arguments;
  \<open>tbc_oob\<close> is the value of an out-of-range conversion to int64, which Go leaves open. The product and the
  sum of the refill are rounded one after the other, as on amd64; Go lets a compiler fuse them on other architectures.

  Shown: the token count stays between zero and the capacity under any interleaving of the two
  steps with a forward clock; a fresh bucket serves exactly the soft limit, then the burst, then
  nothing; and the limiter meets the contract \<open>rate_limiter\<close>, as the in-memory limiter does.
\<close>

section \<open>Definitions\<close>

record TokenBucket =
  tokens :: float64
  capacity :: float64
  refillRate :: float64
  lastRefill :: gotime

record TokenBucketLimiter =
  buckets :: "(string, TokenBucket) gomap"
  tb_overages :: "(string, i64) gomap"
  tb_globalBurstFreeze :: bool

definition NewTokenBucketLimiter :: TokenBucketLimiter where
  "NewTokenBucketLimiter = \<lparr>buckets = [], tb_overages = [], tb_globalBurstFreeze = False\<rparr>"

definition tb_SetGlobalBurstFreeze :: "bool \<Rightarrow> TokenBucketLimiter \<Rightarrow> TokenBucketLimiter" where
  "tb_SetGlobalBurstFreeze b tbl = tbl\<lparr>tb_globalBurstFreeze := b\<rparr>"

definition tb_IsGlobalBurstFrozen :: "TokenBucketLimiter \<Rightarrow> bool" where
  "tb_IsGlobalBurstFrozen tbl = tb_globalBurstFreeze tbl"

record tb_call =
  tbc_apiKey :: string
  tbc_tier :: string
  tbc_softLimit :: i64
  tbc_hardLimit :: i64
  tbc_windowSec :: i64
  tbc_created :: gotime  \<comment> \<open>the clock when the bucket is created\<close>
  tbc_now :: gotime  \<comment> \<open>the clock when it is refilled\<close>
  tbc_oob :: "float64 \<Rightarrow> i64"

definition tb_lookup :: "TokenBucketLimiter \<Rightarrow> tb_call \<Rightarrow> TokenBucketLimiter" where
  "tb_lookup tbl c =
     (case map_of (buckets tbl) (tbc_apiKey c) of
        Some _ \<Rightarrow> tbl
      | None \<Rightarrow>
          tbl\<lparr>buckets := gm_set (tbc_apiKey c)
            \<lparr>tokens = f_of_int (tbc_hardLimit c), capacity = f_of_int (tbc_hardLimit c),
             refillRate = f_div (f_of_int (tbc_softLimit c)) (f_of_int (tbc_windowSec c)),
             lastRefill = tbc_created c\<rparr> (buckets tbl)\<rparr>)"

definition tb_refill :: "gotime \<Rightarrow> TokenBucket \<Rightarrow> TokenBucket" where
  "tb_refill now b =
     (let elapsed = duration_seconds (time_sub now (lastRefill b))
      in b\<lparr>lastRefill := now,
           tokens := f_min (capacity b) (f_add (tokens b) (f_mul elapsed (refillRate b)))\<rparr>)"

text \<open>The verdict on a refilled bucket, the bucket afterwards and whether an overage is counted.\<close>

definition tb_decide ::
  "tb_call \<Rightarrow> bool \<Rightarrow> TokenBucket \<Rightarrow> rate_limit_result \<times> TokenBucket \<times> bool" where
  "tb_decide c burstFrozen b =
     (let burstLimit = wrap64 (tbc_hardLimit c - tbc_softLimit c);
          burstCapacity = f_of_int burstLimit;
          burstCapacity = (if f_lt burstCapacity (Fin 0) then Fin 0 else burstCapacity);
          burstLimit = (if burstLimit < 0 then 0 else burstLimit)
      in if f_le (f_add burstCapacity (Fin 1)) (tokens b) then
           let b = b\<lparr>tokens := f_sub (tokens b) (Fin 1)\<rparr>;
               rem = f_to_int (tbc_oob c) (f_sub (tokens b) burstCapacity);
               rem = (if rem < 0 then 0 else rem)
           in (\<lparr>Status = ''NORMAL'', Count = wrap64 (tbc_softLimit c - rem), Limit = tbc_softLimit c,
                Remaining = rem, BurstLimit = burstLimit, BurstRemaining = burstLimit\<rparr>, b, False)
         else if f_le (Fin 1) (tokens b) \<and> \<not> burstFrozen then
           let b = b\<lparr>tokens := f_sub (tokens b) (Fin 1)\<rparr>;
               burstRem = f_to_int (tbc_oob c) (tokens b)
           in (\<lparr>Status = ''BURST'', Count = wrap64 (tbc_hardLimit c - burstRem), Limit = tbc_softLimit c,
                Remaining = 0, BurstLimit = burstLimit, BurstRemaining = burstRem\<rparr>, b, True)
         else
           (\<lparr>Status = ''BLOCKED'', Count = tbc_hardLimit c, Limit = tbc_softLimit c,
             Remaining = 0, BurstLimit = burstLimit, BurstRemaining = 0\<rparr>, b, False))"

text \<open>The bucket is there: \<open>tb_lookup\<close> of the same call ran before and buckets are never deleted.\<close>

definition no_bucket :: TokenBucket where
  "no_bucket = \<lparr>tokens = Fin 0, capacity = Fin 0, refillRate = Fin 0, lastRefill = 0\<rparr>"

definition tb_consume :: "TokenBucketLimiter \<Rightarrow> tb_call \<Rightarrow> rate_limit_result \<times> TokenBucketLimiter" where
  "tb_consume tbl c =
     (let b = tb_refill (tbc_now c) (gm_val no_bucket (buckets tbl) (tbc_apiKey c));
          (res, b, over) = tb_decide c (tb_globalBurstFreeze tbl) b;
          tbl = tbl\<lparr>buckets := gm_set (tbc_apiKey c) b (buckets tbl)\<rparr>
      in (res,
          if over then tbl\<lparr>tb_overages := gm_set (tbc_apiKey c)
              (wrap64 (gm_val 0 (tb_overages tbl) (tbc_apiKey c) + 1)) (tb_overages tbl)\<rparr>
          else tbl))"

definition tb_Check :: "TokenBucketLimiter \<Rightarrow> tb_call \<Rightarrow> rate_limit_result \<times> TokenBucketLimiter" where
  "tb_Check tbl c = tb_consume (tb_lookup tbl c) c"

definition tb_GetOverageUnits :: "TokenBucketLimiter \<Rightarrow> string \<Rightarrow> i64" where
  "tb_GetOverageUnits tbl k = gm_val 0 (tb_overages tbl) k"

definition tb_GetAllOverages :: "TokenBucketLimiter \<Rightarrow> (string, i64) gomap" where
  "tb_GetAllOverages tbl = gm_copy (tb_overages tbl) []"

subsection \<open>Interleavings\<close>

text \<open>
  Callers run the two steps of a check at any time; the clock of the state never goes back, and a
  call's readings are taken from it.
\<close>

record tb_sys =
  limiter :: TokenBucketLimiter
  clock :: gotime

definition tb_call_ok :: "tb_call \<Rightarrow> bool" where
  "tb_call_ok c \<longleftrightarrow>
     0 \<le> tbc_softLimit c \<and> 0 \<le> tbc_hardLimit c \<and> tbc_hardLimit c \<le> max_i64 \<and> 0 < tbc_windowSec c \<and>
     tbc_softLimit c \<le> max_i64 \<and> tbc_windowSec c \<le> max_i64"

inductive tb_step :: "tb_sys \<Rightarrow> tb_sys \<Rightarrow> bool" where
  tick: "clock s \<le> t \<Longrightarrow> tb_step s (s\<lparr>clock := t\<rparr>)"
| lookup: "tb_call_ok c \<Longrightarrow> tbc_created c = clock s \<Longrightarrow>
     tb_step s (s\<lparr>limiter := tb_lookup (limiter s) c\<rparr>)"
| consume: "tb_call_ok c \<Longrightarrow> tbc_now c = clock s \<Longrightarrow>
     map_of (buckets (limiter s)) (tbc_apiKey c) \<noteq> None \<Longrightarrow>
     tb_step s (s\<lparr>limiter := snd (tb_consume (limiter s) c)\<rparr>)"
| freeze: "tb_step s (s\<lparr>limiter := tb_SetGlobalBurstFreeze b (limiter s)\<rparr>)"

definition tb_init :: "tb_sys \<Rightarrow> bool" where
  "tb_init s \<longleftrightarrow> limiter s = NewTokenBucketLimiter"

definition bucket_ok :: "gotime \<Rightarrow> TokenBucket \<Rightarrow> bool" where
  "bucket_ok t b \<longleftrightarrow>
     f_ok (tokens b) \<and> f_ok (capacity b) \<and> f_le (Fin 0) (tokens b) \<and> f_le (tokens b) (capacity b) \<and>
     (\<exists>c. capacity b = Fin c) \<and> (\<exists>r \<ge> 0. refillRate b = Fin r) \<and> lastRefill b \<le> t"

definition tb_ok :: "tb_sys \<Rightarrow> bool" where
  "tb_ok s \<longleftrightarrow> (\<forall>k b. map_of (buckets (limiter s)) k = Some b \<longrightarrow> bucket_ok (clock s) b)"

section \<open>Token arithmetic\<close>

text \<open>A float that is neither NaN nor negative.\<close>

definition nn :: "float64 \<Rightarrow> bool" where
  "nn x \<longleftrightarrow> f_le (Fin 0) x"

lemma nn_iff: "nn x \<longleftrightarrow> x = PInf \<or> (\<exists>q \<ge> 0. x = Fin q)"
  by (cases x) (auto simp: nn_def)

lemma fl_nn: "0 \<le> x \<Longrightarrow> nn (fl x)"
  unfolding nn_def by (rule fl_ge_rat) (simp_all add: f_ok_def dbl.zero)

lemma fl_small:
  assumes "0 \<le> x" and "x \<le> 2 ^ 64"
  shows "\<exists>q \<ge> 0. fl x = Fin q \<and> q \<le> 2 ^ 64"
proof -
  have "round_rat (of_int 1 * two_pow 64) = of_int 1 * two_pow 64" by (rule round_rat_grid) simp_all
  then have r: "round_rat (2 ^ 64) = 2 ^ 64" by (simp add: two_pow_def)
  have "f_le (fl x) (Fin (2 ^ 64))" using assms(2) r by (intro fl_le_rat) (simp_all add: f_ok_def)
  moreover have "nn (fl x)" using assms(1) by (rule fl_nn)
  ultimately show ?thesis by (cases "fl x") (auto simp: nn_def)
qed

lemma f_of_int_range:
  assumes "0 \<le> n" and "n \<le> max_i64"
  shows "\<exists>q \<ge> 0. f_of_int n = Fin q \<and> q \<le> 2 ^ 64 \<and> (0 < n \<longrightarrow> 1 \<le> q)"
proof -
  have "(of_int n :: rat) \<le> of_int max_i64" using assms(2) by (simp only: of_int_le_iff)
  then have "(of_int n :: rat) \<le> 2 ^ 64" by simp
  then obtain q where q: "0 \<le> q" "f_of_int n = Fin q" "q \<le> 2 ^ 64"
    unfolding f_of_int_def using fl_small [of "of_int n"] assms(1) by auto
  have "1 \<le> q" if "0 < n"
  proof -
    have "f_le (Fin 1) (fl (of_int n))" using that by (intro fl_ge_rat) (simp_all add: f_ok_def dbl.one)
    then show ?thesis using q by (simp add: f_of_int_def)
  qed
  with q show ?thesis by auto
qed

lemma f_div_range:
  assumes "0 \<le> x" "x \<le> 2 ^ 64" "1 \<le> y"
  shows "\<exists>q \<ge> 0. f_div (Fin x) (Fin y) = Fin q \<and> q \<le> 2 ^ 64"
proof -
  have "x / y \<le> x" using assms mult_left_mono [of 1 y x] by (simp add: pos_divide_le_eq)
  then show ?thesis using assms fl_small [of "x / y"] by auto
qed

lemma duration_seconds_nonneg:
  assumes "0 \<le> d" and "d \<le> max_i64"
  shows "\<exists>q \<ge> 0. duration_seconds d = Fin q"
proof -
  let ?s = "d div 1000000000" and ?n = "d mod 1000000000"
  have s: "0 \<le> ?s" "?s \<le> 9223372036"
    using assms zdiv_mono1 [of d max_i64 1000000000] by simp_all
  have n: "0 \<le> ?n" "?n < 1000000000" by simp_all
  have "f_of_int ?s = Fin (of_int ?s)" "f_of_int ?n = Fin (of_int ?n)"
    using s n by (intro f_of_int_exact; simp add: abs_le_iff)+
  moreover obtain b where "0 \<le> b" "f_div (Fin (of_int ?n)) (Fin 1000000000) = Fin b" "b \<le> 2 ^ 64"
  proof -
    have "(of_int ?n :: rat) \<le> of_int 1000000000" using n by (simp only: of_int_le_iff)
    then show thesis using f_div_range [of "of_int ?n" 1000000000] n that by auto
  qed
  moreover have "\<exists>q \<ge> 0. fl (of_int ?s + b) = Fin q"
  proof -
    have "b \<le> 1"
    proof -
      have "(of_int ?n :: rat) \<le> of_int 1000000000" using n by (simp only: of_int_le_iff)
      then have "f_le (fl (of_int ?n / 1000000000)) (Fin 1)"
        by (intro fl_le_rat) (simp_all add: f_ok_def dbl.one)
      then show ?thesis using calculation(4) by simp
    qed
    moreover have "(of_int ?s :: rat) \<le> of_int 9223372036" using s by (simp only: of_int_le_iff)
    ultimately show ?thesis using fl_small [of "of_int ?s + b"] s(1) \<open>0 \<le> b\<close> by auto
  qed
  ultimately show ?thesis
    using assms by (simp add: duration_seconds_def Let_def minus_div_mult_eq_mod)
qed

section \<open>The bucket invariant\<close>

lemma f_min_Fin: "nn x \<Longrightarrow> 0 \<le> c \<Longrightarrow> \<exists>q. f_min (Fin c) x = Fin q \<and> 0 \<le> q \<and> q \<le> c \<and> (Fin q = x \<or> q = c)"
  by (auto simp: nn_iff f_min_def f_lt_def)

lemma nn_add: "0 \<le> x \<Longrightarrow> nn y \<Longrightarrow> nn (f_add (Fin x) y) \<and> f_ok (f_add (Fin x) y)"
  by (auto simp: nn_iff [of y] fl_nn fl_ok) (simp_all add: nn_def f_ok_def)

lemma refill_ok:
  assumes "bucket_ok t b" and "t \<le> now"
  shows "bucket_ok now (tb_refill now b)"
proof -
  obtain c r q where c: "capacity b = Fin c" and r: "0 \<le> r" "refillRate b = Fin r"
    and q: "tokens b = Fin q" "0 \<le> q" "q \<le> c"
    using assms(1) by (cases "tokens b") (auto simp: bucket_ok_def)
  have "0 \<le> time_sub now (lastRefill b)" "time_sub now (lastRefill b) \<le> max_i64"
    using assms by (auto simp: time_sub_def sat64_def bucket_ok_def)
  then obtain e where e: "0 \<le> e" "duration_seconds (time_sub now (lastRefill b)) = Fin e"
    using duration_seconds_nonneg by blast
  let ?x = "f_add (Fin q) (f_mul (Fin e) (Fin r))"
  have x: "nn ?x" "f_ok ?x" using nn_add [of q "f_mul (Fin e) (Fin r)"] q(2) e(1) r(1) by (simp_all add: fl_nn)
  obtain z where z: "f_min (Fin c) ?x = Fin z" "0 \<le> z" "z \<le> c" "Fin z = ?x \<or> z = c"
    using f_min_Fin [OF x(1), of c] q by auto
  then have "f_ok (Fin z)" using assms(1) x(2) c by (auto simp: bucket_ok_def)
  with z show ?thesis
    using assms c r q e by (auto simp: tb_refill_def bucket_ok_def Let_def)
qed

text \<open>Only a bucket with at least one token is charged.\<close>

lemma burst_capacity_nn: "f_le (f_add (if f_lt (f_of_int n) (Fin 0) then Fin 0 else f_of_int n) (Fin 1)) (Fin q) \<Longrightarrow> 1 \<le> q"
proof -
  let ?b = "if f_lt (f_of_int n) (Fin 0) then Fin 0 else f_of_int n"
  assume le: "f_le (f_add ?b (Fin 1)) (Fin q)"
  consider (fin) z where "?b = Fin z" "0 \<le> z" | (inf) "?b = PInf" | (nan) "?b = NaN"
  proof (cases "f_of_int n")
    case (Fin x)
    then have "?b = Fin (max x 0)" by (auto simp: f_lt_def)
    then show thesis using fin by simp
  qed (use inf nan fin in \<open>auto simp: f_lt_def\<close>)
  then show ?thesis
  proof cases
    case fin
    have "f_le (Fin 1) (fl (z + 1))" using fin(2) by (intro fl_ge_rat) (simp_all add: f_ok_def dbl.one)
    with fin le show ?thesis by (cases "fl (z + 1)") (simp_all split: if_splits)
  qed (use le in \<open>simp_all split: if_splits\<close>)
qed

lemma decide_ok:
  assumes "bucket_ok t b"
  shows "bucket_ok t (fst (snd (tb_decide c fz b)))"
proof -
  obtain q k where q: "tokens b = Fin q" "0 \<le> q" "q \<le> k" "capacity b = Fin k" "round_rat q = q" "f_ok (Fin k)"
    using assms by (cases "tokens b") (auto simp: bucket_ok_def f_ok_def)
  have take: "bucket_ok t (b\<lparr>tokens := f_sub (tokens b) (Fin 1)\<rparr>)" if "1 \<le> q"
  proof -
    have "0 \<le> round_rat (q - 1) \<and> round_rat (q - 1) \<le> q" using q that dbl.take_one by blast
    moreover have "q < 2 ^ 1024" using assms q by (simp add: bucket_ok_def f_ok_def)
    ultimately have "f_sub (tokens b) (Fin 1) = Fin (round_rat (q - 1))" and "f_ok (Fin (round_rat (q - 1)))"
      and "round_rat (q - 1) \<le> k"
      using q by (auto simp: f_sub_def fl_def Let_def f_ok_def dbl.idem)
    then show ?thesis
      using assms q \<open>0 \<le> round_rat (q - 1) \<and> round_rat (q - 1) \<le> q\<close> by (simp add: bucket_ok_def)
  qed
  show ?thesis
    using assms take burst_capacity_nn [of "wrap64 (tbc_hardLimit c - tbc_softLimit c)" q]
    by (simp add: tb_decide_def Let_def q(1))
qed

lemma consume_buckets:
  "map_of (buckets (snd (tb_consume tbl c))) k =
     (if k = tbc_apiKey c
      then Some (fst (snd (tb_decide c (tb_globalBurstFreeze tbl)
             (tb_refill (tbc_now c) (gm_val no_bucket (buckets tbl) (tbc_apiKey c))))))
      else map_of (buckets tbl) k)"
  by (simp add: tb_consume_def Let_def split: prod.split)

lemma created_ok:
  assumes "tb_call_ok c" and "tbc_created c \<le> t"
  shows "bucket_ok t \<lparr>tokens = f_of_int (tbc_hardLimit c), capacity = f_of_int (tbc_hardLimit c),
             refillRate = f_div (f_of_int (tbc_softLimit c)) (f_of_int (tbc_windowSec c)),
             lastRefill = tbc_created c\<rparr>"
proof -
  obtain h s w where "0 \<le> h" "f_of_int (tbc_hardLimit c) = Fin h" "0 \<le> s" "f_of_int (tbc_softLimit c) = Fin s"
    "s \<le> 2 ^ 64" "f_of_int (tbc_windowSec c) = Fin w" "1 \<le> w"
    using assms(1) f_of_int_range [of "tbc_hardLimit c"] f_of_int_range [of "tbc_softLimit c"]
      f_of_int_range [of "tbc_windowSec c"]
    by (auto simp: tb_call_ok_def)
  moreover from this obtain r where "0 \<le> r" "f_div (Fin s) (Fin w) = Fin r"
    using f_div_range [of s w] by auto
  moreover have "f_ok (f_of_int (tbc_hardLimit c))" by (simp add: f_of_int_def fl_ok)
  ultimately show ?thesis using assms(2) by (simp add: bucket_ok_def del: f_div.simps)
qed

interpretation tb_inv: inv_system tb_init tb_step tb_ok
proof unfold_locales
  show "tb_ok s" if "tb_init s" for s
    using that by (simp add: tb_init_def tb_ok_def NewTokenBucketLimiter_def)
  show "tb_ok t" if "tb_step s t" "tb_ok s" for s t
    using that(1)
  proof (cases rule: tb_step.cases)
    case (tick u)
    with that(2) show ?thesis by (fastforce simp: tb_ok_def bucket_ok_def)
  next
    case (lookup c)
    with that(2) created_ok [of c "clock s"] show ?thesis
      by (auto simp: tb_ok_def tb_lookup_def split: option.split)
  next
    case (consume c)
    then obtain b where b: "map_of (buckets (limiter s)) (tbc_apiKey c) = Some b" by auto
    then have "bucket_ok (clock s) b" using that(2) by (simp add: tb_ok_def)
    then have "bucket_ok (clock s) (tb_refill (tbc_now c) b)" using consume refill_ok by simp
    then show ?thesis
      using consume that(2) b by (auto simp: tb_ok_def consume_buckets gm_val_def decide_ok split: if_splits)
  next
    case (freeze b)
    with that(2) show ?thesis by (simp add: tb_ok_def tb_SetGlobalBurstFreeze_def)
  qed
qed

section \<open>Checks at one instant\<close>

definition tb_status :: "int \<Rightarrow> int \<Rightarrow> string" where
  "tb_status burst j = (if burst < j then ''NORMAL'' else if 0 < j then ''BURST'' else ''BLOCKED'')"

lemma fl_int: "\<bar>n\<bar> \<le> 2 ^ 53 \<Longrightarrow> fl (of_int n) = Fin (of_int n)"
  using f_of_int_exact by (simp only: f_of_int_def)

lemma duration_seconds_0 [simp]: "duration_seconds 0 = Fin 0"
  using fl_int [of 0] f_of_int_exact [of 0] by (simp add: duration_seconds_def)

text \<open>A check in which no time has passed since the last refill, on a whole number of tokens.\<close>

lemma tb_consume_instant:
  assumes lim: "0 \<le> tbc_softLimit c" "tbc_softLimit c \<le> tbc_hardLimit c" "tbc_hardLimit c < 2 ^ 53"
    and b: "map_of (buckets tbl) (tbc_apiKey c) = Some b" and r: "refillRate b = Fin r"
    and now: "lastRefill b = tbc_now c" and tok: "tokens b = Fin (of_int j)" "0 \<le> j" "j \<le> tbc_hardLimit c"
    and cap: "capacity b = Fin (of_int (tbc_hardLimit c))" and fz: "\<not> tb_globalBurstFreeze tbl"
  shows "Status (fst (tb_consume tbl c)) = tb_status (tbc_hardLimit c - tbc_softLimit c) j"
    and "map_of (buckets (snd (tb_consume tbl c))) (tbc_apiKey c) = Some (b\<lparr>tokens := Fin (of_int (max 0 (j - 1)))\<rparr>)"
    and "\<not> tb_globalBurstFreeze (snd (tb_consume tbl c))"
proof -
  let ?burst = "tbc_hardLimit c - tbc_softLimit c"
  have w: "wrap64 ?burst = ?burst" using lim by (intro wrap64_id) (simp add: in_i64_def)
  have "f_min (Fin (of_int (tbc_hardLimit c))) (Fin (of_int j)) = Fin (of_int j)"
    using tok by (auto simp: f_min_def f_lt_def)
  moreover have "fl (of_int j) = Fin (of_int j)" and "fl 0 = Fin 0"
    using tok lim fl_int [of j] fl_int [of 0] by simp_all
  ultimately have ref: "tb_refill (tbc_now c) b = b"
    using tok r now cap by (simp add: tb_refill_def time_sub_def sat64_def)
  have bc: "f_of_int ?burst = Fin (of_int ?burst)" using lim by (intro f_of_int_exact) simp
  have "\<not> f_lt (Fin (of_int ?burst)) (Fin 0)"
    using lim of_int_0_le_iff [of ?burst, where 'a = rat] by (simp only: f_lt_def f_le.simps) linarith
  moreover have "f_add (Fin (of_int ?burst)) (Fin 1) = Fin (of_int (?burst + 1))"
    using fl_int [of "?burst + 1"] lim by simp
  moreover have "f_le (Fin (of_int (?burst + 1))) (Fin (of_int j)) \<longleftrightarrow> ?burst < j"
    by (simp only: f_le.simps of_int_le_iff) linarith
  moreover have "f_le (Fin 1) (Fin (of_int j)) \<longleftrightarrow> 0 < j" 
    using of_int_le_iff [of 1 j, where 'a = rat] by (simp only: f_le.simps of_int_1) linarith
  moreover have "f_sub (Fin (of_int j)) (Fin 1) = Fin (of_int (j - 1))" if "0 < j"
    using fl_int [of "j - 1"] lim tok that by (simp add: f_sub_def)
  ultimately have dec: "Status (fst (tb_decide c False b)) = tb_status ?burst j"
    "fst (snd (tb_decide c False b)) = b\<lparr>tokens := Fin (of_int (max 0 (j - 1)))\<rparr>"
    using tok lim by (auto simp: tb_decide_def Let_def w bc tb_status_def max_def simp del: f_add.simps f_le.simps)
  show "Status (fst (tb_consume tbl c)) = tb_status ?burst j"
    using dec(1) by (auto simp: tb_consume_def Let_def gm_val_def b ref fz split: prod.split)
  show "map_of (buckets (snd (tb_consume tbl c))) (tbc_apiKey c) = Some (b\<lparr>tokens := Fin (of_int (max 0 (j - 1)))\<rparr>)"
    using dec(2) by (simp add: consume_buckets gm_val_def b ref fz)
  show "\<not> tb_globalBurstFreeze (snd (tb_consume tbl c))"
    using fz by (simp add: tb_consume_def Let_def split: prod.split)
qed

lemma tb_run_instant:
  assumes "0 \<le> tbc_softLimit c" "tbc_softLimit c \<le> tbc_hardLimit c" "tbc_hardLimit c < 2 ^ 53"
    and "map_of (buckets tbl) (tbc_apiKey c) = Some b" "refillRate b = Fin r" "lastRefill b = tbc_now c"
    and "tokens b = Fin (of_int j)" "0 \<le> j" "j \<le> tbc_hardLimit c"
    and "capacity b = Fin (of_int (tbc_hardLimit c))" "\<not> tb_globalBurstFreeze tbl"
    and "i < n"
  shows "Status (fst (run_ops tb_Check tbl (replicate n c)) ! i) =
           tb_status (tbc_hardLimit c - tbc_softLimit c) (j - int i)"
  using assms(4-)
proof (induction n arbitrary: tbl b j i)
  case 0
  then show ?case by simp
next
  case (Suc n)
  have look: "tb_Check tbl c = tb_consume tbl c"
    using Suc.prems(1) by (simp add: tb_Check_def tb_lookup_def)
  note step = tb_consume_instant [OF assms(1-3) Suc.prems(1-8)]
  show ?case
  proof (cases i)
    case 0
    then show ?thesis using step(1) by (simp add: run_ops_Cons look del: run_ops.simps(2))
  next
    case (Suc i')
    have "Status (fst (run_ops tb_Check (snd (tb_consume tbl c)) (replicate n c)) ! i') =
        tb_status (tbc_hardLimit c - tbc_softLimit c) (max 0 (j - 1) - int i')"
      using Suc.IH [OF step(2)] Suc.prems step(3) Suc by simp
    also have "\<dots> = tb_status (tbc_hardLimit c - tbc_softLimit c) (j - int i)"
      using Suc assms(2) by (auto simp: tb_status_def)
    finally show ?thesis using Suc by (simp add: run_ops_Cons look del: run_ops.simps(2))
  qed
qed

section \<open>The token bucket implements the Limiter interface\<close>

lemma tb_Check_frozen: "tb_globalBurstFreeze (snd (tb_Check tbl c)) = tb_globalBurstFreeze tbl"
  by (simp add: tb_Check_def tb_consume_def tb_lookup_def Let_def split: prod.split option.split)

lemma tb_lookup_same: "tb_overages (tb_lookup tbl c) = tb_overages tbl"
  "tb_globalBurstFreeze (tb_lookup tbl c) = tb_globalBurstFreeze tbl"
  by (simp_all add: tb_lookup_def split: option.split)

lemma tb_decide_over:
  "snd (snd (tb_decide c fz b)) \<longleftrightarrow> Status (fst (tb_decide c fz b)) = ''BURST''"
  "fz \<Longrightarrow> Status (fst (tb_decide c fz b)) \<noteq> ''BURST''"
  "Status (fst (tb_decide c fz b)) \<in> {''NORMAL'', ''BURST'', ''BLOCKED''}"
  by (simp_all add: tb_decide_def Let_def)

lemma tb_Check_unfold:
  "Status (fst (tb_Check tbl c)) =
     Status (fst (tb_decide c (tb_globalBurstFreeze tbl)
       (tb_refill (tbc_now c) (gm_val no_bucket (buckets (tb_lookup tbl c)) (tbc_apiKey c)))))"
  "tb_GetOverageUnits (snd (tb_Check tbl c)) k =
     (if tbc_apiKey c = k \<and> Status (fst (tb_Check tbl c)) = ''BURST''
      then wrap64 (tb_GetOverageUnits tbl k + 1) else tb_GetOverageUnits tbl k)"
proof -
  let ?d = "tb_decide c (tb_globalBurstFreeze tbl)
       (tb_refill (tbc_now c) (gm_val no_bucket (buckets (tb_lookup tbl c)) (tbc_apiKey c)))"
  show st: "Status (fst (tb_Check tbl c)) = Status (fst ?d)"
    by (simp add: tb_Check_def tb_consume_def tb_lookup_same Let_def split: prod.split)
  have "tb_GetOverageUnits (snd (tb_Check tbl c)) k =
     (if tbc_apiKey c = k \<and> snd (snd ?d) then wrap64 (tb_GetOverageUnits tbl k + 1) else tb_GetOverageUnits tbl k)"
    by (auto simp: tb_Check_def tb_consume_def tb_lookup_same tb_GetOverageUnits_def Let_def split: prod.split)
  then show "tb_GetOverageUnits (snd (tb_Check tbl c)) k =
     (if tbc_apiKey c = k \<and> Status (fst (tb_Check tbl c)) = ''BURST''
      then wrap64 (tb_GetOverageUnits tbl k + 1) else tb_GetOverageUnits tbl k)"
    by (simp only: st tb_decide_over(1))
qed

interpretation tb: rate_limiter tb_Check tbc_apiKey tb_SetGlobalBurstFreeze
  tb_IsGlobalBurstFrozen tb_GetOverageUnits
proof unfold_locales
  show "tb_IsGlobalBurstFrozen (tb_SetGlobalBurstFreeze b s) = b" for b s
    by (simp add: tb_IsGlobalBurstFrozen_def tb_SetGlobalBurstFreeze_def)
  show "tb_GetOverageUnits (tb_SetGlobalBurstFreeze b s) k = tb_GetOverageUnits s k" for b s k
    by (simp add: tb_GetOverageUnits_def tb_SetGlobalBurstFreeze_def)
  show "tb_IsGlobalBurstFrozen (snd (tb_Check s c)) = tb_IsGlobalBurstFrozen s" for s c
    by (simp add: tb_IsGlobalBurstFrozen_def tb_Check_frozen)
  show "Status (fst (tb_Check s c)) \<in> {''NORMAL'', ''BURST'', ''BLOCKED''}" for s c
    unfolding tb_Check_unfold(1) by (rule tb_decide_over(3))
  show "tb_IsGlobalBurstFrozen s \<Longrightarrow> Status (fst (tb_Check s c)) \<noteq> ''BURST''" for s c
    unfolding tb_Check_unfold(1) by (rule tb_decide_over(2)) (simp add: tb_IsGlobalBurstFrozen_def)
  show "tb_GetOverageUnits (snd (tb_Check s c)) k =
      (if tbc_apiKey c = k \<and> Status (fst (tb_Check s c)) = ''BURST''
       then wrap64 (tb_GetOverageUnits s k + 1) else tb_GetOverageUnits s k)" for s c k
    by (rule tb_Check_unfold(2))
qed

section \<open>Properties\<close>

text \<open>
  C18. Token bounds. However the lookups, refills and freezes of concurrent checks interleave with
  a forward clock, the float64 token count of every bucket is a number between zero and the
  bucket's capacity: rounding never makes it negative, NaN or larger than the capacity.
\<close>

theorem tb_tokens_bounded:
  assumes "reachable tb_init tb_step s" and "map_of (buckets (limiter s)) k = Some b"
  shows "\<exists>q c. tokens b = Fin q \<and> capacity b = Fin c \<and> 0 \<le> q \<and> q \<le> c"
proof -
  have "bucket_ok (clock s) b" using tb_inv.reachable_inv [OF assms(1)] assms(2) by (simp add: tb_ok_def)
  then show ?thesis by (cases "tokens b") (auto simp: bucket_ok_def)
qed

definition sample_tb_call :: "gotime \<Rightarrow> tb_call" where
  "sample_tb_call t = \<lparr>tbc_apiKey = ''k'', tbc_tier = ''free'', tbc_softLimit = 1, tbc_hardLimit = 2,
     tbc_windowSec = 60, tbc_created = t, tbc_now = t, tbc_oob = (\<lambda>_. 0)\<rparr>"

theorem tb_tokens_bounded_witness:
  "\<exists>b q c. map_of (buckets (tb_lookup NewTokenBucketLimiter (sample_tb_call 5))) ''k'' = Some b \<and>
     tokens b = Fin q \<and> capacity b = Fin c \<and> 0 \<le> q \<and> q \<le> c"
proof -
  let ?init = "\<lparr>limiter = NewTokenBucketLimiter, clock = 5\<rparr>"
  let ?s = "?init\<lparr>limiter := tb_lookup (limiter ?init) (sample_tb_call 5)\<rparr>"
  have "reachable tb_init tb_step ?init" by (rule reachable.start) (simp add: tb_init_def)
  moreover have "tb_step ?init ?s"
    by (rule tb_step.lookup [where s = ?init and c = "sample_tb_call 5"])
      (simp_all add: sample_tb_call_def tb_call_ok_def)
  ultimately have "reachable tb_init tb_step ?s" by (rule reachable.move)
  moreover obtain b where "map_of (buckets (limiter ?s)) ''k'' = Some b"
    by (simp add: tb_lookup_def NewTokenBucketLimiter_def sample_tb_call_def)
  ultimately show ?thesis using tb_tokens_bounded [of ?s] by fastforce
qed

text \<open>
  What a fresh bucket serves. With \<open>0 \<le> soft \<le> hard < 2^53\<close>, checks of a new key made at one
  instant are \<open>NORMAL\<close> for the first \<open>soft\<close> of them, then \<open>BURST\<close> up to \<open>hard\<close>, and every
  further one is \<open>BLOCKED\<close>, exactly.
\<close>

theorem tb_fresh_serves:
  assumes "tb_call_ok c" and "tbc_softLimit c \<le> tbc_hardLimit c" and "tbc_hardLimit c < 2 ^ 53"
    and "tbc_now c = tbc_created c" and "i < n"
  shows "Status (fst (run_ops tb_Check NewTokenBucketLimiter (replicate n c)) ! i) =
     (if int i < tbc_softLimit c then ''NORMAL''
      else if int i < tbc_hardLimit c then ''BURST'' else ''BLOCKED'')"
proof -
  let ?tbl = "tb_lookup NewTokenBucketLimiter c"
  define b where "b = \<lparr>tokens = f_of_int (tbc_hardLimit c), capacity = f_of_int (tbc_hardLimit c),
     refillRate = f_div (f_of_int (tbc_softLimit c)) (f_of_int (tbc_windowSec c)), lastRefill = tbc_created c\<rparr>"
  have b: "map_of (buckets ?tbl) (tbc_apiKey c) = Some b"
    by (simp add: tb_lookup_def NewTokenBucketLimiter_def b_def)
  have h: "f_of_int (tbc_hardLimit c) = Fin (of_int (tbc_hardLimit c))"
    using assms(1,3) by (intro f_of_int_exact) (simp add: tb_call_ok_def)
  obtain r where r: "refillRate b = Fin r"
    using created_ok [OF assms(1) order_refl] by (auto simp: bucket_ok_def b_def)
  have same: "run_ops tb_Check NewTokenBucketLimiter (replicate n c) = run_ops tb_Check ?tbl (replicate n c)"
  proof (cases n)
    case (Suc m)
    have "tb_Check NewTokenBucketLimiter c = tb_Check ?tbl c"
      using b by (simp add: tb_Check_def tb_lookup_def)
    then show ?thesis using Suc by simp
  qed (use assms(5) in simp)
  have "Status (fst (run_ops tb_Check ?tbl (replicate n c)) ! i) =
      tb_status (tbc_hardLimit c - tbc_softLimit c) (tbc_hardLimit c - int i)"
  proof (rule tb_run_instant [OF _ assms(2,3) b r])
    show "tokens b = Fin (of_int (tbc_hardLimit c))" "capacity b = Fin (of_int (tbc_hardLimit c))"
      "lastRefill b = tbc_now c"
      using assms(4) by (simp_all add: b_def h)
    show "\<not> tb_globalBurstFreeze ?tbl" by (simp add: tb_lookup_same NewTokenBucketLimiter_def)
  qed (use assms in \<open>simp_all add: tb_call_ok_def\<close>)
  then show ?thesis by (simp add: same tb_status_def)
qed

theorem tb_fresh_serves_witness:
  "map (\<lambda>i. Status (fst (run_ops tb_Check NewTokenBucketLimiter (replicate 4 (sample_tb_call 5))) ! i)) [0, 1, 3] =
     [''NORMAL'', ''BURST'', ''BLOCKED'']"
  using tb_fresh_serves [of "sample_tb_call 5" 0 4] tb_fresh_serves [of "sample_tb_call 5" 1 4]
    tb_fresh_serves [of "sample_tb_call 5" 3 4]
  by (simp add: sample_tb_call_def tb_call_ok_def del: run_ops.simps)

end
