(* ===== verification/Gateway_Steps.thy ===== *)
theory Gateway_Steps
  imports Gateway_Samples "HOL-Library.Multiset"
begin

text \<open>
  Client requests of \<^verbatim>\<open>internal/proxy/proxy.go\<close> that are handled at the same time.

  The handler of a client request is cut into steps, and any number of requests interleave theirs with new arrivals and
  admin requests. \<open>GetAPIKey\<close> is cut into its two reads of Redis, the lookup under the read lock, the query of the database, and the store
  under the lock; \<open>AllowRequest\<close> into the atomic load of the cutoff flag and the section under the mutex. The limiter's check is one
  section under its mutex. Further cuts are after billing and delay, when the reverse proxy returns, and after the breaker has recorded
  the outcome. The lookup takes the flags of the record it finds together with the record. The source reads them just after the read lock, through
  a shared pointer, so it may still refuse a request that counts as authenticated here. Billing, the metrics and an admin request run undivided.
  A request in flight is its surroundings, the request, the response so far and its phase;
  \<open>request_step\<close> takes it to its next phase. \<open>c_clock\<close> and \<open>c_sent\<close> record the time of the last check,
  and key and time of check of each forwarded request.

  Shown: under every interleaving the limits hold for what is forwarded; a cutoff stops every request that has not yet read the
  cutoff flag, and a freeze every request of the key that has not read its record yet, if none is between its miss in the shadow map and its
  store there; and a request that is there undoes the freeze. The steps of a request that runs alone are the handler of \<open>Proxy\<close>.
\<close>

section \<open>Definitions\<close>

datatype phase =
    Arrived
  | Flag1  \<comment> \<open>in \<open>GetAPIKey\<close>, before the flag of the raw key\<close>
  | Flag2  \<comment> \<open>before the flag of its hash\<close>
  | Lookup
  | Missed  \<comment> \<open>the shadow map has no record\<close>
  | Fetched APIKeyRecord  \<comment> \<open>read from the database and not yet stored\<close>
  | Found APIKeyRecord
  | Cleared string TierConfig  \<comment> \<open>tier's name and settings\<close>
  | Checked string TierConfig rate_limit_result
  | Passed
  | Loaded  \<comment> \<open>the cutoff flag was off\<close>
  | Decided bool CircuitState
  | Allowed
  | Answered ResponseRecorder
  | Recorded ResponseRecorder bool  \<comment> \<open>whether it counts as a failure\<close>
  | Finished bool  \<comment> \<open>whether it panicked\<close>

record flight =
  fl_env :: req_env
  fl_req :: http_request
  fl_writer :: resp_writer
  fl_phase :: phase

definition fl_key :: "flight \<Rightarrow> string" where
  "fl_key f = hdr_get (r_Header (fl_req f)) ''X-API-Key''"

definition fl_call :: "flight \<Rightarrow> string \<Rightarrow> TierConfig \<Rightarrow> redis_call" where
  "fl_call f tierName t = limit_call (fl_env f) (fl_key f) tierName t"

definition fl_time :: "flight \<Rightarrow> i64" where
  "fl_time f = time_unix (clk (fl_env f) AtFallback)"

definition finish :: "flight \<Rightarrow> bool \<Rightarrow> resp_writer \<Rightarrow> flight" where
  "finish f panicked w = f\<lparr>fl_writer := w, fl_phase := Finished panicked\<rparr>"

text \<open>The rest of the handler ran to its end: panic flag, response, gateway.\<close>

definition handled_as :: "flight \<Rightarrow> ('l, 'd, 'k, 'r, 's) handled \<Rightarrow> flight \<times> ('l, 'd, 'k, 'r, 's) gateway" where
  "handled_as f out = (case out of (p, w, g) \<Rightarrow> (finish f p w, g))"

definition verify_step :: "flight \<Rightarrow> string \<Rightarrow> TierConfig \<Rightarrow> ('l, 'd, 'k, 'r, 's) gateway \<Rightarrow> flight \<times> ('l, 'd, 'k, 'r, 's) gateway" where
  "verify_step f tierName t g =
     (let e = fl_env f; w = fl_writer f;
          sigHeader = hdr_get (r_Header (fl_req f)) ''X-Aegis-Signature''
      in if sigHeader = [] then (f\<lparr>fl_phase := Cleared tierName t\<rparr>, g)
         else
           (case r_Body (fl_req f) of
              None \<Rightarrow> (finish f False (respondJSON 400 (error_json ''failed to read body'') w), g)
            | Some bodyBytes \<Rightarrow>
                (let (valid, sigErr) = VerifySignature (lib e) (time_unix (clk e AtVerify)) bodyBytes sigHeader (fl_key f)
                       (ReplayWindowSeconds t) (time_unix (clk e AtReplay))
                 in if \<not> valid \<or> sigErr \<noteq> None then
                      (let g = g\<lparr>gw_metrics := RecordReplayBlocked tierName (gw_metrics g)\<rparr>
                       in case sigErr of
                            None \<Rightarrow> (finish f True w, g)
                          | Some err \<Rightarrow>
                              (finish f False (respondJSON 401
                                 (JObj [(''details'', JStr (sig_error_text err)),
                                        (''error'', JStr ''anti-replay defense rejected signature'')]) w), g))
                    else (f\<lparr>fl_phase := Cleared tierName t\<rparr>, g))))"

definition found_step :: "flight \<Rightarrow> APIKeyRecord \<Rightarrow> ('l, 'd, 'k, 'r, 's) gateway \<Rightarrow> flight \<times> ('l, 'd, 'k, 'r, 's) gateway" where
  "found_step f keyRec g =
     (let e = fl_env f;
          tierName = to_lower (unicode_lower (lib e)) (Tier keyRec);
          t = (case GetTier (unicode_lower (lib e)) (cfgManager g) tierName of None \<Rightarrow> default_tier | Some t \<Rightarrow> t)
      in verify_step f tierName t g)"

text \<open>What \<open>GetAPIKey\<close> returned.\<close>

definition resolve :: "flight \<Rightarrow> key_error + APIKeyRecord \<Rightarrow> flight" where
  "resolve f found =
     (case found of
        Inl ErrKeyFrozen \<Rightarrow> finish f False (respondJSON 403 frozen_json (fl_writer f))
      | Inl _ \<Rightarrow> finish f False (respondJSON 401 (error_json ''invalid or revoked API key'') (fl_writer f))
      | Inr keyRec \<Rightarrow> f\<lparr>fl_phase := Found keyRec\<rparr>)"

definition store_step :: "flight \<Rightarrow> APIKeyRecord \<Rightarrow> ('l, 'd, 'k, 'r, 's) gateway \<Rightarrow> flight \<times> ('l, 'd, 'k, 'r, 's) gateway" where
  "store_step f dbRec g =
     (let s = gw_repo g; r = repo s; keyHash = HashKey (lib (fl_env f)) (fl_key f)
      in (resolve f (key_verdict dbRec), g\<lparr>gw_repo := s\<lparr>repo := r\<lparr>memKeys := gm_set keyHash dbRec (memKeys r)\<rparr>\<rparr>\<rparr>))"

definition query_step :: "flight \<Rightarrow> ('l, 'd, 'k, 'r, 's) gateway \<Rightarrow> flight \<times> ('l, 'd, 'k, 'r, 's) gateway" where
  "query_step f g =
     (let s = gw_repo g; keyHash = HashKey (lib (fl_env f)) (fl_key f)
      in case Option.bind (pool (repo s)) (\<lambda>P. q_api_key P keyHash (db s)) of
           None \<Rightarrow> (resolve f (Inl ErrKeyNotFound), g)
         | Some dbRec \<Rightarrow> (f\<lparr>fl_phase := Fetched dbRec\<rparr>, g))"

definition lookup_step :: "flight \<Rightarrow> ('l, 'd, 'k, 'r, 's) gateway \<Rightarrow> flight \<times> ('l, 'd, 'k, 'r, 's) gateway" where
  "lookup_step f g =
     (case map_of (memKeys (repo (gw_repo g))) (HashKey (lib (fl_env f)) (fl_key f)) of
        Some k \<Rightarrow> (resolve f (key_verdict k), g)
      | None \<Rightarrow> (f\<lparr>fl_phase := Missed\<rparr>, g))"

text \<open>A read of a freeze flag in Redis by the repository; \<open>next\<close> is the phase if it is not set.\<close>

definition flag_step :: "flight \<Rightarrow> string \<Rightarrow> phase \<Rightarrow> ('l, 'd, 'k, 'r, 's) gateway \<Rightarrow> flight \<times> ('l, 'd, 'k, 'r, 's) gateway" where
  "flag_step f name next g =
     (case redisClient (repo (gw_repo g)) of
        None \<Rightarrow> (f\<lparr>fl_phase := Lookup\<rparr>, g)
      | Some rc \<Rightarrow>
          if IsKeyFrozen rc name (kv (gw_repo g)) then (resolve f (Inl ErrKeyFrozen), g)
          else (f\<lparr>fl_phase := next\<rparr>, g))"

definition arrive_step :: "flight \<Rightarrow> ('l, 'd, 'k, 'r, 's) gateway \<Rightarrow> flight \<times> ('l, 'd, 'k, 'r, 's) gateway" where
  "arrive_step f g =
     (let w = fl_writer f; apiKey = fl_key f
      in if apiKey = [] then (finish f False (respondJSON 401 (error_json ''missing X-API-Key header'') w), g)
         else if (case gw_redis g of None \<Rightarrow> False | Some rc \<Rightarrow> IsKeyFrozen rc apiKey (kv (gw_repo g)))
         then (finish f False (respondJSON 403 frozen_json w), g)
         else (f\<lparr>fl_phase := Flag1\<rparr>, g))"

definition check_step :: "flight \<Rightarrow> string \<Rightarrow> TierConfig \<Rightarrow> ('l, 'd, 'k, 'r, 's) gateway \<Rightarrow> flight \<times> ('l, 'd, 'k, 'r, 's) gateway" where
  "check_step f tierName t g =
     (let (res, lim) = redis_Check (gw_limiter g) (fl_call f tierName t)
      in (f\<lparr>fl_writer := (fl_writer f)\<lparr>w_Header := ApplyHeaders res (w_Header (fl_writer f))\<rparr>, fl_phase := Checked tierName t res\<rparr>,
          g\<lparr>gw_limiter := lim\<rparr>))"

definition bill_step ::
  "flight \<Rightarrow> string \<Rightarrow> TierConfig \<Rightarrow> rate_limit_result \<Rightarrow> ('l, 'd, 'k, 'r, 's) gateway \<Rightarrow> flight \<times> ('l, 'd, 'k, 'r, 's) gateway" where
  "bill_step f tierName t res g =
     (let g = g\<lparr>gw_metrics := RecordRequest tierName (Status res) (gw_metrics g)\<rparr>
      in if Status res = ''BLOCKED'' \<or> Status res = ''BURST_FROZEN'' then
           (finish f False (respondJSON 429 (blocked_json res t) (fl_writer f)), g)
         else
           (let g = (if Status res = ''BURST'' then bill_burst (fl_env f) (fl_key f) tierName g else g)
            in if IsJitterActive g then
                 (case jitter_delay (fl_env f) (Jitter (Upstream (cm_Get (cfgManager g)))) of
                    None \<Rightarrow> (finish f True (fl_writer f), g)
                  | Some _ \<Rightarrow> (f\<lparr>fl_phase := Passed\<rparr>, g))
               else (f\<lparr>fl_phase := Passed\<rparr>, g)))"

definition load_step :: "flight \<Rightarrow> ('l, 'd, 'k, 'r, 's) gateway \<Rightarrow> flight \<times> ('l, 'd, 'k, 'r, 's) gateway" where
  "load_step f g =
     (f\<lparr>fl_phase := (if emergencyCutoff (circuitBreaker g) then Decided False CircuitOpen else Loaded)\<rparr>, g)"

definition lock_step :: "flight \<Rightarrow> ('l, 'd, 'k, 'r, 's) gateway \<Rightarrow> flight \<times> ('l, 'd, 'k, 'r, 's) gateway" where
  "lock_step f g =
     (let ((allowed, st), cb) = AllowRequest_locked (clk (fl_env f) AtBreaker) (circuitBreaker g)
      in (f\<lparr>fl_phase := Decided allowed st\<rparr>, g\<lparr>circuitBreaker := cb\<rparr>))"

definition allow_step :: "flight \<Rightarrow> bool \<Rightarrow> CircuitState \<Rightarrow> ('l, 'd, 'k, 'r, 's) gateway \<Rightarrow> flight \<times> ('l, 'd, 'k, 'r, 's) gateway" where
  "allow_step f allowed st g =
     (let r = fl_req f; w = fl_writer f;
          g = g\<lparr>gw_metrics := SetCircuitBreakerStateMetric (state_String st) (gw_metrics g)\<rparr>
      in if allowed then (f\<lparr>fl_phase := Allowed\<rparr>, g)
         else
           (case cache_Get (cache_key r) (smartCache g) of
              Some entry \<Rightarrow> handled_as f (serve_stale entry w g)
            | None \<Rightarrow>
                (finish f False (respondJSON 503
                   (JObj [(''error'', JStr ''upstream circuit breaker is OPEN and no cache fallback is available''),
                          (''status'', JStr ''CIRCUIT_BREAKER_OPEN'')]) w), g)))"

definition forward_step :: "string \<Rightarrow> flight \<Rightarrow> ('l, 'd, 'k, 'r, 's) gateway \<Rightarrow> flight \<times> ('l, 'd, 'k, 'r, 's) gateway" where
  "forward_step startHost f g =
     (let host = director_host (fl_env f) startHost g;
          g = g\<lparr>forwarded := forwarded g @ [host]\<rparr>
      in case record_upstream (upstream (fl_env f) host (fl_req f)) of
           None \<Rightarrow> (finish f True (fl_writer f), g)
         | Some rcd \<Rightarrow> (f\<lparr>fl_phase := Answered rcd\<rparr>, g))"

definition record_step :: "flight \<Rightarrow> ResponseRecorder \<Rightarrow> ('l, 'd, 'k, 'r, 's) gateway \<Rightarrow> flight \<times> ('l, 'd, 'k, 'r, 's) gateway" where
  "record_step f rcd g =
     (let e = fl_env f;
          latency = time_sub (clk e AtEnd) (clk e AtStart);
          g = g\<lparr>gw_metrics := RecordLatency (duration_seconds latency) (gw_metrics g)\<rparr>;
          bad = (ProxyError rcd \<noteq> None \<or> rec_StatusCode rcd \<ge> 500 \<or> latency \<ge> LatencyThreshold (circuitBreaker g))
      in (f\<lparr>fl_phase := Recorded rcd bad\<rparr>,
          if bad then g\<lparr>circuitBreaker := RecordFailure latency (clk e AtRecord) (circuitBreaker g)\<rparr>
          else if rec_StatusCode rcd \<ge> 200 \<and> rec_StatusCode rcd < 400
          then g\<lparr>circuitBreaker := RecordSuccess (clk e AtRecord) (circuitBreaker g)\<rparr>
          else g))"

definition respond_step :: "flight \<Rightarrow> ResponseRecorder \<Rightarrow> bool \<Rightarrow> ('l, 'd, 'k, 'r, 's) gateway \<Rightarrow> flight \<times> ('l, 'd, 'k, 'r, 's) gateway" where
  "respond_step f rcd bad g =
     (let e = fl_env f; r = fl_req f; w = fl_writer f
      in handled_as f
           (if bad then
              (case cache_Get (cache_key r) (smartCache g) of
                 Some entry \<Rightarrow> serve_stale entry w g
               | None \<Rightarrow>
                   (case ProxyError rcd of
                      Some err \<Rightarrow>
                        (False, respondJSON 502 (JObj [(''details'', JStr err), (''error'', JStr ''upstream unreachable'')]) w, g)
                    | None \<Rightarrow> flush_to rcd w g))
            else if rec_StatusCode rcd \<ge> 200 \<and> rec_StatusCode rcd < 400 then
              flush_to rcd w
                (g\<lparr>smartCache := cache_Set (clk e AtCacheSet) (cache_key r) (rec_StatusCode rcd) (HeaderMap rcd)
                    (rec_Body rcd) (cache_ttl (cm_Get (cfgManager g))) (smartCache g)\<rparr>)
            else flush_to rcd w g))"

definition request_step :: "string \<Rightarrow> flight \<Rightarrow> ('l, 'd, 'k, 'r, 's) gateway \<Rightarrow> flight \<times> ('l, 'd, 'k, 'r, 's) gateway" where
  "request_step startHost f g =
     (case fl_phase f of
        Arrived \<Rightarrow> arrive_step f g
      | Flag1 \<Rightarrow> flag_step f (fl_key f) Flag2 g
      | Flag2 \<Rightarrow> flag_step f (HashKey (lib (fl_env f)) (fl_key f)) Lookup g
      | Lookup \<Rightarrow> lookup_step f g
      | Missed \<Rightarrow> query_step f g
      | Fetched dbRec \<Rightarrow> store_step f dbRec g
      | Found keyRec \<Rightarrow> found_step f keyRec g
      | Cleared tierName t \<Rightarrow> check_step f tierName t g
      | Checked tierName t res \<Rightarrow> bill_step f tierName t res g
      | Passed \<Rightarrow> load_step f g
      | Loaded \<Rightarrow> lock_step f g
      | Decided allowed st \<Rightarrow> allow_step f allowed st g
      | Allowed \<Rightarrow> forward_step startHost f g
      | Answered rcd \<Rightarrow> record_step f rcd g
      | Recorded rcd bad \<Rightarrow> respond_step f rcd bad g
      | Finished p \<Rightarrow> (f, g))"

definition new_flight :: "req_env \<Rightarrow> http_request \<Rightarrow> resp_writer \<Rightarrow> flight" where
  "new_flight e r w = \<lparr>fl_env = e, fl_req = r, fl_writer = w, fl_phase = Arrived\<rparr>"

subsection \<open>Interleaving\<close>

record ('l, 'd, 'k, 'r, 's) conc =
  c_flights :: "flight list"
  c_gateway :: "('l, 'd, 'k, 'r, 's) gateway"
  c_clock :: i64
  c_sent :: "(string \<times> i64) list"

definition advance :: "string \<Rightarrow> nat \<Rightarrow> ('l, 'd, 'k, 'r, 's) conc \<Rightarrow> ('l, 'd, 'k, 'r, 's) conc" where
  "advance h i st =
     (let f = c_flights st ! i;
          (f', g') = request_step h f (c_gateway st)
      in \<lparr>c_flights = (c_flights st)[i := f'], c_gateway = g',
          c_clock = (case fl_phase f of Cleared _ _ \<Rightarrow> fl_time f | _ \<Rightarrow> c_clock st),
          c_sent = (if fl_phase f = Allowed then c_sent st @ [(fl_key f, fl_time f)] else c_sent st)\<rparr>)"

text \<open>The runs considered are those whose turns satisfy \<open>G\<close> and whose admin requests satisfy \<open>A\<close>.\<close>

inductive conc_step ::
  "string \<Rightarrow> (('l, 'd, 'k, 'r, 's) conc \<Rightarrow> nat \<Rightarrow> bool) \<Rightarrow> (req_env \<times> http_request \<Rightarrow> bool)
     \<Rightarrow> ('l, 'd, 'k, 'r, 's) conc \<Rightarrow> ('l, 'd, 'k, 'r, 's) conc \<Rightarrow> bool"
  for h G A where
  arrive: "conc_step h G A st (st\<lparr>c_flights := c_flights st @ [new_flight e r w]\<rparr>)"
| turn: "i < length (c_flights st) \<Longrightarrow> G st i \<Longrightarrow> conc_step h G A st (advance h i st)"
| admin: "A (e, r) \<Longrightarrow> is_admin_path (r_Path r) \<Longrightarrow>
    conc_step h G A st (st\<lparr>c_gateway := snd (snd (handleAdminAPI e r w (c_gateway st)))\<rparr>)"

section \<open>A request that runs alone\<close>

lemma finish_simps [simp]:
  "fl_phase (finish f p w) = Finished p" "fl_writer (finish f p w) = w" "fl_env (finish f p w) = fl_env f" "fl_req (finish f p w) = fl_req f"
  "finish (f\<lparr>fl_phase := ph\<rparr>) p w = finish f p w" "finish (f\<lparr>fl_writer := w'\<rparr>) p w = finish f p w"
  by (simp_all add: finish_def)

lemma handled_as_simps [simp]:
  "handled_as f (p, w, g) = (finish f p w, g)" "handled_as (f\<lparr>fl_phase := ph\<rparr>) out = handled_as f out"
  "handled_as (f\<lparr>fl_writer := w'\<rparr>) out = handled_as f out" "snd (handled_as f out) = snd (snd out)"
  "fl_phase (fst (handled_as f out)) = Finished (fst out)" "fl_env (fst (handled_as f out)) = fl_env f" "fl_req (fst (handled_as f out)) = fl_req f"
  by (simp_all add: handled_as_def split: prod.split)

lemma fl_key_update [simp]: "fl_key (f\<lparr>fl_phase := ph\<rparr>) = fl_key f" "fl_key (f\<lparr>fl_writer := w\<rparr>) = fl_key f"
  by (simp_all add: fl_key_def)

lemma director_same [simp]:
  "director_host e h (g\<lparr>circuitBreaker := cb\<rparr>) = director_host e h g" "director_host e h (g\<lparr>gw_metrics := m\<rparr>) = director_host e h g"
  by (simp_all add: director_host_def)

text \<open>The request comes to this end when only it takes steps.\<close>

inductive runs :: "string \<Rightarrow> flight \<times> ('l, 'd, 'k, 'r, 's) gateway \<Rightarrow> flight \<times> ('l, 'd, 'k, 'r, 's) gateway \<Rightarrow> bool" for h where
  ended: "runs h fg fg"
| goes_on: "runs h (request_step h f g) out \<Longrightarrow> runs h (f, g) out"

lemma runs_answered:
  assumes "fl_phase f = Answered rcd"
  shows "runs h (f, g) (handled_as f (finish_upstream (fl_env f) (fl_req f) rcd (fl_writer f) g))"
proof -
  let ?l = "time_sub (clk (fl_env f) AtEnd) (clk (fl_env f) AtStart)"
  obtain f' g' where one: "record_step f rcd g = (f', g')" by (rule prod.exhaust)
  have "request_step h f' g' = handled_as f (finish_upstream (fl_env f) (fl_req f) rcd (fl_writer f) g)"
  proof (cases "ProxyError rcd")
    case Some
    then show ?thesis using one
      by (auto simp: record_step_def request_step_def respond_step_def finish_upstream_def Let_def split: option.split)
  next
    case None
    then show ?thesis using one
      by (auto simp: record_step_def request_step_def respond_step_def finish_upstream_def Let_def split: option.split)
  qed
  then have "runs h (f', g') (handled_as f (finish_upstream (fl_env f) (fl_req f) rcd (fl_writer f) g))"
    using runs.goes_on [OF runs.ended] by metis
  with one assms show ?thesis by (intro runs.goes_on) (simp add: request_step_def)
qed

lemma runs_allowed:
  assumes "fl_phase f = Allowed"
  shows "runs h (f, g) (handled_as f
    (let host = director_host (fl_env f) h g; g = g\<lparr>forwarded := forwarded g @ [host]\<rparr>
     in case record_upstream (upstream (fl_env f) host (fl_req f)) of
          None \<Rightarrow> (True, fl_writer f, g)
        | Some rcd \<Rightarrow> finish_upstream (fl_env f) (fl_req f) rcd (fl_writer f) g))"
proof (rule runs.goes_on, cases "record_upstream (upstream (fl_env f) (director_host (fl_env f) h g) (fl_req f))")
  case (Some rcd)
  let ?f = "f\<lparr>fl_phase := Answered rcd\<rparr>"
  from runs_answered [of ?f rcd h "g\<lparr>forwarded := forwarded g @ [director_host (fl_env f) h g]\<rparr>"] Some assms
  show "runs h (request_step h f g) (handled_as f
    (let host = director_host (fl_env f) h g; g = g\<lparr>forwarded := forwarded g @ [host]\<rparr>
     in case record_upstream (upstream (fl_env f) host (fl_req f)) of
          None \<Rightarrow> (True, fl_writer f, g)
        | Some rcd \<Rightarrow> finish_upstream (fl_env f) (fl_req f) rcd (fl_writer f) g))"
    by (simp add: request_step_def forward_step_def Let_def)
qed (use assms in \<open>simp add: request_step_def forward_step_def runs.ended Let_def\<close>)

lemma runs_decided:
  assumes "fl_phase f = Decided a st" and "AllowRequest (clk (fl_env f) AtBreaker) (circuitBreaker g0) = ((a, st), cb)"
  shows "runs h (f, g0\<lparr>circuitBreaker := cb\<rparr>) (handled_as f (serve_upstream (fl_env f) h (fl_req f) (fl_writer f) g0))"
proof (rule runs.goes_on, cases a)
  case True
  let ?f = "f\<lparr>fl_phase := Allowed\<rparr>"
  let ?g = "g0\<lparr>circuitBreaker := cb, gw_metrics := SetCircuitBreakerStateMetric (state_String st) (gw_metrics g0)\<rparr>"
  from runs_allowed [of ?f h ?g] True assms
  show "runs h (request_step h f (g0\<lparr>circuitBreaker := cb\<rparr>)) (handled_as f (serve_upstream (fl_env f) h (fl_req f) (fl_writer f) g0))"
    by (simp add: request_step_def allow_step_def serve_upstream_def Let_def cong: option.case_cong)
next
  case False
  with assms show "runs h (request_step h f (g0\<lparr>circuitBreaker := cb\<rparr>)) (handled_as f (serve_upstream (fl_env f) h (fl_req f) (fl_writer f) g0))"
    by (simp add: request_step_def allow_step_def serve_upstream_def runs.ended Let_def split: option.split)
qed

lemma runs_passed:
  assumes "fl_phase f = Passed"
  shows "runs h (f, g) (handled_as f (serve_upstream (fl_env f) h (fl_req f) (fl_writer f) g))"
proof (cases "emergencyCutoff (circuitBreaker g)")
  case True
  then have "AllowRequest (clk (fl_env f) AtBreaker) (circuitBreaker g) = ((False, CircuitOpen), circuitBreaker g)"
    by (simp add: AllowRequest_def)
  from runs_decided [of "f\<lparr>fl_phase := Decided False CircuitOpen\<rparr>", OF _ _ , of False CircuitOpen g "circuitBreaker g" h] this assms True
  show ?thesis by (intro runs.goes_on) (simp add: request_step_def load_step_def)
next
  case False
  obtain a st cb where al: "AllowRequest_locked (clk (fl_env f) AtBreaker) (circuitBreaker g) = ((a, st), cb)" by (metis prod.exhaust)
  then have "AllowRequest (clk (fl_env f) AtBreaker) (circuitBreaker g) = ((a, st), cb)" using False by (simp add: AllowRequest_def)
  with runs_decided [of "f\<lparr>fl_phase := Decided a st\<rparr>" a st g cb h]
  have "runs h (request_step h (f\<lparr>fl_phase := Loaded\<rparr>) g) (handled_as f (serve_upstream (fl_env f) h (fl_req f) (fl_writer f) g))"
    by (simp add: request_step_def lock_step_def al)
  then have "runs h (f\<lparr>fl_phase := Loaded\<rparr>, g) (handled_as f (serve_upstream (fl_env f) h (fl_req f) (fl_writer f) g))" by (rule runs.goes_on)
  with assms False show ?thesis by (intro runs.goes_on) (simp add: request_step_def load_step_def)
qed

lemma runs_cleared:
  assumes "fl_phase f = Cleared tn t"
  shows "runs h (f, g) (handled_as f (serve_limited (fl_env f) h (fl_key f) tn t (fl_req f) (fl_writer f) g))"
proof -
  let ?e = "fl_env f" and ?out = "handled_as f (serve_limited (fl_env f) h (fl_key f) tn t (fl_req f) (fl_writer f) g)"
  obtain res lim where c: "redis_Check (gw_limiter g) (limit_call ?e (fl_key f) tn t) = (res, lim)" by (rule prod.exhaust)
  let ?w = "(fl_writer f)\<lparr>w_Header := ApplyHeaders res (w_Header (fl_writer f))\<rparr>"
  let ?f = "f\<lparr>fl_writer := ?w, fl_phase := Checked tn t res\<rparr>" and ?p = "f\<lparr>fl_writer := ?w, fl_phase := Passed\<rparr>"
  have up: "runs h (?p, g') (handled_as f (serve_upstream ?e h (fl_req f) ?w g'))" for g'
    using runs_passed [of ?p h g'] by simp
  have "runs h (bill_step ?f tn t res (g\<lparr>gw_limiter := lim\<rparr>)) ?out"
    using up by (auto simp: bill_step_def serve_limited_def c Let_def runs.ended split: option.split)
  then have "runs h (?f, g\<lparr>gw_limiter := lim\<rparr>) ?out" by (intro runs.goes_on) (simp add: request_step_def)
  with assms c show ?thesis by (intro runs.goes_on) (simp add: request_step_def check_step_def fl_call_def)
qed

lemma runs_found:
  assumes "fl_phase f = Found keyRec"
  shows "runs h (f, g) (handled_as f
    (let tn = to_lower (unicode_lower (lib (fl_env f))) (Tier keyRec);
         t = (case GetTier (unicode_lower (lib (fl_env f))) (cfgManager g) tn of None \<Rightarrow> default_tier | Some t \<Rightarrow> t)
     in serve_signed (fl_env f) h (fl_key f) tn t (fl_req f) (fl_writer f) g))"
proof -
  have "runs h (verify_step f tn t g) (handled_as f (serve_signed (fl_env f) h (fl_key f) tn t (fl_req f) (fl_writer f) g))" for tn t
    using runs_cleared [of "f\<lparr>fl_phase := Cleared tn t\<rparr>" tn t h g]
    by (auto simp: verify_step_def serve_signed_def runs.ended Let_def split: option.split prod.split)
  with assms show ?thesis by (intro runs.goes_on) (simp add: request_step_def found_step_def Let_def)
qed

text \<open>The handler after \<open>GetAPIKey\<close> returned.\<close>

definition after_lookup :: "flight \<Rightarrow> string \<Rightarrow> key_error + APIKeyRecord \<Rightarrow> ('l, 'd, 'k, 'r, 's) gateway \<Rightarrow> ('l, 'd, 'k, 'r, 's) handled" where
  "after_lookup f h found g =
     (case found of
        Inl ErrKeyFrozen \<Rightarrow> (False, respondJSON 403 frozen_json (fl_writer f), g)
      | Inl _ \<Rightarrow> (False, respondJSON 401 (error_json ''invalid or revoked API key'') (fl_writer f), g)
      | Inr keyRec \<Rightarrow>
          (let tn = to_lower (unicode_lower (lib (fl_env f))) (Tier keyRec);
               t = (case GetTier (unicode_lower (lib (fl_env f))) (cfgManager g) tn of None \<Rightarrow> default_tier | Some t \<Rightarrow> t)
           in serve_signed (fl_env f) h (fl_key f) tn t (fl_req f) (fl_writer f) g))"

lemma runs_resolved: "runs h (resolve f found, g) (handled_as f (after_lookup f h found g))"
proof (cases found)
  case (Inl err)
  then show ?thesis by (cases err) (simp_all add: resolve_def after_lookup_def runs.ended)
next
  case (Inr keyRec)
  with runs_found [of "f\<lparr>fl_phase := Found keyRec\<rparr>" keyRec h g] show ?thesis by (simp add: resolve_def after_lookup_def)
qed

lemma resolve_phase [simp]: "resolve (f\<lparr>fl_phase := ph\<rparr>) found = resolve f found"
  by (simp add: resolve_def split: sum.split key_error.split)

lemma after_lookup_phase [simp]: "after_lookup (f\<lparr>fl_phase := ph\<rparr>) h found g = after_lookup f h found g"
  by (simp add: after_lookup_def split: sum.split key_error.split)

text \<open>\<open>GetAPIKey\<close> in its pieces.\<close>

lemma runs_lookup:
  assumes "fl_phase f = Lookup" and "l = lib (fl_env f)"
    and "\<And>rc. redisClient (repo (gw_repo g)) = Some rc \<Longrightarrow> \<not> IsKeyFrozen rc (fl_key f) (kv (gw_repo g)) \<and> \<not> IsKeyFrozen rc (HashKey l (fl_key f)) (kv (gw_repo g))"
  shows "runs h (f, g) (handled_as f (after_lookup f h (fst (GetAPIKey l (gw_repo g) (fl_key f))) (g\<lparr>gw_repo := snd (GetAPIKey l (gw_repo g) (fl_key f))\<rparr>)))"
proof (cases "map_of (memKeys (repo (gw_repo g))) (HashKey l (fl_key f))")
  case (Some k)
  with assms have "GetAPIKey l (gw_repo g) (fl_key f) = (key_verdict k, gw_repo g)"
    by (auto simp: GetAPIKey_def Let_def split: option.split)
  with Some assms(1,2) runs_resolved [of h f "key_verdict k" g] show ?thesis
    by (intro runs.goes_on) (simp add: request_step_def lookup_step_def)
next
  case None
  let ?m = "f\<lparr>fl_phase := Missed\<rparr>"
  have "runs h (?m, g) (handled_as f (after_lookup f h (fst (GetAPIKey l (gw_repo g) (fl_key f))) (g\<lparr>gw_repo := snd (GetAPIKey l (gw_repo g) (fl_key f))\<rparr>)))"
  proof (cases "Option.bind (pool (repo (gw_repo g))) (\<lambda>P. q_api_key P (HashKey l (fl_key f)) (db (gw_repo g)))")
    case no: None
    with None assms have "GetAPIKey l (gw_repo g) (fl_key f) = (Inl ErrKeyNotFound, gw_repo g)"
      by (auto simp: GetAPIKey_def Let_def split: option.split)
    with no assms(2) runs_resolved [of h f "Inl ErrKeyNotFound" g] show ?thesis
      by (intro runs.goes_on) (simp add: request_step_def query_step_def Let_def)
  next
    case (Some dbRec)
    let ?f = "f\<lparr>fl_phase := Fetched dbRec\<rparr>"
    from Some None assms have get: "GetAPIKey l (gw_repo g) (fl_key f) = (key_verdict dbRec,
        (gw_repo g)\<lparr>repo := (repo (gw_repo g))\<lparr>memKeys := gm_set (HashKey l (fl_key f)) dbRec (memKeys (repo (gw_repo g)))\<rparr>\<rparr>)"
      by (auto simp: GetAPIKey_def Let_def split: option.split)
    have "runs h (?f, g) (handled_as f (after_lookup f h (fst (GetAPIKey l (gw_repo g) (fl_key f))) (g\<lparr>gw_repo := snd (GetAPIKey l (gw_repo g) (fl_key f))\<rparr>)))"
      unfolding get using assms(2) runs_resolved [of h f "key_verdict dbRec"]
      by (intro runs.goes_on) (simp add: request_step_def store_step_def Let_def)
    with Some assms(2) show ?thesis by (intro runs.goes_on) (simp add: request_step_def query_step_def Let_def)
  qed
  with None assms(1,2) show ?thesis by (intro runs.goes_on) (simp add: request_step_def lookup_step_def)
qed

lemma runs_flags:
  assumes "fl_phase f = Flag1" and "l = lib (fl_env f)"
  shows "runs h (f, g) (handled_as f (after_lookup f h (fst (GetAPIKey l (gw_repo g) (fl_key f))) (g\<lparr>gw_repo := snd (GetAPIKey l (gw_repo g) (fl_key f))\<rparr>)))"
    (is "runs h (f, g) ?out")
proof (cases "redisClient (repo (gw_repo g))")
  case None
  then have "runs h (f\<lparr>fl_phase := Lookup\<rparr>, g) ?out" using runs_lookup [of "f\<lparr>fl_phase := Lookup\<rparr>" l g h] assms by simp
  with None assms show ?thesis by (intro runs.goes_on) (simp add: request_step_def flag_step_def)
next
  case (Some rc)
  let ?k = "kv (gw_repo g)" and ?key = "fl_key f" and ?hash = "HashKey l (fl_key f)"
  have frozen: "GetAPIKey l (gw_repo g) ?key = (Inl ErrKeyFrozen, gw_repo g)" if "IsKeyFrozen rc ?key ?k \<or> IsKeyFrozen rc ?hash ?k"
    using Some that by (auto simp: GetAPIKey_def Let_def)
  have res: "runs h (resolve f (Inl ErrKeyFrozen), g) ?out" if "IsKeyFrozen rc ?key ?k \<or> IsKeyFrozen rc ?hash ?k"
    using frozen [OF that] runs_resolved [of h f "Inl ErrKeyFrozen" g] by simp
  have two: "runs h (f\<lparr>fl_phase := Flag2\<rparr>, g) ?out" if no: "\<not> IsKeyFrozen rc ?key ?k"
  proof (cases "IsKeyFrozen rc ?hash ?k")
    case True
    with res Some assms show ?thesis by (intro runs.goes_on) (simp add: request_step_def flag_step_def)
  next
    case False
    with no Some have "runs h (f\<lparr>fl_phase := Lookup\<rparr>, g) ?out" using runs_lookup [of "f\<lparr>fl_phase := Lookup\<rparr>" l g h] assms by simp
    with False Some assms show ?thesis by (intro runs.goes_on) (simp add: request_step_def flag_step_def)
  qed
  show ?thesis using res two Some assms by (intro runs.goes_on) (simp add: request_step_def flag_step_def)
qed

text \<open>The steps of a request without interference end as the handler does.\<close>

lemma request_alone:
  "runs h (new_flight e r w, g) (handled_as (new_flight e r w) (serve_client e h r w g))"
proof (rule runs.goes_on)
  let ?f = "new_flight e r w"
  have sel: "fl_env ?f = e" "fl_req ?f = r" "fl_writer ?f = w" "fl_phase ?f = Arrived" "hdr_get (r_Header r) ''X-API-Key'' = fl_key ?f"
    by (simp_all add: new_flight_def fl_key_def)
  obtain found rs where get: "GetAPIKey (lib e) (gw_repo g) (fl_key ?f) = (found, rs)" by (rule prod.exhaust)
  then have "runs h (?f\<lparr>fl_phase := Flag1\<rparr>, g) (handled_as ?f (after_lookup ?f h found (g\<lparr>gw_repo := rs\<rparr>)))"
    using runs_flags [of "?f\<lparr>fl_phase := Flag1\<rparr>" "lib e" h g] by (simp add: sel)
  moreover have "serve_client e h r w g =
      (if fl_key ?f = [] then (False, respondJSON 401 (error_json ''missing X-API-Key header'') w, g)
       else if (case gw_redis g of None \<Rightarrow> False | Some rc \<Rightarrow> IsKeyFrozen rc (fl_key ?f) (kv (gw_repo g)))
       then (False, respondJSON 403 frozen_json w, g) else after_lookup ?f h found (g\<lparr>gw_repo := rs\<rparr>))"
    by (simp add: serve_client_def after_lookup_def sel get Let_def split: sum.split key_error.split)
  ultimately show "runs h (request_step h ?f g) (handled_as ?f (serve_client e h r w g))"
    by (simp add: request_step_def arrive_step_def sel runs.ended Let_def)
qed

section \<open>What a step does\<close>

lemma verify_cases:
  obtains (clear) "verify_step f tn t g = (f\<lparr>fl_phase := Cleared tn t\<rparr>, g)"
  | (reject) p w m where "verify_step f tn t g = (finish f p w, g\<lparr>gw_metrics := m\<rparr>)"
proof -
  define S where "S = insert (f\<lparr>fl_phase := Cleared tn t\<rparr>, g) {x. \<exists>p w m. x = (finish f p w, g\<lparr>gw_metrics := m\<rparr>)}"
  have "(finish f p w, g\<lparr>gw_metrics := gw_metrics g\<rparr>) \<in> S" for p w unfolding S_def by blast
  then have S: "(f\<lparr>fl_phase := Cleared tn t\<rparr>, g) \<in> S" "(finish f p w, g) \<in> S" "(finish f p w, g\<lparr>gw_metrics := m\<rparr>) \<in> S" for p w m
    by (simp_all add: S_def) blast
  have "verify_step f tn t g \<in> S"
    unfolding verify_step_def Let_def by (simp add: S split: option.split prod.split)
  then show ?thesis using that unfolding S_def by blast
qed

lemma bill_cases:
  obtains (pass) g' where "bill_step f tn t res g = (f\<lparr>fl_phase := Passed\<rparr>, g')" "Status res \<noteq> ''BLOCKED''"
      "g' \<in> {g\<lparr>gw_metrics := RecordRequest tn (Status res) (gw_metrics g)\<rparr>,
        bill_burst (fl_env f) (fl_key f) tn (g\<lparr>gw_metrics := RecordRequest tn (Status res) (gw_metrics g)\<rparr>)}"
  | (stop) p w g' where "bill_step f tn t res g = (finish f p w, g')"
      "g' \<in> {g\<lparr>gw_metrics := RecordRequest tn (Status res) (gw_metrics g)\<rparr>,
        bill_burst (fl_env f) (fl_key f) tn (g\<lparr>gw_metrics := RecordRequest tn (Status res) (gw_metrics g)\<rparr>)}"
proof -
  define g1 where "g1 = g\<lparr>gw_metrics := RecordRequest tn (Status res) (gw_metrics g)\<rparr>"
  define G where "G = {g1, bill_burst (fl_env f) (fl_key f) tn g1}"
  define S where "S = {(f\<lparr>fl_phase := Passed\<rparr>, g') | g'. Status res \<noteq> ''BLOCKED'' \<and> g' \<in> G} \<union> {(finish f p w, g') | p w g'. g' \<in> G}"
  have G: "g1 \<in> G" "bill_burst (fl_env f) (fl_key f) tn g1 \<in> G" by (simp_all add: G_def)
  have S: "Status res \<noteq> ''BLOCKED'' \<Longrightarrow> g' \<in> G \<Longrightarrow> (f\<lparr>fl_phase := Passed\<rparr>, g') \<in> S" "g' \<in> G \<Longrightarrow> (finish f p w, g') \<in> S" for p w g'
    by (auto simp: S_def)
  have "bill_step f tn t res g \<in> S"
    unfolding bill_step_def Let_def g1_def [symmetric]
    by (cases "Status res = ''BURST''") (simp_all add: S G split: option.split)
  then show ?thesis using that unfolding S_def G_def g1_def by blast
qed


text \<open>The fields the switches and the limits depend on.\<close>

definition keeps :: "('l, 'd, 'k, 'r, 's) gateway \<Rightarrow> ('l, 'd, 'k, 'r, 's) gateway \<Rightarrow> bool" where
  "keeps g g' \<longleftrightarrow>
     gw_limiter g' = gw_limiter g \<and> emergencyCutoff (circuitBreaker g') = emergencyCutoff (circuitBreaker g) \<and> forwarded g' = forwarded g"

lemma keeps_simps [simp]:
  "keeps g g" "keeps g (g'\<lparr>gw_metrics := m\<rparr>) = keeps g g'" "keeps g (g'\<lparr>smartCache := sc\<rparr>) = keeps g g'"
  "keeps g (g'\<lparr>gw_repo := rs\<rparr>) = keeps g g'"
  by (simp_all add: keeps_def)

lemma stale_same [simp]:
  "keeps g (snd (snd (serve_stale en w g'))) = keeps g g'" "gw_repo (snd (snd (serve_stale en w g))) = gw_repo g"
  "keeps g (snd (snd (flush_to rcd w g'))) = keeps g g'" "gw_repo (snd (snd (flush_to rcd w g))) = gw_repo g"
  by (simp_all add: serve_stale_def flush_to_def split: prod.split bool.split)

lemma keeps_bill: "keeps g (bill_burst e k tn (g\<lparr>gw_metrics := m\<rparr>))"
  by (simp add: keeps_def bill_burst_same) (simp add: bill_burst_def Let_def)

lemma breaker_cutoff:
  "emergencyCutoff (snd (AllowRequest_locked now cb)) = emergencyCutoff cb" "emergencyCutoff (RecordFailure lat now cb) = emergencyCutoff cb"
  "emergencyCutoff (RecordSuccess now cb) = emergencyCutoff cb"
  by (simp_all add: AllowRequest_locked_def RecordFailure_def RecordSuccess_def Let_def split: CircuitState.split)

lemma resolve_simps [simp]:
  "fl_phase (resolve f found) = (case found of Inl _ \<Rightarrow> Finished False | Inr r \<Rightarrow> Found r)"
  "fl_env (resolve f found) = fl_env f" "fl_req (resolve f found) = fl_req f"
  by (simp_all add: resolve_def split: sum.split key_error.split)

lemma found_cases:
  assumes "fl_phase f = Found r"
  obtains (clear) tn t where "request_step h f g = (f\<lparr>fl_phase := Cleared tn t\<rparr>, g)"
  | (reject) p w m where "request_step h f g = (finish f p w, g\<lparr>gw_metrics := m\<rparr>)"
proof -
  define tn where "tn = to_lower (unicode_lower (lib (fl_env f))) (Tier r)"
  define t where "t = (case GetTier (unicode_lower (lib (fl_env f))) (cfgManager g) tn of None \<Rightarrow> default_tier | Some t \<Rightarrow> t)"
  have "request_step h f g = verify_step f tn t g" using assms by (simp add: request_step_def found_step_def tn_def t_def Let_def)
  then show ?thesis using that by (cases rule: verify_cases [of f tn t g]) auto
qed

lemma step_same [simp]: "fl_env (fst (request_step h f g)) = fl_env f" "fl_req (fst (request_step h f g)) = fl_req f"
proof -
  have "fl_env (fst (request_step h f g)) = fl_env f \<and> fl_req (fst (request_step h f g)) = fl_req f"
  proof (cases "fl_phase f")
    case (Found r)
    then show ?thesis by (cases rule: found_cases [OF Found, of h g]) simp_all
  next
    case (Checked tn t res)
    then show ?thesis by (cases rule: bill_cases [of f tn t res g]) (auto simp: request_step_def)
  qed (simp_all add: request_step_def arrive_step_def flag_step_def lookup_step_def query_step_def store_step_def check_step_def load_step_def
      lock_step_def allow_step_def forward_step_def record_step_def respond_step_def Let_def split: prod.split option.split)
  then show "fl_env (fst (request_step h f g)) = fl_env f" "fl_req (fst (request_step h f g)) = fl_req f" by simp_all
qed

lemma step_key [simp]: "fl_key (fst (request_step h f g)) = fl_key f" "fl_time (fst (request_step h f g)) = fl_time f"
  by (simp_all add: fl_key_def fl_time_def)


text \<open>The next phase of a request: it ends, or goes on as the handler does.\<close>

lemma step_phase:
  "(\<exists>p. fl_phase (fst (request_step h f g)) = Finished p) \<or>
   (case fl_phase f of
      Arrived \<Rightarrow> fl_phase (fst (request_step h f g)) = Flag1
    | Flag1 \<Rightarrow> fl_phase (fst (request_step h f g)) \<in> {Flag2, Lookup}
    | Flag2 \<Rightarrow> fl_phase (fst (request_step h f g)) = Lookup
    | Lookup \<Rightarrow>
        (case map_of (memKeys (repo (gw_repo g))) (HashKey (lib (fl_env f)) (fl_key f)) of
           None \<Rightarrow> fl_phase (fst (request_step h f g)) = Missed
         | Some r \<Rightarrow> fl_phase (fst (request_step h f g)) = Found r \<and> \<not> RateFrozen r)
    | Missed \<Rightarrow> (\<exists>r. fl_phase (fst (request_step h f g)) = Fetched r)
    | Fetched r \<Rightarrow> fl_phase (fst (request_step h f g)) = Found r
    | Found r \<Rightarrow> (\<exists>tn t. fl_phase (fst (request_step h f g)) = Cleared tn t)
    | Cleared tn t \<Rightarrow> fl_phase (fst (request_step h f g)) = Checked tn t (fst (redis_Check (gw_limiter g) (fl_call f tn t)))
    | Checked tn t res \<Rightarrow> fl_phase (fst (request_step h f g)) = Passed \<and> Status res \<noteq> ''BLOCKED''
    | Passed \<Rightarrow> fl_phase (fst (request_step h f g)) = (if emergencyCutoff (circuitBreaker g) then Decided False CircuitOpen else Loaded)
    | Loaded \<Rightarrow> (\<exists>a st. fl_phase (fst (request_step h f g)) = Decided a st)
    | Decided a st \<Rightarrow> a \<and> fl_phase (fst (request_step h f g)) = Allowed
    | Allowed \<Rightarrow> (\<exists>rcd. fl_phase (fst (request_step h f g)) = Answered rcd)
    | Answered rcd \<Rightarrow> (\<exists>bad. fl_phase (fst (request_step h f g)) = Recorded rcd bad)
    | Recorded rcd bad \<Rightarrow> False
    | Finished p \<Rightarrow> False)"
proof (cases "fl_phase f")
  case (Found r)
  then show ?thesis by (cases rule: found_cases [OF Found, of h g]) simp_all
next
  case (Checked tn t res)
  then show ?thesis by (cases rule: bill_cases [of f tn t res g]) (auto simp: request_step_def)
next
  case Lookup
  then show ?thesis by (auto simp: request_step_def lookup_step_def key_verdict_def split: option.split)
next
  case (Fetched r)
  then show ?thesis by (auto simp: request_step_def store_step_def key_verdict_def Let_def)
next
  case (Answered rcd)
  then show ?thesis by (simp add: request_step_def record_step_def Let_def)
qed (simp_all add: request_step_def arrive_step_def flag_step_def query_step_def check_step_def load_step_def
    lock_step_def allow_step_def forward_step_def record_step_def respond_step_def ex_bool_eq Let_def split: prod.split option.split)

text \<open>The gateway after a step.\<close>

lemma step_check:
  "fl_phase f = Cleared tn t \<Longrightarrow> snd (request_step h f g) = g\<lparr>gw_limiter := snd (redis_Check (gw_limiter g) (fl_call f tn t))\<rparr> \<and>
     fl_phase (fst (request_step h f g)) = Checked tn t (fst (redis_Check (gw_limiter g) (fl_call f tn t)))"
  by (simp add: request_step_def check_step_def split: prod.split)

lemma step_forward:
  "fl_phase f = Allowed \<Longrightarrow> snd (request_step h f g) = g\<lparr>forwarded := forwarded g @ [director_host (fl_env f) h g]\<rparr>"
  by (simp add: request_step_def forward_step_def Let_def split: option.split)

lemma step_keeps:
  assumes "fl_phase f \<noteq> Allowed" and "\<And>tn t. fl_phase f \<noteq> Cleared tn t"
  shows "keeps g (snd (request_step h f g))"
proof (cases "fl_phase f")
  case (Found r)
  then show ?thesis by (cases rule: found_cases [OF Found, of h g]) simp_all
next
  case (Checked tn t res)
  then show ?thesis by (cases rule: bill_cases [of f tn t res g]) (auto simp: request_step_def keeps_bill)
next
  case Loaded
  then show ?thesis using breaker_cutoff(1) [of "clk (fl_env f) AtBreaker" "circuitBreaker g"]
    by (auto simp: request_step_def lock_step_def keeps_def split: prod.split)
next
  case (Answered rcd)
  then show ?thesis by (simp add: request_step_def record_step_def Let_def) (simp add: keeps_def breaker_cutoff)
qed (use assms in \<open>simp_all add: request_step_def arrive_step_def flag_step_def lookup_step_def query_step_def store_step_def load_step_def
      allow_step_def respond_step_def  Let_def split: option.split\<close>)

lemma step_frozen:
  assumes "gw_frozen l g k" and "lib (fl_env f) = l" and "\<And>r. fl_phase f = Fetched r \<Longrightarrow> HashKey l (fl_key f) \<noteq> HashKey l k"
  shows "gw_frozen l (snd (request_step h f g)) k"
proof (cases "fl_phase f")
  case (Found r)
  then show ?thesis using assms(1) by (cases rule: found_cases [OF Found, of h g]) simp_all
next
  case (Checked tn t res)
  with assms(1) show ?thesis by (cases rule: bill_cases [of f tn t res g]) (auto simp: request_step_def bill_burst_frozen)
next
  case (Fetched r)
  with assms show ?thesis by (auto simp: request_step_def store_step_def frozen_in_def Let_def)
qed (use assms(1) in \<open>simp_all add: request_step_def arrive_step_def flag_step_def lookup_step_def query_step_def check_step_def load_step_def
    lock_step_def allow_step_def forward_step_def record_step_def respond_step_def  Let_def split: prod.split option.split\<close>)

section \<open>Requests in flight when a switch is thrown\<close>

lemma mset_filter_update:
  assumes "i < length xs"
  shows "mset (filter P (xs[i := x])) + (if P (xs ! i) then {#xs ! i#} else {#}) = mset (filter P xs) + (if P x then {#x#} else {#})"
  using assms
proof (induction xs arbitrary: i)
  case (Cons a xs)
  show ?case
  proof (cases i)
    case (Suc j)
    then have "j < length xs" using Cons.prems by simp
    from Cons.IH [OF this] Suc show ?thesis by (simp split: if_splits)
  qed simp
qed simp

lemma length_filter_update:
  assumes "i < length xs"
  shows "length (filter P (xs[i := x])) + (if P (xs ! i) then 1 else 0) = length (filter P xs) + (if P x then 1 else (0::nat))"
  using arg_cong [OF mset_filter_update [OF assms, of P x], of size] by (simp del: mset_filter split: if_splits)

definition sent_count :: "(string \<Rightarrow> bool) \<Rightarrow> ('l, 'd, 'k, 'r, 's) conc \<Rightarrow> nat" where
  "sent_count m st = length (filter (\<lambda>kt. m (fst kt)) (c_sent st))"

lemma advance_simps [simp]:
  "c_flights (advance h i st) = (c_flights st)[i := fst (request_step h (c_flights st ! i) (c_gateway st))]"
  "c_gateway (advance h i st) = snd (request_step h (c_flights st ! i) (c_gateway st))"
  "c_sent (advance h i st) = c_sent st @ (if fl_phase (c_flights st ! i) = Allowed then [(fl_key (c_flights st ! i), fl_time (c_flights st ! i))] else [])"
  by (simp_all add: advance_def Let_def split: prod.split)

text \<open>
  The contract of a switch: a condition \<open>I\<close> on the gateway under which no request enters the set \<open>Q\<close> of those that may
  still be forwarded, for keys in \<open>m\<close>. A request in \<open>B\<close> could undo \<open>I\<close> or enter \<open>Q\<close>; under \<open>I\<close> none comes to be in \<open>B\<close>.
\<close>

locale draining =
  fixes h :: string and ok :: "flight \<Rightarrow> bool" and A :: "req_env \<times> http_request \<Rightarrow> bool"
    and I :: "('l, 'd, 'k, 'r, 's) gateway \<Rightarrow> bool" and Q :: "flight \<Rightarrow> bool" and B :: "flight \<Rightarrow> bool" and m :: "string \<Rightarrow> bool"
  assumes turn_inv: "I g \<Longrightarrow> ok f \<Longrightarrow> \<not> B f \<Longrightarrow> I (snd (request_step h f g))"
    and admin_inv: "I g \<Longrightarrow> A (e, r) \<Longrightarrow> is_admin_path (r_Path r) \<Longrightarrow> I (snd (snd (handleAdminAPI e r w g)))"
    and no_entry: "I g \<Longrightarrow> ok f \<Longrightarrow> \<not> B f \<Longrightarrow> Q (fst (request_step h f g)) \<Longrightarrow> Q f"
    and no_break: "I g \<Longrightarrow> ok f \<Longrightarrow> \<not> B f \<Longrightarrow> \<not> B (fst (request_step h f g))"
    and leaves: "fl_phase f = Allowed \<Longrightarrow> m (fl_key f) \<Longrightarrow> Q f \<and> \<not> Q (fst (request_step h f g))"
    and fresh: "\<not> Q (new_flight e r w)" "\<not> B (new_flight e r w)"
begin

definition safe :: "('l, 'd, 'k, 'r, 's) conc \<Rightarrow> bool" where
  "safe st \<longleftrightarrow> I (c_gateway st) \<and> (\<forall>f \<in> set (c_flights st). \<not> B f)"

lemma drain_step:
  assumes "conc_step h (\<lambda>st i. ok (c_flights st ! i)) A st st'" and "safe st"
  shows "safe st' \<and> sent_count m st' + length (filter Q (c_flights st')) \<le> sent_count m st + length (filter Q (c_flights st))"
  using assms(1)
proof (cases rule: conc_step.cases)
  case (turn i)
  let ?f = "c_flights st ! i" and ?f' = "fst (request_step h (c_flights st ! i) (c_gateway st))"
  have I: "I (c_gateway st)" "\<not> B ?f" using assms(2) turn(2) by (auto simp: safe_def)
  have n: "length (filter Q ((c_flights st)[i := ?f'])) + (if Q ?f then 1 else 0) = length (filter Q (c_flights st)) + (if Q ?f' then 1 else 0)"
    using turn(2) by (rule length_filter_update)
  have "Q ?f' \<longrightarrow> Q ?f" using no_entry [OF I(1) turn(3) I(2)] by blast
  moreover have "fl_phase ?f = Allowed \<and> m (fl_key ?f) \<longrightarrow> Q ?f \<and> \<not> Q ?f'" using leaves by blast
  ultimately have "sent_count m st' + length (filter Q (c_flights st')) \<le> sent_count m st + length (filter Q (c_flights st))"
    using n unfolding turn(1) sent_count_def by (auto split: if_splits)
  moreover have "\<forall>f \<in> set ((c_flights st)[i := ?f']). \<not> B f"
    using assms(2) no_break [OF I(1) turn(3) I(2)] set_update_subset_insert [of "c_flights st" i ?f'] by (auto simp: safe_def)
  ultimately show ?thesis using turn_inv [OF I(1) turn(3) I(2)] turn(1) by (simp add: safe_def)
qed (use assms(2) in \<open>auto simp: safe_def sent_count_def fresh admin_inv\<close>)

lemma drain_run:
  assumes "(conc_step h (\<lambda>st i. ok (c_flights st ! i)) A)\<^sup>*\<^sup>* st st'" and "I (c_gateway st)" and "\<forall>f \<in> set (c_flights st). \<not> B f"
  shows "sent_count m st' \<le> sent_count m st + length (filter Q (c_flights st))"
proof -
  have "safe st' \<and> sent_count m st' + length (filter Q (c_flights st')) \<le> sent_count m st + length (filter Q (c_flights st))"
    using assms(1)
  proof (induction rule: rtranclp_induct)
    case (step y z)
    with drain_step [OF step(2)] show ?case by fastforce
  qed (simp add: assms(2,3) safe_def)
  then show ?thesis by simp
qed

end

text \<open>Whether a request has found the cutoff off; whether it has passed the lookup of its key; whether its lookup is between the shadow map and the store.\<close>

definition past_cutoff :: "flight \<Rightarrow> bool" where
  "past_cutoff f = (case fl_phase f of Loaded \<Rightarrow> True | Decided allowed _ \<Rightarrow> allowed | Allowed \<Rightarrow> True | _ \<Rightarrow> False)"

definition past_lookup :: "flight \<Rightarrow> bool" where
  "past_lookup f = (case fl_phase f of Found _ \<Rightarrow> True | Cleared _ _ \<Rightarrow> True | Checked _ _ _ \<Rightarrow> True | Passed \<Rightarrow> True | _ \<Rightarrow> past_cutoff f)"

definition in_lookup :: "golib \<Rightarrow> string \<Rightarrow> flight \<Rightarrow> bool" where
  "in_lookup l k f \<longleftrightarrow> HashKey l (fl_key f) = HashKey l k \<and> (case fl_phase f of Missed \<Rightarrow> True | Fetched _ \<Rightarrow> True | _ \<Rightarrow> False)"

interpretation cut: draining h "\<lambda>_. True" "\<lambda>er. cutoff_request er \<noteq> Some False" "\<lambda>g. emergencyCutoff (circuitBreaker g)"
  past_cutoff "\<lambda>_. False" "\<lambda>_. True"
proof unfold_locales
  show "emergencyCutoff (circuitBreaker (snd (request_step h f g)))" if "emergencyCutoff (circuitBreaker g)" for f g
    using that step_keeps [of f g h] step_check [of f _ _ h g] step_forward [of f h g] by (cases "fl_phase f") (auto simp: keeps_def)
  show "past_cutoff f" if "emergencyCutoff (circuitBreaker g)" "past_cutoff (fst (request_step h f g))" for f g
    using that step_phase [of h f g] by (auto simp: past_cutoff_def split: phase.splits option.splits)
  show "emergencyCutoff (circuitBreaker (snd (snd (handleAdminAPI e r w g))))"
    if "emergencyCutoff (circuitBreaker g)" "cutoff_request (e, r) \<noteq> Some False" "is_admin_path (r_Path r)" for e r w and g :: "('a, 'b, 'c, 'd, 'e) gateway"
    using that by (cases "cutoff_request (e, r)") (simp_all add: admin_breaker SetEmergencyCutoff_def)
  show "past_cutoff f \<and> \<not> past_cutoff (fst (request_step h f g))" if "fl_phase f = Allowed" for f g
    using that step_phase [of h f g] by (auto simp: past_cutoff_def)
qed (simp_all add: new_flight_def past_cutoff_def)

interpretation kill: draining h "\<lambda>f. lib (fl_env f) = l" "\<lambda>er. lib (fst er) = l" "\<lambda>g. gw_frozen l g k"
  "\<lambda>f. fl_key f = k \<and> past_lookup f" "in_lookup l k" "\<lambda>k'. k' = k" for l k
proof unfold_locales
  show "gw_frozen l (snd (request_step h f g)) k" if "gw_frozen l g k" "lib (fl_env f) = l" "\<not> in_lookup l k f" for f g
    using that by (intro step_frozen) (auto simp: in_lookup_def)
  show "fl_key f = k \<and> past_lookup f" if "gw_frozen l g k" "lib (fl_env f) = l" "\<not> in_lookup l k f"
    "fl_key (fst (request_step h f g)) = k \<and> past_lookup (fst (request_step h f g))" for f g
    using that step_phase [of h f g]
    by (auto simp: past_lookup_def past_cutoff_def in_lookup_def frozen_in_def split: phase.splits option.splits)
  show "\<not> in_lookup l k (fst (request_step h f g))" if "gw_frozen l g k" "lib (fl_env f) = l" "\<not> in_lookup l k f" for f g
    using that step_phase [of h f g] by (auto simp: in_lookup_def frozen_in_def split: phase.splits option.splits if_splits)
  show "(fl_key f = k \<and> past_lookup f) \<and> \<not> (fl_key (fst (request_step h f g)) = k \<and> past_lookup (fst (request_step h f g)))"
    if "fl_phase f = Allowed" "fl_key f = k" for f g
    using that step_phase [of h f g] by (auto simp: past_lookup_def past_cutoff_def)
qed (use admin_frozen in \<open>auto simp: new_flight_def past_lookup_def past_cutoff_def in_lookup_def\<close>)

section \<open>The limits under interleaving\<close>

text \<open>The check that the in-memory limiter runs: it reads the clock under its mutex.\<close>

definition mem_call :: "flight \<Rightarrow> string \<Rightarrow> TierConfig \<Rightarrow> check_call" where
  "mem_call f tn t = (rcall_check (fl_call f tn t))\<lparr>call_now := rcall_later (fl_call f tn t)\<rparr>"

text \<open>
  The runs for the window bound: the clock does not run backwards from check to check, and the tier of a key has the window \<open>W\<close> and limits of at most
  \<open>B\<close> of that key.
\<close>

definition check_fits :: "(string \<Rightarrow> i64) \<Rightarrow> (string \<Rightarrow> i64) \<Rightarrow> ('l, 'd, 'k, 'r, 's) conc \<Rightarrow> nat \<Rightarrow> bool" where
  "check_fits W B st i =
     (case fl_phase (c_flights st ! i) of
        Cleared tn t \<Rightarrow>
          c_clock st \<le> fl_time (c_flights st ! i) \<and> clock_ok W [mem_call (c_flights st ! i) tn t] \<and>
          SoftLimit t \<le> B (fl_key (c_flights st ! i)) \<and> HardLimit t \<le> B (fl_key (c_flights st ! i))
      | _ \<Rightarrow> True)"

definition conc_init :: "('l, 'd, 'k, 'r, 's) conc \<Rightarrow> bool" where
  "conc_init st \<longleftrightarrow>
     c_flights st = [] \<and> c_sent st = [] \<and> c_clock st = 0 \<and> forwarded (c_gateway st) = [] \<and> client (fst (gw_limiter (c_gateway st))) = None \<and>
     memFallback (fst (gw_limiter (c_gateway st))) = NewInMemoryLimiter"

definition sent_times :: "string \<Rightarrow> ('l, 'd, 'k, 'r, 's) conc \<Rightarrow> i64 list" where
  "sent_times k st = map snd (filter (\<lambda>kt. fst kt = k) (c_sent st))"

text \<open>Admitted by the limiter and not yet forwarded.\<close>

definition pending :: "string \<Rightarrow> flight \<Rightarrow> bool" where
  "pending k f \<longleftrightarrow> fl_key f = k \<and>
     (case fl_phase f of Checked _ _ res \<Rightarrow> Status res \<noteq> ''BLOCKED'' | Passed \<Rightarrow> True | _ \<Rightarrow> past_cutoff f)"

definition limiter_rel :: "(string \<Rightarrow> i64) \<Rightarrow> i64 \<Rightarrow> ('l, 'd, 'k, 'r, 's) gateway \<Rightarrow> spec_limiter \<Rightarrow> bool" where
  "limiter_rel W t g s \<longleftrightarrow> client (fst (gw_limiter g)) = None \<and> mem_rel W t (memFallback (fst (gw_limiter g))) s"

definition conc_inv :: "(string \<Rightarrow> i64) \<Rightarrow> (string \<Rightarrow> i64) \<Rightarrow> string \<Rightarrow> ('l, 'd, 'k, 'r, 's) conc \<Rightarrow> bool" where
  "conc_inv W B k st \<longleftrightarrow>
     (\<exists>s. limiter_rel W (c_clock st) (c_gateway st) s \<and> spec_bounded W k (B k) (c_clock st) s \<and>
       mset (sent_times k st) + image_mset fl_time (mset (filter (pending k) (c_flights st))) \<subseteq># mset (admissions s k))"

lemma redis_Check_offline:
  assumes "client (fst lm) = None"
  shows "redis_Check lm (fl_call f tn t) =
    (fst (mem_Check (memFallback (fst lm)) (mem_call f tn t)), (fst lm)\<lparr>memFallback := snd (mem_Check (memFallback (fst lm)) (mem_call f tn t))\<rparr>, snd lm)"
  using assms by (cases lm) (simp add: redis_Check_def fallback_Check_def mem_call_def split: prod.split)

lemma mem_call_simps [simp]:
  "call_now (mem_call f tn t) = fl_time f" "call_apiKey (mem_call f tn t) = fl_key f" "call_windowSec (mem_call f tn t) = WindowSeconds t"
  "call_softLimit (mem_call f tn t) = SoftLimit t" "call_hardLimit (mem_call f tn t) = HardLimit t"
  by (simp_all add: mem_call_def fl_call_def limit_call_def fl_time_def)

lemma spec_check_admissions:
  "admissions (snd (spec_check s c)) k =
     admissions s k @ (if call_apiKey c = k \<and> Status (fst (spec_check s c)) \<noteq> ''BLOCKED'' then [call_now c] else [])"
  by (auto simp: spec_check_def admits_def Let_def)

lemma admin_limiter:
  "\<exists>b. gw_limiter (snd (snd (handleAdminAPI e r w g))) \<in>
     {gw_limiter g, (redis_SetGlobalBurstFreeze b (fst (gw_limiter g)), snd (gw_limiter g))}"
  by (simp add: handleAdminAPI_def admin_kill_def admin_burst_freeze_def admin_cutoff_def admin_jitter_def admin_status_def
      admin_dlq_retry_def admin_dlq_list_def audit_and_publish_def ToggleJitter_def Let_def split: option.split prod.split) blast

lemma conc_inv_init: "conc_init st \<Longrightarrow> conc_inv W B k st"
  using mem_rel_init [of W 0]
  by (auto simp: conc_inv_def conc_init_def limiter_rel_def sent_times_def spec_bounded_def spec_init_def in_window_def intro!: exI [of _ spec_init])

lemma step_pending:
  assumes "pending k (fst (request_step h f g))" and "\<And>tn t. fl_phase f \<noteq> Cleared tn t"
  shows "pending k f"
  using assms step_phase [of h f g] by (auto simp: pending_def past_cutoff_def split: phase.splits option.splits if_splits)

lemma conc_inv_turn:
  assumes "conc_inv W B k st" and "i < length (c_flights st)" and "check_fits W B st i"
  shows "conc_inv W B k (advance h i st)"
proof -
  let ?f = "c_flights st ! i" and ?f' = "fst (request_step h (c_flights st ! i) (c_gateway st))" and ?g = "c_gateway st"
  define F where "F = image_mset fl_time (mset (filter (pending k) (c_flights st)))"
  define F' where "F' = image_mset fl_time (mset (filter (pending k) ((c_flights st)[i := ?f'])))"
  define X where "X = mset (sent_times k st)"
  obtain s where s: "limiter_rel W (c_clock st) ?g s" "spec_bounded W k (B k) (c_clock st) s" "X + F \<subseteq># mset (admissions s k)"
    using assms(1) unfolding conc_inv_def F_def X_def by blast
  have upd: "F' + (if pending k ?f then {#fl_time ?f#} else {#}) = F + (if pending k ?f' then {#fl_time ?f#} else {#})"
    using arg_cong [OF mset_filter_update [OF assms(2), of "pending k" ?f'], of "image_mset fl_time"]
    unfolding F_def F'_def by (simp del: mset_filter split: if_splits)
  have clock: "c_clock (advance h i st) = (case fl_phase ?f of Cleared _ _ \<Rightarrow> fl_time ?f | _ \<Rightarrow> c_clock st)"
    by (simp add: advance_def Let_def split: prod.split)
  have sent: "mset (sent_times k (advance h i st)) = X + (if fl_phase ?f = Allowed \<and> fl_key ?f = k then {#fl_time ?f#} else {#})"
    by (simp add: sent_times_def X_def)
  have inv: "conc_inv W B k (advance h i st)"
    if "limiter_rel W t (snd (request_step h ?f ?g)) s'" "spec_bounded W k (B k) t s'" "c_clock (advance h i st) = t"
      "mset (sent_times k (advance h i st)) + F' \<subseteq># mset (admissions s' k)" for t s'
    using that unfolding conc_inv_def F'_def by (intro exI [of _ s']) simp
  consider (check) tn t where "fl_phase ?f = Cleared tn t" | (forward) "fl_phase ?f = Allowed"
    | (other) "fl_phase ?f \<noteq> Allowed" "\<And>tn t. fl_phase ?f \<noteq> Cleared tn t"
    by (cases "fl_phase ?f") auto
  then show ?thesis
  proof cases
    case (check tn t)
    let ?c = "mem_call ?f tn t"
    have off: "client (fst (gw_limiter ?g)) = None" and rel: "mem_rel W (c_clock st) (memFallback (fst (gw_limiter ?g))) s"
      using s(1) by (simp_all add: limiter_rel_def)
    have fits: "c_clock st \<le> fl_time ?f" "clock_ok W [?c]" "SoftLimit t \<le> B (fl_key ?f)" "HardLimit t \<le> B (fl_key ?f)"
      using assms(3) check by (simp_all add: check_fits_def)
    note step = mem_Check_step [OF rel, of ?c]
    have "spec_bounded W k (B k) (call_now ?c) (snd (spec_check s ?c))"
      by (rule spec_check_bounded [OF s(2)]) (use fits in \<open>auto simp: clock_ok_def\<close>)
    moreover have "limiter_rel W (fl_time ?f) (snd (request_step h ?f ?g)) (snd (spec_check s ?c))"
      using step(2) fits(1,2) off step_check [OF check, of h ?g] by (simp add: limiter_rel_def redis_Check_offline [OF off])
    moreover have "pending k ?f' \<longleftrightarrow> fl_key ?f = k \<and> Status (fst (spec_check s ?c)) \<noteq> ''BLOCKED''"
      using step(1) fits(1,2) step_check [OF check, of h ?g] by (simp add: pending_def redis_Check_offline [OF off])
    moreover have "\<not> pending k ?f" using check by (simp add: pending_def past_cutoff_def)
    ultimately show ?thesis
      using s(3) upd clock sent check by (intro inv [of "fl_time ?f" "snd (spec_check s ?c)"]) (auto simp: spec_check_admissions)
  next
    case forward
    have "pending k ?f \<longleftrightarrow> fl_key ?f = k" "\<not> pending k ?f'"
      using forward step_phase [of h ?f ?g] by (auto simp: pending_def past_cutoff_def)
    moreover have "limiter_rel W (c_clock st) (snd (request_step h ?f ?g)) s" using s(1) step_forward [OF forward, of h ?g] by (simp add: limiter_rel_def)
    ultimately show ?thesis
      using s(2,3) upd clock sent forward by (intro inv [of "c_clock st" s]) (auto split: if_splits)
  next
    case other
    have "limiter_rel W (c_clock st) (snd (request_step h ?f ?g)) s" "c_clock (advance h i st) = c_clock st"
      using s(1) clock step_keeps [OF other, of ?g h] other(2) by (auto simp: limiter_rel_def keeps_def split: phase.splits)
    moreover have "F' \<subseteq># F"
    proof (cases "pending k ?f'")
      case True
      then have "pending k ?f" by (rule step_pending [OF _ other(2)])
      with True upd show ?thesis by simp
    next
      case False
      then have "F' + (if pending k ?f then {#fl_time ?f#} else {#}) = F" using upd by simp
      then show ?thesis by (metis mset_subset_eq_add_left)
    qed
    then have "X + F' \<subseteq># mset (admissions s k)"
      by (rule subset_mset.order_trans [OF subset_mset.add_left_mono s(3)])
    then have "mset (sent_times k (advance h i st)) + F' \<subseteq># mset (admissions s k)" unfolding sent using other(1) by simp
    ultimately show ?thesis using s(2) by (intro inv [of "c_clock st" s])
  qed
qed

lemma conc_inv_admin:
  assumes "conc_inv W B k st"
  shows "conc_inv W B k (st\<lparr>c_gateway := snd (snd (handleAdminAPI e r w (c_gateway st)))\<rparr>)"
proof -
  let ?g = "c_gateway st" and ?g' = "snd (snd (handleAdminAPI e r w (c_gateway st)))"
  obtain s where s: "limiter_rel W (c_clock st) ?g s" "spec_bounded W k (B k) (c_clock st) s"
    "mset (sent_times k st) + image_mset fl_time (mset (filter (pending k) (c_flights st))) \<subseteq># mset (admissions s k)"
    using assms unfolding conc_inv_def by blast
  obtain b where b: "gw_limiter ?g' \<in> {gw_limiter ?g, (redis_SetGlobalBurstFreeze b (fst (gw_limiter ?g)), snd (gw_limiter ?g))}"
    using admin_limiter by blast
  let ?s = "if gw_limiter ?g' = gw_limiter ?g then s else s\<lparr>frozen := b\<rparr>"
  have "limiter_rel W (c_clock st) ?g' ?s"
    using s(1) b by (auto simp: limiter_rel_def mem_rel_def redis_SetGlobalBurstFreeze_def mem_SetGlobalBurstFreeze_def)
  moreover have "admissions ?s = admissions s" by simp
  ultimately show ?thesis
    using s(2,3) unfolding conc_inv_def by (intro exI [of _ ?s]) (simp add: spec_bounded_def sent_times_def del: mset_filter)
qed

interpretation conc: inv_system conc_init "conc_step h (check_fits W B) A" "conc_inv W B k" for W B k
proof unfold_locales
  show "conc_inv W B k t" if "conc_step h (check_fits W B) A s t" "conc_inv W B k s" for s t
    using that
  proof (cases rule: conc_step.cases)
    case (arrive e r w)
    have "\<not> pending k (new_flight e r w)" by (simp add: pending_def past_cutoff_def new_flight_def)
    with that(2) show ?thesis unfolding arrive by (simp add: conc_inv_def sent_times_def)
  next
    case (turn i)
    with that(2) show ?thesis by (simp add: conc_inv_turn)
  next
    case (admin e r w)
    with that(2) show ?thesis by (simp add: conc_inv_admin)
  qed
qed (simp add: conc_inv_init)

text \<open>The record of what was sent is complete.\<close>

interpretation conc_log: inv_system conc_init "conc_step h G A" "\<lambda>st. length (c_sent st) = length (forwarded (c_gateway st))"
proof unfold_locales
  show "length (c_sent t) = length (forwarded (c_gateway t))"
    if "conc_step h G A s t" "length (c_sent s) = length (forwarded (c_gateway s))" for s t :: "('a, 'b, 'c, 'd, 'e) conc"
    using that
  proof (cases rule: conc_step.cases)
    case (turn i)
    with that(2) step_keeps [of "c_flights s ! i" "c_gateway s" h] step_check [of "c_flights s ! i" _ _ h "c_gateway s"]
      step_forward [of "c_flights s ! i" h "c_gateway s"]
    show ?thesis by (cases "fl_phase (c_flights s ! i)") (auto simp: keeps_def)
  qed (simp_all add: admin_forwarded)
qed (simp add: conc_init_def)

lemma in_window_submset: "mset xs \<subseteq># mset ys \<Longrightarrow> in_window w T xs \<le> in_window w T ys"
  unfolding in_window_def by (metis multiset_filter_mono mset_filter of_nat_le_iff size_mset size_mset_mono)

section \<open>Properties\<close>

text \<open>
  C7. The limits hold under every interleaving. However the steps of any number of requests and admin requests
  interleave, starting with a fresh in-memory limiter: when the tier of key \<open>k\<close> has the window \<open>W k\<close> and limits of at most \<open>B k\<close>, at
  most \<open>B k\<close> of the forwarded requests of \<open>k\<close> were checked in any window; and the recorded ones are all that were forwarded.
\<close>

theorem interleaved_window:
  assumes "reachable conc_init (conc_step h (check_fits W B) A) st"
  shows "in_window (W k) T (sent_times k st) \<le> max 0 (B k) \<and> length (c_sent st) = length (forwarded (c_gateway st))"
proof -
  obtain s where "spec_bounded W k (B k) (c_clock st) s"
    "mset (sent_times k st) + image_mset fl_time (mset (filter (pending k) (c_flights st))) \<subseteq># mset (admissions s k)"
    using conc.reachable_inv [OF assms] unfolding conc_inv_def by blast
  then have "in_window (W k) T (admissions s k) \<le> max 0 (B k)" "mset (sent_times k st) \<subseteq># mset (admissions s k)"
    by (auto simp: spec_bounded_def intro: subset_mset.order_trans [OF mset_subset_eq_add_left])
  moreover from this(2) have "in_window (W k) T (sent_times k st) \<le> in_window (W k) T (admissions s k)" by (rule in_window_submset)
  ultimately show ?thesis using conc_log.reachable_inv [OF assms] by simp
qed

definition sample_conc :: "(nat, unit, unit, unit, unit) conc" where
  "sample_conc = \<lparr>c_flights = [], c_gateway = sample_gateway, c_clock = 0, c_sent = []\<rparr>"

abbreviation sample_flight :: flight where
  "sample_flight \<equiv> new_flight sample_reqenv (sample_request ''/x'') new_writer"

text \<open>The sample request through the lookup, and up to the check of the limits.\<close>

lemma sample_lookup_steps:
  "request_step h sample_flight sample_gateway = (sample_flight\<lparr>fl_phase := Flag1\<rparr>, sample_gateway)"
  "request_step h (sample_flight\<lparr>fl_phase := Flag1\<rparr>) sample_gateway = (sample_flight\<lparr>fl_phase := Lookup\<rparr>, sample_gateway)"
  "request_step h (sample_flight\<lparr>fl_phase := Lookup\<rparr>) sample_gateway = (sample_flight\<lparr>fl_phase := Found sample_record\<rparr>, sample_gateway)"
  "request_step h (sample_flight\<lparr>fl_phase := Found sample_record\<rparr>) sample_gateway = (sample_flight\<lparr>fl_phase := Cleared ''free'' default_tier\<rparr>, sample_gateway)"
proof -
  have g: "gw_repo sample_gateway = sample_repo" "gw_redis sample_gateway = None" "cfgManager sample_gateway = sample_cm"
    "redisClient (repo sample_repo) = None" "map_of (memKeys (repo sample_repo)) (HashKey toy_lib ''raw'') = Some sample_record"
    by (simp_all add: sample_gateway_def sample_repo_def)
  have e: "lib sample_reqenv = toy_lib" "unicode_lower toy_lib = (\<lambda>s. s)" "Tier sample_record = ''free''" "key_verdict sample_record = Inr sample_record"
    by (simp_all add: sample_reqenv_def toy_lib_def sample_record_def key_verdict_def)
  show "request_step h sample_flight sample_gateway = (sample_flight\<lparr>fl_phase := Flag1\<rparr>, sample_gateway)"
    by (simp add: request_step_def arrive_step_def new_flight_def fl_key_def sample_headers g)
  show "request_step h (sample_flight\<lparr>fl_phase := Flag1\<rparr>) sample_gateway = (sample_flight\<lparr>fl_phase := Lookup\<rparr>, sample_gateway)"
    by (simp add: request_step_def flag_step_def g)
  show "request_step h (sample_flight\<lparr>fl_phase := Lookup\<rparr>) sample_gateway = (sample_flight\<lparr>fl_phase := Found sample_record\<rparr>, sample_gateway)"
    by (simp add: request_step_def lookup_step_def resolve_def new_flight_def fl_key_def sample_headers g e)
  show "request_step h (sample_flight\<lparr>fl_phase := Found sample_record\<rparr>) sample_gateway = (sample_flight\<lparr>fl_phase := Cleared ''free'' default_tier\<rparr>, sample_gateway)"
    by (simp add: request_step_def found_step_def verify_step_def new_flight_def sample_headers g e sample_lower sample_tier Let_def)
qed

lemma reach_turn:
  assumes "reachable P (conc_step h G A) st" and "c_flights st = [f]" and "request_step h f (c_gateway st) = (f', c_gateway st)" and "G st 0"
    and "\<And>tn t. fl_phase f \<noteq> Cleared tn t" and "fl_phase f \<noteq> Allowed"
  shows "reachable P (conc_step h G A) (st\<lparr>c_flights := [f']\<rparr>)"
proof -
  have "advance h 0 st = st\<lparr>c_flights := [f']\<rparr>"
    using assms(2,3,5,6) by (simp add: advance_def split: phase.split)
  with reachable.move [OF assms(1) turn [of 0 st G h A]] assms(2,4) show ?thesis by simp
qed

theorem interleaved_window_witness:
  "\<exists>st :: (nat, unit, unit, unit, unit) conc. (\<exists>tn t res. fl_phase (c_flights st ! 0) = Checked tn t res) \<and> in_window 60 100 (sent_times ''raw'' st) \<le> max 0 25"
proof -
  let ?fits = "check_fits (\<lambda>_. 60) (\<lambda>_. 25)"
  let ?R = "reachable conc_init (conc_step [] ?fits (\<lambda>_. True))"
  let ?at = "\<lambda>ph. sample_conc\<lparr>c_flights := [sample_flight\<lparr>fl_phase := ph\<rparr>]\<rparr>"
  have sel: "c_gateway sample_conc = sample_gateway" "c_clock sample_conc = 0" by (simp_all add: sample_conc_def)
  have start: "sample_flight\<lparr>fl_phase := Arrived\<rparr> = sample_flight" by (simp add: new_flight_def)
  have "conc_init sample_conc" by (simp add: conc_init_def sample_conc_def sample_gateway_def NewLimiter_def)
  then have "?R (sample_conc\<lparr>c_flights := c_flights sample_conc @ [sample_flight]\<rparr>)"
    by (rule reachable.move [OF reachable.start]) (rule arrive)
  then have "?R (?at Arrived)" unfolding start by (simp add: sample_conc_def)
  from reach_turn [OF this, of "sample_flight" "sample_flight\<lparr>fl_phase := Flag1\<rparr>"] have "?R (?at Flag1)"
    using sample_lookup_steps(1) by (simp add: sel start check_fits_def) (simp add: sel new_flight_def)
  from reach_turn [OF this, of "sample_flight\<lparr>fl_phase := Flag1\<rparr>" "sample_flight\<lparr>fl_phase := Lookup\<rparr>"] have "?R (?at Lookup)"
    using sample_lookup_steps(2) by (simp add: sel check_fits_def)
  from reach_turn [OF this, of "sample_flight\<lparr>fl_phase := Lookup\<rparr>" "sample_flight\<lparr>fl_phase := Found sample_record\<rparr>"] have "?R (?at (Found sample_record))"
    using sample_lookup_steps(3) by (simp add: sel check_fits_def)
  from reach_turn [OF this, of "sample_flight\<lparr>fl_phase := Found sample_record\<rparr>" "sample_flight\<lparr>fl_phase := Cleared ''free'' default_tier\<rparr>"]
  have r: "?R (?at (Cleared ''free'' default_tier))"
    using sample_lookup_steps(4) by (simp add: sel check_fits_def)
  have "fl_time (sample_flight\<lparr>fl_phase := Cleared ''free'' default_tier\<rparr>) = 100"
    by (simp add: fl_time_def new_flight_def sample_reqenv_def time_unix_def second_def)
  then have "?fits (?at (Cleared ''free'' default_tier)) 0" using sel by (simp add: check_fits_def clock_ok_def default_tier_def in_i64_def)
  then have r': "?R (advance [] 0 (?at (Cleared ''free'' default_tier)))"
    by (intro reachable.move [OF r] turn) simp_all
  have "\<exists>res. fl_phase (c_flights (advance [] 0 (?at (Cleared ''free'' default_tier))) ! 0) = Checked ''free'' default_tier res"
    by (simp add: request_step_def check_step_def split: prod.split)
  moreover have "in_window 60 100 (sent_times ''raw'' (advance [] 0 (?at (Cleared ''free'' default_tier)))) \<le> max 0 25"
    using interleaved_window [OF r', of 100 "''raw''"] by simp
  ultimately show ?thesis by blast
qed

text \<open>
  C8. Requests in flight when a switch is thrown, under every interleaving of the steps above. With the emergency cutoff on, and until it is
  lifted, no more requests are forwarded than had already read the cutoff flag while it was off; the check of the breaker
  under its mutex comes after that read and does not repeat it. With the record of a key frozen in the shadow map, no more requests of that key are forwarded
  than had already read its record there, provided no lookup of it was between its miss in the shadow map and its store of
  what the database returned.
\<close>

theorem switches_in_flight:
  "(emergencyCutoff (circuitBreaker (c_gateway st)) \<and>
      (conc_step h (\<lambda>_ _. True) (\<lambda>er. cutoff_request er \<noteq> Some False))\<^sup>*\<^sup>* st st' \<longrightarrow>
      sent_count (\<lambda>_. True) st' \<le> sent_count (\<lambda>_. True) st + length (filter past_cutoff (c_flights st))) \<and>
   (gw_frozen l (c_gateway st) k \<and> \<not> list_ex (in_lookup l k) (c_flights st) \<and>
      (conc_step h (\<lambda>st i. lib (fl_env (c_flights st ! i)) = l) (\<lambda>er. lib (fst er) = l))\<^sup>*\<^sup>* st st' \<longrightarrow>
      sent_count (\<lambda>k'. k' = k) st' \<le> sent_count (\<lambda>k'. k' = k) st + length (filter (\<lambda>f. fl_key f = k \<and> past_lookup f) (c_flights st)))"
  using cut.drain_run [of h st st'] kill.drain_run [of h l st st' k] by (auto simp: list_ex_iff)

text \<open>
  The switches with two requests in flight. One has been let through; the other has not read the cutoff flag, or not looked its key up.
\<close>

definition cutoff_conc :: "(nat, unit, unit, unit, unit) conc" where
  "cutoff_conc = sample_conc\<lparr>c_flights := [sample_flight\<lparr>fl_phase := Allowed\<rparr>, sample_flight\<lparr>fl_phase := Passed\<rparr>],
     c_gateway := sample_gateway\<lparr>circuitBreaker := SetEmergencyCutoff True fresh_breaker\<rparr>\<rparr>"

definition kill_conc :: "(nat, unit, unit, unit, unit) conc" where
  "kill_conc = sample_conc\<lparr>c_flights := [sample_flight\<lparr>fl_phase := Allowed\<rparr>, sample_flight\<lparr>fl_phase := Lookup\<rparr>],
     c_gateway := sample_gateway\<lparr>gw_repo := sample_repo\<lparr>repo := (repo sample_repo)\<lparr>memKeys := [(HashKey toy_lib ''raw'', freeze_record 0 sample_record)]\<rparr>\<rparr>\<rparr>\<rparr>"

lemma two_turns:
  assumes "1 < length (c_flights st)" and "\<And>st i. G st i \<longleftrightarrow> ok (c_flights st ! i)" and "ok (c_flights st ! 1)" and "ok (c_flights st ! 0)"
  shows "(conc_step h G A)\<^sup>*\<^sup>* st (advance h 0 (advance h 1 st))"
proof -
  have "conc_step h G A st (advance h 1 st)" using assms by (intro turn) simp_all
  moreover have "conc_step h G A (advance h 1 st) (advance h 0 (advance h 1 st))" using assms by (intro turn) auto
  ultimately show ?thesis by (rule converse_rtranclp_into_rtranclp [OF _ r_into_rtranclp])
qed

theorem switches_in_flight_witness:
  "sent_count (\<lambda>_. True) (advance [] 0 (advance [] 1 cutoff_conc)) \<le> 1 \<and> sent_count (\<lambda>k. k = ''raw'') (advance [] 0 (advance [] 1 kill_conc)) \<le> 1"
proof
  have "emergencyCutoff (circuitBreaker (c_gateway cutoff_conc))" "sent_count (\<lambda>_. True) cutoff_conc = 0"
    "length (filter past_cutoff (c_flights cutoff_conc)) = 1"
    by (simp_all add: cutoff_conc_def SetEmergencyCutoff_def sent_count_def sample_conc_def past_cutoff_def)
  moreover have "(conc_step [] (\<lambda>_ _. True) (\<lambda>er. cutoff_request er \<noteq> Some False))\<^sup>*\<^sup>* cutoff_conc (advance [] 0 (advance [] 1 cutoff_conc))"
    by (rule two_turns [where ok = "\<lambda>_. True"]) (simp_all add: cutoff_conc_def)
  ultimately show "sent_count (\<lambda>_. True) (advance [] 0 (advance [] 1 cutoff_conc)) \<le> 1"
    using switches_in_flight [THEN conjunct1, of cutoff_conc "[]" "advance [] 0 (advance [] 1 cutoff_conc)"] by simp
next
  have "gw_frozen toy_lib (c_gateway kill_conc) ''raw''" "\<not> list_ex (in_lookup toy_lib ''raw'') (c_flights kill_conc)" "sent_count (\<lambda>k. k = ''raw'') kill_conc = 0"
    "length (filter (\<lambda>f. fl_key f = ''raw'' \<and> past_lookup f) (c_flights kill_conc)) \<le> 1"
    by (simp_all add: kill_conc_def frozen_in_def freeze_record_def sent_count_def sample_conc_def in_lookup_def past_lookup_def past_cutoff_def)
  moreover have "(conc_step [] (\<lambda>st i. lib (fl_env (c_flights st ! i)) = toy_lib) (\<lambda>er. lib (fst er) = toy_lib))\<^sup>*\<^sup>* kill_conc (advance [] 0 (advance [] 1 kill_conc))"
    by (rule two_turns [where ok = "\<lambda>f. lib (fl_env f) = toy_lib"]) (simp_all add: kill_conc_def new_flight_def sample_reqenv_def)
  ultimately show "sent_count (\<lambda>k. k = ''raw'') (advance [] 0 (advance [] 1 kill_conc)) \<le> 1"
    using switches_in_flight [THEN conjunct2, of toy_lib kill_conc "''raw''" "[]" "advance [] 0 (advance [] 1 kill_conc)"] by simp
qed

lemma admin_redisClient:
  fixes g :: "('l, 'd, 'k, 'r, 's) gateway"
  shows "redisClient (repo (gw_repo (snd (snd (handleAdminAPI e r w g))))) = redisClient (repo (gw_repo g))"
proof -
  have freeze: "redisClient (repo (snd (FreezeAPIKey l order now s k))) = redisClient (repo s)" for l order now k and s :: "('d, 'k) repo_sys"
    by (simp add: FreezeAPIKey_def Let_def split: option.split prod.split)
  have audit: "repo (gw_repo (audit_and_publish e kind p mk g)) = repo (gw_repo g)" for kind p mk and g :: "('l, 'd, 'k, 'r, 's) gateway"
    by (simp add: audit_and_publish_def CreateAuditLog_repo Let_def)
  show ?thesis
    by (simp add: handleAdminAPI_def admin_kill_def admin_burst_freeze_def admin_cutoff_def admin_jitter_def admin_status_def
        admin_dlq_retry_def admin_dlq_list_def ToggleJitter_def freeze audit Let_def split: option.split prod.split)
qed


text \<open>A database of one key, whose content says whether the key is frozen; the kill of that key.\<close>

definition race_pool :: "bool pgpool" where
  "race_pool = \<lparr>q_api_keys = (\<lambda>_. None), q_webhooks = (\<lambda>_. None),
     q_api_key = (\<lambda>_ fz. Some (sample_record\<lparr>RateFrozen := fz, IsActive := \<not> fz\<rparr>)), x_freeze = (\<lambda>_ _ _. (Some 1, True)),
     x_audit = (\<lambda>_ fz. (True, fz)), x_billing = (\<lambda>_ _ _ _ fz. (True, fz)), x_schema = (\<lambda>fz. (True, fz)), x_close = (\<lambda>fz. fz)\<rparr>"

definition race_gateway :: "(nat, bool, unit, unit, unit) gateway" where
  "race_gateway = \<lparr>cfgManager = sample_cm,
     gw_repo = \<lparr>repo = \<lparr>pool = Some race_pool, cipher = \<lparr>masterKey = []\<rparr>, redisClient = None, memKeys = [], webhooks = []\<rparr>, db = False, kv = ()\<rparr>,
     gw_redis = None, gw_limiter = (NewLimiter None [], ()), smartCache = fst (NewSmartCache 0), circuitBreaker = fresh_breaker,
     webhookEngine = sample_engine, dlq_state = (), gw_metrics = NewMetrics, jitterOverride = - 1, gw_cors = None, startedAt = 0, forwarded = []\<rparr>"

definition race_kill :: http_request where
  "race_kill = \<lparr>r_Method = ''POST'', r_Path = ''/api/v1/panic/kill'', r_RequestURI = ''/api/v1/panic/kill'', r_Header = [],
     r_Body = Some (json_bytes (JObj [(''api_key'', JStr ''raw'')]))\<rparr>"


end
