(* ===== verification/Spec2Isabelle.thy ===== *)
theory Spec2Isabelle
  imports Startup Standalone_Poll Token_Bucket Gateway_Steps
begin

text \<open>
  \<^bold>\<open>A verification library for AegisPulse\<close>

  AegisPulse is an API gateway in Go. A request passes CORS and security headers
  (\<^verbatim>\<open>internal/middleware\<close>), authentication of its API key (\<^verbatim>\<open>internal/storage\<close>), a replay defence
  over HMAC signatures (\<^verbatim>\<open>internal/crypto\<close>), a rate limiter with a soft and a hard limit
  (\<^verbatim>\<open>internal/ratelimit\<close>), the billing of bursts, an optional random delay, and a circuit breaker with a
  cache of earlier answers (\<^verbatim>\<open>internal/cache\<close>), before the reverse proxy sends it upstream
  (\<^verbatim>\<open>internal/proxy\<close>). An admin API freezes keys, freezes bursts and cuts the upstream off. Events go
  to webhooks through a bounded queue, workers and a dead-letter queue (\<^verbatim>\<open>internal/webhook\<close>).
  \<^verbatim>\<open>config\<close> loads and reloads the settings; \<^verbatim>\<open>internal/metrics\<close> counts. \<^verbatim>\<open>cmd/gateway\<close> builds these parts,
  serves, and runs a terminal console (\<^verbatim>\<open>internal/tui\<close>) in the same process; \<^verbatim>\<open>cmd/tui\<close> is a console that
  reaches a gateway over HTTP, \<^verbatim>\<open>cmd/chaos\<close> runs drills against one, and \<^verbatim>\<open>cmd/mockupstream\<close> and
  \<^verbatim>\<open>cmd/mockwebhook\<close> are the servers it is tried with.

  \<^bold>\<open>Conventions.\<close> Definitions keep the names of the source, with a prefix where two types share a
  method name (\<open>mem_Check\<close>, \<open>redis_Check\<close>, \<open>tb_Check\<close>). Structs are records, methods take and return
  them. An \<open>int64\<close> or \<open>int\<close> is an integer with every operation that could overflow wrapped by \<open>wrap64\<close>;
  a \<open>float64\<close> is a rational rounded to nearest even after each operation (none is fused, as on amd64), or an infinity or NaN. A clock reading, random bytes, the
  network, PostgreSQL, Redis, SHA-256, HMAC, AES-GCM and the Unicode tables are arguments; what a
  theorem needs of them is a hypothesis. A panic is \<open>None\<close> or a flag in the result. Loops are
  structural recursion or \<open>function\<close> with a measure; the only bounds are those of the program (5000
  events, 100 latency samples, the configured retries), and no definition uses fuel but the JSON
  decoder, whose fuel of twice the input's length and one is shown to be enough.

  \<^bold>\<open>Theories, from the bottom.\<close>

  \<^item> \<open>Prelude\<close>: integers, time, Go maps (locale \<open>go_map\<close>), runs of operations and reachable states
    (locale \<open>inv_system\<close>).
  \<^item> \<open>Go_Strings\<close>, \<open>Go_Float\<close>, \<open>Go_Json\<close>, \<open>Base64\<close>: the parts of Go's library the program uses, with
    round trips for numbers, hexadecimal and base64, rounding laws, and well-formed JSON strings.
  \<^item> \<open>Rate_Limit\<close> (\<^verbatim>\<open>ratelimit/limiter.go\<close>, \<open>InMemoryLimiter\<close>): the limiter that prunes timestamps by
    binary search refines an abstract limiter that keeps every admission; no window holds more
    admissions than the limits; overage counters are the burst verdicts.
  \<^item> \<open>Redis_Limiter\<close> (\<open>RedisLimiter\<close> and \<^verbatim>\<open>ratelimit/lua.go\<close>): the Lua script refines the same abstract
    limiter under the laws of Redis' commands, which expire keys and may fail; which replies make the in-memory
    limiter decide.
  \<^item> \<open>Token_Bucket\<close> (\<^verbatim>\<open>ratelimit/token_bucket.go\<close>): bounds of the bucket in floating point over
    interleaved steps, and what a fresh bucket serves.
  \<^item> \<open>Cache\<close>, \<open>Circuit_Breaker\<close> (\<^verbatim>\<open>cache/cache.go\<close>): how long stale answers stay available; an invariant of the
    breaker over interleaved calls, its trip point, recovery and cutoff.
  \<^item> \<open>Crypto\<close> (\<^verbatim>\<open>crypto/hmac.go\<close>, \<^verbatim>\<open>crypto/envelope.go\<close>): signatures verify exactly in their window, acceptance is
    sound, every failure is classified; encryption round trip and failures.
  \<^item> \<open>Config\<close> (\<^verbatim>\<open>config/config.go\<close>): defaults, environment overrides through hot reloads, the file watcher's
    debounce, the jitter settings.
  \<^item> \<open>Storage\<close> (\<^verbatim>\<open>storage/postgres.go\<close>, \<^verbatim>\<open>redis.go\<close>, \<^verbatim>\<open>migrations.go\<close>): the key repository as an instance of the
    contract \<open>key_store\<close>; seeding, lookups and the kill switch.
  \<^item> \<open>Webhook_Adapters\<close>, \<open>Webhook_DLQ\<close>, \<open>Webhook_Engine\<close> (\<^verbatim>\<open>webhook/*.go\<close>): payloads, re-signing and retry of
    dead letters, delivery with backoff, the path of an event from the channel to the sinks as a step relation, the stream poller.
  \<^item> \<open>Metrics\<close> (\<^verbatim>\<open>metrics/metrics.go\<close>): counters, the latency window and its percentiles.
  \<^item> \<open>Cors\<close> (\<^verbatim>\<open>middleware/cors.go\<close>): the response writer, with its panic on a bad status, and the middleware.
  \<^item> \<open>Proxy\<close> (\<^verbatim>\<open>proxy/proxy.go\<close>): the record \<open>gateway\<close> joins the components; one definition per step of
    \<open>serveInternal\<close> and per route of \<open>handleAdminAPI\<close>.
  \<^item> \<open>Gateway_Runs\<close>: sequences of requests, with the locale \<open>shut_gateway\<close>; \<open>Gateway_Samples\<close>: a small gateway for
    concrete runs; \<open>Gateway_Steps\<close>: the handler cut into steps, with the reads and writes of \<open>GetAPIKey\<close> and \<open>AllowRequest\<close> apart, and
    the interleavings of any number of requests: the limits hold under each of them; a cutoff or a kill stops all but the requests that
    have read the flag or the record, except that a lookup in progress undoes the kill. Its locale \<open>draining\<close> is the contract of
    such a switch.
  \<^item> \<open>Go_Decode\<close>, \<open>Go_Parse\<close>: decoding of JSON bodies, with a round trip for what \<open>Go_Json\<close> encodes, and
    the splitting and number parsing of metrics lines.
  \<^item> \<open>Widgets\<close> (\<^verbatim>\<open>tui/theme.go\<close>, \<^verbatim>\<open>sparkline.go\<close>, \<^verbatim>\<open>modals.go\<close>): sparklines are in range and monotone, bars have their
    width.
  \<^item> \<open>Console\<close> (\<^verbatim>\<open>tui/app.go\<close>, \<^verbatim>\<open>chaos.go\<close>): the console over the gateway of its process; it never panics, acts on keys,
    limiter and breaker only after hotkey and confirmation, and its switches bind later requests.
  \<^item> \<open>Standalone\<close>, \<open>Standalone_Poll\<close> (\<^verbatim>\<open>cmd/tui/main.go\<close>): the remote console over any HTTP world; its polled counts are
    the gateway's, its cutoff key does not lift a cutoff.
  \<^item> \<open>Drills\<close> (\<^verbatim>\<open>cmd/chaos\<close>, \<^verbatim>\<open>cmd/mockupstream\<close>, \<^verbatim>\<open>cmd/mockwebhook\<close>): programs of the state monad over an HTTP world.
  \<^item> \<open>Startup\<close> (\<^verbatim>\<open>cmd/gateway/main.go\<close>): the composition of all constructors and the exit; what can keep the
    gateway from starting (the upstream URL, the listening address), the drills against a started gateway, the panic at exit.
  \<^item> This theory: the properties of the whole gateway.

  \<^bold>\<open>Concurrency.\<close> Client requests interleave in \<open>Gateway_Steps\<close>, at the granularity
  stated there. The breaker, the token bucket and the webhook engine are step relations whose steps are the sections
  the source runs under one lock or one atomic access. The other gateway theorems treat requests one after the other; without interference the steps
  of \<open>Gateway_Steps\<close> end as the handler does (lemma \<open>request_alone\<close>). Admin requests run undivided. The concurrent requests of the
  attack suite arrive in any order.

  \<^bold>\<open>Not modelled.\<close> Logging, apart from the lines a property is about; the Prometheus exposition (a function of the
  surroundings); the texts of the demo pages and of the OpenAPI document, constants that are arguments of
  their handlers; the transport of \<^verbatim>\<open>httputil.ReverseProxy\<close>, of which the model keeps the chosen host, the
  recorded answer and the panic when an answer breaks off; the rendering of \<^verbatim>\<open>lipgloss\<close> and the event loop of \<^verbatim>\<open>bubbletea\<close>; command-line flags,
  signals, terminal detection and listening sockets, of which the start-up keeps whether the address could be opened.

  \<^bold>\<open>Plan.\<close> Next: the demo scenario of \<^verbatim>\<open>cmd/chaos\<close> against a started gateway.
\<close>

section \<open>Properties of the gateway\<close>

text \<open>
  C1. What reaches the upstream. If a request makes the gateway forward anything, then it is not
  for the health, page or admin routes; it carries a non-empty API key that the repository resolves to
  an active, unfrozen record; a signature header, if present, was accepted by the replay
  defence for the request's body under that key and its tier's window; the limiter's verdict with the limits of the key's tier
  (the built-in ones if the tier is not configured) is neither BLOCKED nor BURST_FROZEN; the breaker
  admitted it; and it is forwarded exactly once.
\<close>

theorem gateway_forward_requires:
  assumes "forwarded (snd (snd (ServeHTTP e h r w g))) \<noteq> forwarded g"
    and "k = hdr_get (r_Header r) ''X-API-Key''" and "sig = hdr_get (r_Header r) ''X-Aegis-Signature''"
  shows "\<exists>keyRec t host.
    r_Path r \<noteq> ''/healthz'' \<and> \<not> is_page_path (r_Path r) \<and> \<not> is_admin_path (r_Path r) \<and>
    k \<noteq> [] \<and> fst (GetAPIKey (lib e) (gw_repo g) k) = Inr keyRec \<and> IsActive keyRec \<and> \<not> RateFrozen keyRec \<and>
    t = (case GetTier (unicode_lower (lib e)) (cfgManager g) (to_lower (unicode_lower (lib e)) (Tier keyRec)) of
           None \<Rightarrow> default_tier | Some t \<Rightarrow> t) \<and>
    (sig = [] \<or> (\<exists>body. r_Body r = Some body \<and>
       VerifySignature (lib e) (time_unix (clk e AtVerify)) body sig k (ReplayWindowSeconds t) (time_unix (clk e AtReplay))
         = (True, None))) \<and>
    Status (fst (redis_Check (gw_limiter g) (limit_call e k (to_lower (unicode_lower (lib e)) (Tier keyRec)) t)))
      \<notin> {''BLOCKED'', ''BURST_FROZEN''} \<and>
    fst (fst (AllowRequest (clk e AtBreaker) (circuitBreaker g))) \<and>
    forwarded (snd (snd (ServeHTTP e h r w g))) = forwarded g @ [host]"
proof -
  from assms(1) obtain w' where sv: "ServeHTTP e h r w g = serve_client e h r w' g"
    and fw: "forwarded (snd (snd (serve_client e h r w' g))) \<noteq> forwarded g"
    and path: "r_Path r \<noteq> ''/healthz'' \<and> \<not> is_page_path (r_Path r) \<and> \<not> is_admin_path (r_Path r)"
    by (rule ServeHTTP_forwarded)
  let ?g = "g\<lparr>gw_repo := snd (GetAPIKey (lib e) (gw_repo g) k)\<rparr>"
  from serve_client_forwarded [OF fw] obtain keyRec t where
    key: "k \<noteq> []" "fst (GetAPIKey (lib e) (gw_repo g) k) = Inr keyRec"
    and tier: "t = (case GetTier (unicode_lower (lib e)) (cfgManager g) (to_lower (unicode_lower (lib e)) (Tier keyRec)) of
           None \<Rightarrow> default_tier | Some t \<Rightarrow> t)"
    and cl: "serve_client e h r w' g = serve_signed e h k (to_lower (unicode_lower (lib e)) (Tier keyRec)) t r w' ?g"
    and fs: "forwarded (snd (snd (serve_signed e h k (to_lower (unicode_lower (lib e)) (Tier keyRec)) t r w' ?g))) \<noteq> forwarded ?g"
    unfolding assms(2) by (auto simp: Let_def)
  note sg = serve_signed_forwarded [OF fs]
  note lm = serve_limited_forwarded [OF conjunct1 [OF sg]]
  from sg lm key tier path GetAPIKey_ok [OF key(2)] show ?thesis
    unfolding sv cl assms(3)
    by (intro exI [of _ keyRec] exI [of _ t]) auto
qed

theorem gateway_forward_requires_witness:
  "\<exists>keyRec. fst (GetAPIKey toy_lib sample_repo ''raw'') = Inr keyRec \<and> IsActive keyRec \<and>
    forwarded (snd (snd (ServeHTTP sample_reqenv [] (sample_request ''/x'') new_writer sample_gateway))) = [''up'']"
proof -
  have g: "forwarded sample_gateway = []" "gw_repo sample_gateway = sample_repo" "lib sample_reqenv = toy_lib"
    by (simp_all add: sample_gateway_def sample_reqenv_def)
  then have "forwarded (snd (snd (ServeHTTP sample_reqenv [] (sample_request ''/x'') new_writer sample_gateway))) \<noteq>
      forwarded sample_gateway" by (simp add: sample_forwarded_fresh)
  from gateway_forward_requires [OF this refl refl] show ?thesis
    unfolding sample_headers g by (auto simp: sample_forwarded_fresh)
qed

text \<open>
  C5. The kill switch works end to end. When an operator posts a raw key that is in the shadow map
  to the kill route, and no other record has that string as its id or ciphertext, then in every
  later sequence of requests, admin requests included, each client request with that key
  is answered 403 and not forwarded, whatever PostgreSQL and the surroundings of each
  request do. Assumed: the visit of the key map covers it.
\<close>

theorem gateway_kill_switch:
  assumes "map_of (memKeys (repo (gw_repo g))) (HashKey (lib e) k) = Some rec"
    and "set (map_order e) = fst ` set (memKeys (repo (gw_repo g)))"
    and "\<forall>(hk, r) \<in> set (memKeys (repo (gw_repo g))). rec_ID r = k \<or> EncryptedKey r = k \<longrightarrow> hk = HashKey (lib e) k"
    and "r_Path r \<in> {''/api/v1/panic/kill'', ''/api/panic/kill''}" and "r_Method r = ''POST''"
    and "body_str ''api_key'' (admin_body r) = k" and "k \<noteq> []"
    and "i < length ers" and "client_request (snd (ers ! i)) k"
  shows "refused 403 (fst (run_ops (gw_apply (lib e) h) (snd (snd (ServeHTTP e h r w g))) ers) ! i)"
proof -
  have paths: "clean_path ''/api/v1/panic/kill'' = ''/panic/kill''" "clean_path ''/api/panic/kill'' = ''/panic/kill''"
    "is_admin_path ''/api/v1/panic/kill''" "is_admin_path ''/api/panic/kill''"
    "\<not> is_page_path ''/api/v1/panic/kill''" "\<not> is_page_path ''/api/panic/kill''"
    by code_simp+
  have "gw_frozen (lib e) (snd (snd (ServeHTTP e h r w g))) k"
  proof (cases rule: ServeHTTP_cases [of e h r w g])
    case (served w')
    have "serveInternal e h r w' g = admin_kill e k (w_set ''Content-Type'' ''application/json'' w') g"
      using assms(4-6) paths by (auto simp: serveInternal_def handleAdminAPI_def Let_def)
    with served FreezeAPIKey_freezes [OF assms(1-3)] assms(7) show ?thesis by (simp add: admin_kill_frozen)
  qed (use assms(5) in simp)
  with assms(7-9) show ?thesis using gwk.frozen_run by blast
qed

definition kill_request :: http_request where
  "kill_request = \<lparr>r_Method = ''POST'', r_Path = ''/api/v1/panic/kill'', r_RequestURI = ''/api/v1/panic/kill'', r_Header = [],
     r_Body = Some (json_bytes (JObj [(''api_key'', JStr ''raw'')]))\<rparr>"

theorem gateway_kill_switch_witness:
  "refused 403 (fst (run_ops (gw_apply toy_lib []) (snd (snd (ServeHTTP sample_reqenv [] kill_request new_writer sample_gateway)))
     [(sample_reqenv, sample_request ''/healthz''), (sample_reqenv, sample_request ''/x'')]) ! 1)"
proof -
  have body: "body_str ''api_key'' (admin_body kill_request) = ''raw''" by code_simp
  have "client_request (sample_request ''/x'') ''raw''"
    by (simp add: client_request_def sample_headers) (simp add: sample_request_def, code_simp)
  then show ?thesis
    using gateway_kill_switch [of sample_gateway sample_reqenv "''raw''" sample_record kill_request 1
        "[(sample_reqenv, sample_request ''/healthz''), (sample_reqenv, sample_request ''/x'')]" "[]" new_writer]
    using body by (simp add: sample_gateway_def sample_repo_def sample_record_def sample_reqenv_def kill_request_def)
qed

text \<open>
  C6. The emergency cutoff works end to end. Once an operator has posted a true cutoff to the cutoff route,
  no sequence of requests that does not post a cutoff of another value makes the gateway
  forward anything, whatever the clock, the upstream and the other admin switches do.
\<close>

theorem gateway_cutoff:
  assumes "r_Path r \<in> {''/api/v1/panic/emergency-cutoff'', ''/api/panic/emergency-cutoff''}" and "r_Method r = ''POST''"
    and "body_bool ''cutoff'' (admin_body r)"
    and "list_all (\<lambda>er. cutoff_request er \<noteq> Some False) ers"
  shows "forwarded (snd (run_ops (gw_apply l h) (snd (snd (ServeHTTP e h r w g))) ers)) = forwarded g"
proof (cases rule: ServeHTTP_cases [of e h r w g])
  case (served w')
  have "clean_path ''/api/v1/panic/emergency-cutoff'' = ''/panic/emergency-cutoff''"
    "clean_path ''/api/panic/emergency-cutoff'' = ''/panic/emergency-cutoff''"
    "is_admin_path ''/api/v1/panic/emergency-cutoff''" "is_admin_path ''/api/panic/emergency-cutoff''"
    "\<not> is_page_path ''/api/v1/panic/emergency-cutoff''" "\<not> is_page_path ''/api/panic/emergency-cutoff''"
    by code_simp+
  with assms(1-3) have "serveInternal e h r w' g = handleAdminAPI e r w' g" and "is_admin_path (r_Path r)"
    and "cutoff_request (e, r) = Some True"
    by (auto simp: serveInternal_def cutoff_request_def)
  with served have "emergencyCutoff (circuitBreaker (snd (snd (ServeHTTP e h r w g))))"
    and "forwarded (snd (snd (ServeHTTP e h r w g))) = forwarded g"
    by (simp_all add: admin_breaker admin_forwarded SetEmergencyCutoff_def)
  with cutoff.run_shut [OF _ assms(4)] show ?thesis by metis
qed (use assms(2) in simp)

definition cutoff_post :: http_request where
  "cutoff_post = \<lparr>r_Method = ''POST'', r_Path = ''/api/v1/panic/emergency-cutoff'',
     r_RequestURI = ''/api/v1/panic/emergency-cutoff'', r_Header = [],
     r_Body = Some (json_bytes (JObj [(''cutoff'', JBool True)]))\<rparr>"

theorem gateway_cutoff_witness:
  "forwarded (snd (run_ops (gw_apply toy_lib [])
     (snd (snd (ServeHTTP sample_reqenv [] cutoff_post new_writer sample_gateway)))
     [(sample_reqenv, sample_request ''/x'')])) = []"
proof -
  have "body_bool ''cutoff'' (admin_body cutoff_post)" by code_simp
  then show ?thesis
    using gateway_cutoff [of cutoff_post "[(sample_reqenv, sample_request ''/x'')]" toy_lib "[]" sample_reqenv new_writer sample_gateway]
    by (simp add: cutoff_post_def cutoff_request_def sample_request_def sample_gateway_def)
qed

text \<open>
  C28. Bodies that do not decode. The admin routes ignore the decoder's error, so a body that is not a
  JSON object (an empty one, a truncated one) acts as a request with every field at its zero value:
  the kill route changes nothing, the cutoff route lifts the cutoff, the freeze route lifts
  the burst freeze, and the jitter route toggles.
\<close>

theorem admin_undecoded_body:
  assumes "\<forall>kvs. json_decode (admin_body r) \<noteq> Some (VObj kvs)" and "r_Method r = ''POST''"
  shows "(clean_path (r_Path r) = ''/panic/kill'' \<longrightarrow> snd (snd (handleAdminAPI e r w g)) = g) \<and>
    (clean_path (r_Path r) = ''/panic/emergency-cutoff'' \<longrightarrow>
      \<not> emergencyCutoff (circuitBreaker (snd (snd (handleAdminAPI e r w g))))) \<and>
    (clean_path (r_Path r) = ''/panic/burst-freeze'' \<longrightarrow>
      \<not> redis_IsGlobalBurstFrozen (fst (gw_limiter (snd (snd (handleAdminAPI e r w g)))))) \<and>
    (clean_path (r_Path r) = ''/panic/jitter'' \<longrightarrow> snd (snd (handleAdminAPI e r w g)) = snd (ToggleJitter g))"
proof (intro conjI impI)
  note undecoded = body_undecoded [OF assms(1)]
  show "snd (snd (handleAdminAPI e r w g)) = g" if "clean_path (r_Path r) = ''/panic/kill''"
    using that assms(2) by (simp add: handleAdminAPI_def undecoded admin_kill_def Let_def)
  show "\<not> emergencyCutoff (circuitBreaker (snd (snd (handleAdminAPI e r w g))))"
    if "clean_path (r_Path r) = ''/panic/emergency-cutoff''"
    using that assms(2) by (simp add: handleAdminAPI_def undecoded admin_cutoff_def SetEmergencyCutoff_def Let_def)
  show "\<not> redis_IsGlobalBurstFrozen (fst (gw_limiter (snd (snd (handleAdminAPI e r w g)))))"
    if "clean_path (r_Path r) = ''/panic/burst-freeze''"
    using that assms(2) by (simp add: handleAdminAPI_def undecoded admin_burst_freeze_def redis_IsGlobalBurstFrozen_def
        redis_SetGlobalBurstFreeze_def Let_def)
  show "snd (snd (handleAdminAPI e r w g)) = snd (ToggleJitter g)" if "clean_path (r_Path r) = ''/panic/jitter''"
    using that assms(2) by (simp add: handleAdminAPI_def undecoded admin_jitter_def Let_def split: prod.split)
qed

definition empty_post :: http_request where
  "empty_post = cutoff_post\<lparr>r_Body := Some []\<rparr>"

theorem admin_undecoded_body_witness:
  "\<not> emergencyCutoff (circuitBreaker (snd (snd (handleAdminAPI sample_reqenv empty_post new_writer
     (sample_gateway\<lparr>circuitBreaker := SetEmergencyCutoff True fresh_breaker\<rparr>)))))"
proof -
  have "json_decode (admin_body empty_post) = None" "clean_path (r_Path empty_post) = ''/panic/emergency-cutoff''"
    "r_Method empty_post = ''POST''" by code_simp+
  then show ?thesis using admin_undecoded_body [of empty_post] by simp
qed


text \<open>A configuration that \<open>SetJitter\<close> leaves with its bounds crossed.\<close>

definition crossed_gateway :: "(nat, unit, unit, unit, unit) gateway" where
  "crossed_gateway = sample_gateway\<lparr>cfgManager := SetJitter True 50 900 100 sample_cm\<rparr>"

lemma crossed_jitter:
  "Jitter (Upstream (cm_Get (cfgManager crossed_gateway))) =
     \<lparr>jit_Enabled = True, Percentage = 50, MinDelayMs = 900, MaxDelayMs = 500\<rparr>"
  "GetTier (\<lambda>s. s) (cfgManager crossed_gateway) ''free'' = Some default_tier"
  by (simp_all add: crossed_gateway_def SetJitter_def notifyListeners_def jitter_update_def cm_Get_def cloneConfig_def
      sample_cfg defaultConfig_def GetTier_def sample_lower default_tier_def Let_def)

lemma crossed_panics: "fst (ServeHTTP sample_reqenv [] (sample_request ''/x'') new_writer crossed_gateway)"
proof -
  obtain res lm where ch: "redis_Check (NewLimiter None [], ()) (limit_call sample_reqenv ''raw'' ''free'' default_tier) = (res, lm)"
    by (rule prod.exhaust)
  with sample_check have "Status res = ''NORMAL''" by simp
  moreover have "jitter_delay sample_reqenv \<lparr>jit_Enabled = True, Percentage = 50, MinDelayMs = 900, MaxDelayMs = 500\<rparr> = None"
    by (simp add: jitter_delay_def sample_reqenv_def Intn_def wrap64_def)
  moreover have "gw_limiter crossed_gateway = (NewLimiter None [], ())" "gw_repo crossed_gateway = sample_repo"
    "gw_redis crossed_gateway = None" "gw_cors crossed_gateway = None" "jitterOverride crossed_gateway = - 1"
    by (simp_all add: crossed_gateway_def sample_gateway_def)
  ultimately show ?thesis
    using ch sample_serve [of crossed_gateway "''/x''"] crossed_jitter
    by (simp add: serve_limited_def IsJitterActive_def Let_def)
qed




text \<open>
  C21. A probe answered with a client error closes the gateway for good. When an open breaker whose
  cooldown has passed lets a request through and the upstream answers it in time with a status from 400 to
  499, neither success nor failure is recorded; from then on no sequence of requests, admin
  switches included, makes the gateway forward anything.
\<close>

theorem gateway_lost_probe:
  assumes "cb_state (circuitBreaker g) = CircuitOpen"
    and "forwarded (snd (snd (ServeHTTP e h r w g))) \<noteq> forwarded g"
    and "upstream e (director_host e h g) r = UpResponse code hs b" and "400 \<le> code" and "code < 500"
    and "time_sub (clk e AtEnd) (clk e AtStart) < latencyThreshold (circuitBreaker g)"
  shows "forwarded (snd (run_ops (gw_apply l h) (snd (snd (ServeHTTP e h r w g))) ers)) =
    forwarded (snd (snd (ServeHTTP e h r w g)))"
proof -
  from ServeHTTP_upstream [OF assms(2)] obtain w1 g1 where
    sv: "ServeHTTP e h r w g = serve_upstream e h r w1 g1" and same: "same_upstream g g1" by blast
  have "fst (fst (AllowRequest (clk e AtBreaker) (circuitBreaker g1)))"
    using assms(2) same unfolding sv by (auto simp: serve_upstream_forwarded same_upstream_def split: if_splits)
  then have "\<not> emergencyCutoff (circuitBreaker g1)"
    and "cooldown (circuitBreaker g1) \<le> time_sub (clk e AtBreaker) (lastStateChange (circuitBreaker g1))"
    using assms(1) same by (auto simp: AllowRequest_def AllowRequest_locked_def same_upstream_def split: if_splits)
  moreover have "director_host e h g1 = director_host e h g" using same by (simp add: director_host_def same_upstream_def)
  ultimately have "probe_lost (circuitBreaker (snd (snd (serve_upstream e h r w1 g1))))"
    using serve_upstream_4xx [of g1 e h r code hs b w1] assms(1,3-) same by (simp add: same_upstream_def)
  then show ?thesis unfolding sv by (rule lost.run_shut) (simp add: list_all_iff)
qed

definition open_breaker :: CircuitBreaker where
  "open_breaker = RecordFailure 0 5 (NewCircuitBreaker 1 0 20 0)"

theorem gateway_lost_probe_witness:
  "forwarded (snd (run_ops (gw_apply toy_lib [])
     (snd (snd (ServeHTTP sample_reqenv [] (sample_request ''/none'') new_writer (sample_gateway\<lparr>circuitBreaker := open_breaker\<rparr>))))
     [(sample_reqenv, sample_request ''/x'')])) = [''up'']"
proof -
  have "fst (fst (AllowRequest (100 * second) open_breaker))" by code_simp
  from sample_forwarded [OF this, of "''/none''"]
  have fw: "forwarded (snd (snd (ServeHTTP sample_reqenv [] (sample_request ''/none'') new_writer
      (sample_gateway\<lparr>circuitBreaker := open_breaker\<rparr>)))) = [''up'']" by simp
  have "cb_state open_breaker = CircuitOpen" "0 < latencyThreshold open_breaker" by code_simp+
  then show ?thesis
    using gateway_lost_probe [of "sample_gateway\<lparr>circuitBreaker := open_breaker\<rparr>" sample_reqenv "[]" "sample_request ''/none''"
        new_writer 404 "[]" "''missing''" toy_lib "[(sample_reqenv, sample_request ''/x'')]"] fw
    by (simp add: sample_reqenv_def sample_request_def sample_gateway_def time_sub_def sat64_def)
qed

text \<open>
  C26. A probe whose answer breaks off closes the gateway for good. When an open breaker whose cooldown has passed lets a
  request through and the upstream's answer breaks off while its body is copied, the handler panics before it records anything; from
  then on no sequence of requests, admin switches included, makes the gateway forward anything.
\<close>

theorem gateway_aborted_probe:
  assumes "cb_state (circuitBreaker g) = CircuitOpen"
    and "forwarded (snd (snd (ServeHTTP e h r w g))) \<noteq> forwarded g"
    and "upstream e (director_host e h g) r = UpAborted code hs b"
  shows "fst (ServeHTTP e h r w g) \<and>
    forwarded (snd (run_ops (gw_apply l h) (snd (snd (ServeHTTP e h r w g))) ers)) = forwarded (snd (snd (ServeHTTP e h r w g)))"
proof -
  from ServeHTTP_upstream [OF assms(2)] obtain w1 g1 where
    sv: "ServeHTTP e h r w g = serve_upstream e h r w1 g1" and same: "same_upstream g g1" by blast
  have "fst (fst (AllowRequest (clk e AtBreaker) (circuitBreaker g1)))"
    using assms(2) same unfolding sv by (auto simp: serve_upstream_forwarded same_upstream_def split: if_splits)
  then have "\<not> emergencyCutoff (circuitBreaker g1)"
    and "cooldown (circuitBreaker g1) \<le> time_sub (clk e AtBreaker) (lastStateChange (circuitBreaker g1))"
    using assms(1) same by (auto simp: AllowRequest_def AllowRequest_locked_def same_upstream_def split: if_splits)
  moreover have "director_host e h g1 = director_host e h g" using same by (simp add: director_host_def same_upstream_def)
  ultimately have lost: "fst (serve_upstream e h r w1 g1)" "probe_lost (circuitBreaker (snd (snd (serve_upstream e h r w1 g1))))"
    using serve_upstream_aborted [of g1 e h r code hs b w1] assms(1,3) same by (simp_all add: same_upstream_def)
  from lost(2) have "forwarded (snd (run_ops (gw_apply l h) (snd (snd (serve_upstream e h r w1 g1))) ers)) =
      forwarded (snd (snd (serve_upstream e h r w1 g1)))" by (rule lost.run_shut) (simp add: list_all_iff)
  with lost(1) show ?thesis unfolding sv by simp
qed

theorem gateway_aborted_probe_witness:
  "fst (ServeHTTP sample_reqenv [] (sample_request ''/cut'') new_writer (sample_gateway\<lparr>circuitBreaker := open_breaker\<rparr>)) \<and>
   forwarded (snd (run_ops (gw_apply toy_lib [])
     (snd (snd (ServeHTTP sample_reqenv [] (sample_request ''/cut'') new_writer (sample_gateway\<lparr>circuitBreaker := open_breaker\<rparr>))))
     [(sample_reqenv, sample_request ''/x'')])) = [''up'']"
proof -
  have "fst (fst (AllowRequest (100 * second) open_breaker))" by code_simp
  from sample_forwarded [OF this, of "''/cut''"]
  have fw: "forwarded (snd (snd (ServeHTTP sample_reqenv [] (sample_request ''/cut'') new_writer
      (sample_gateway\<lparr>circuitBreaker := open_breaker\<rparr>)))) = [''up'']" by simp
  have "cb_state open_breaker = CircuitOpen" by code_simp
  then show ?thesis
    using gateway_aborted_probe [of "sample_gateway\<lparr>circuitBreaker := open_breaker\<rparr>" sample_reqenv "[]" "sample_request ''/cut''"
        new_writer 200 "[]" "''da''" toy_lib "[(sample_reqenv, sample_request ''/x'')]"] fw
    by (simp add: sample_reqenv_def sample_request_def sample_gateway_def)
qed

end
